(* ===== verification/Prelude.thy ===== *)
theory Prelude
  imports Main "HOL-Library.Word"
begin

text \<open>
  Shared ground of the development: results of fallible Go functions, Go strings with their
  UTF-8 decoding and the functions of packages \<^verbatim>\<open>strings\<close>, \<^verbatim>\<open>unicode\<close> and
  \<^verbatim>\<open>unicode/utf8\<close> that the sources call, the clock of package \<^verbatim>\<open>time\<close>, and the generic
  list and word lemmas of the components.
\<close>

section \<open>Results of fallible functions\<close>

text \<open>
  A Go function returning \<open>(T, error)\<close> is a function into \<open>'e + 'a\<close>, with \<open>Inl\<close> the
  error. \<open>bindE\<close> is the early return \<^verbatim>\<open>if err != nil { return err }\<close>, \<open>failIf\<close> a guard that
  returns an error.
\<close>

definition bindE :: "'e + 'a \<Rightarrow> ('a \<Rightarrow> 'e + 'b) \<Rightarrow> 'e + 'b" where
  "bindE m f = (case m of Inl e \<Rightarrow> Inl e | Inr x \<Rightarrow> f x)"

definition failIf :: "bool \<Rightarrow> 'e \<Rightarrow> 'e + unit" where
  "failIf b e = (if b then Inl e else Inr ())"

fun forE :: "('a \<Rightarrow> 'e + unit) \<Rightarrow> 'a list \<Rightarrow> 'e + unit" where
  "forE f [] = Inr ()"
| "forE f (x # xs) = bindE (f x) (\<lambda>_. forE f xs)"

named_theorems result_simps \<open>rewriting of results: binds and guards\<close>

lemma bindE_simps [simp]: "bindE (Inl e) f = Inl e" "bindE (Inr x) f = f x"
  by (simp_all add: bindE_def)

lemma bindE_Inr [result_simps]: "bindE m f = Inr y \<longleftrightarrow> (\<exists>x. m = Inr x \<and> f x = Inr y)"
  by (cases m) auto

lemma bindE_Inl [result_simps]:
  "bindE m f = Inl e \<longleftrightarrow> m = Inl e \<or> (\<exists>x. m = Inr x \<and> f x = Inl e)"
  by (cases m) auto

lemma failIf_Inr [result_simps]: "failIf b e = Inr u \<longleftrightarrow> \<not> b"
  by (simp add: failIf_def)

lemma failIf_Inl [result_simps]: "failIf b e = Inl e' \<longleftrightarrow> b \<and> e' = e"
  by (auto simp: failIf_def)

lemma failIf_simps [simp]: "failIf True e = Inl e" "failIf False e = Inr ()"
  by (simp_all add: failIf_def)

lemma forE_Inr [result_simps]: "forE f xs = Inr u \<longleftrightarrow> (\<forall>x\<in>set xs. f x = Inr ())"
  by (induction xs) (auto simp: result_simps)

lemma forE_InlD: "forE f xs = Inl e \<Longrightarrow> \<exists>x\<in>set xs. f x = Inl e"
  by (induction xs) (auto simp: result_simps)

section \<open>Strings\<close>

text \<open>
  A Go string is a sequence of bytes: a \<open>string\<close>, one \<open>char\<close> per byte. \<open>range\<close> over a
  string, and the functions of package \<open>strings\<close> used here, decode it as UTF-8; an invalid
  byte decodes as the rune U+FFFD of width 1. \<open>decode_rune\<close> is
  \<^verbatim>\<open>utf8.DecodeRuneInString\<close>: the rune and the number of bytes it takes.
\<close>

type_synonym rune = int

definition runeError :: rune where
  "runeError = 0xFFFD"

definition cont_byte :: "int \<Rightarrow> bool" where
  "cont_byte b \<longleftrightarrow> 0x80 \<le> b \<and> b \<le> 0xBF"

definition second_ok :: "int \<Rightarrow> int \<Rightarrow> bool" where
  "second_ok b0 b1 \<longleftrightarrow>
     (if b0 = 0xE0 then 0xA0 \<le> b1 \<and> b1 \<le> 0xBF
      else if b0 = 0xED then 0x80 \<le> b1 \<and> b1 \<le> 0x9F
      else if b0 = 0xF0 then 0x90 \<le> b1 \<and> b1 \<le> 0xBF
      else if b0 = 0xF4 then 0x80 \<le> b1 \<and> b1 \<le> 0x8F
      else cont_byte b1)"

definition decode_rune :: "int list \<Rightarrow> rune \<times> nat" where
  "decode_rune bs =
     (case bs of
        [] \<Rightarrow> (runeError, 0)
      | b0 # rest \<Rightarrow>
          if b0 < 0x80 then (b0, 1)
          else if 0xC2 \<le> b0 \<and> b0 \<le> 0xDF then
            (case rest of
               b1 # _ \<Rightarrow> if second_ok b0 b1 then ((b0 - 0xC0) * 64 + (b1 - 0x80), 2)
                         else (runeError, 1)
             | [] \<Rightarrow> (runeError, 1))
          else if 0xE0 \<le> b0 \<and> b0 \<le> 0xEF then
            (case rest of
               b1 # b2 # _ \<Rightarrow>
                 if second_ok b0 b1 \<and> cont_byte b2
                 then ((b0 - 0xE0) * 4096 + (b1 - 0x80) * 64 + (b2 - 0x80), 3)
                 else (runeError, 1)
             | _ \<Rightarrow> (runeError, 1))
          else if 0xF0 \<le> b0 \<and> b0 \<le> 0xF4 then
            (case rest of
               b1 # b2 # b3 # _ \<Rightarrow>
                 if second_ok b0 b1 \<and> cont_byte b2 \<and> cont_byte b3
                 then ((b0 - 0xF0) * 262144 + (b1 - 0x80) * 4096 + (b2 - 0x80) * 64
                       + (b3 - 0x80), 4)
                 else (runeError, 1)
             | _ \<Rightarrow> (runeError, 1))
          else (runeError, 1))"

text \<open>
  The runes of a string, each with the bytes it was decoded from: the iterations of a
  \<open>range\<close> loop. A byte that may start a rune never lies inside a longer rune, so scanning
  from the right, as \<^verbatim>\<open>strings.TrimRightFunc\<close> does, meets the same runes.
\<close>

fun rune_chunks :: "string \<Rightarrow> (rune \<times> string) list" where
  "rune_chunks [] = []"
| "rune_chunks (c # cs) =
     (let d = decode_rune (map of_char (take 4 (c # cs)));
          w = snd d - 1
      in (fst d, c # take w cs) # rune_chunks (drop w cs))"

definition runes :: "string \<Rightarrow> rune list" where
  "runes s = map fst (rune_chunks s)"

definition RuneCountInString :: "string \<Rightarrow> nat" where
  "RuneCountInString s = length (rune_chunks s)"

definition ValidString :: "string \<Rightarrow> bool" where
  "ValidString s = list_all (\<lambda>(r, bs). \<not> (r = runeError \<and> length bs = 1)) (rune_chunks s)"

definition IsSpace :: "rune \<Rightarrow> bool" where
  "IsSpace r \<longleftrightarrow>
     (9 \<le> r \<and> r \<le> 13) \<or> r = 0x20 \<or> r = 0x85 \<or> r = 0xA0 \<or> r = 0x1680 \<or>
     (0x2000 \<le> r \<and> r \<le> 0x200A) \<or> r = 0x2028 \<or> r = 0x2029 \<or> r = 0x202F \<or>
     r = 0x205F \<or> r = 0x3000"

definition IsControl :: "rune \<Rightarrow> bool" where
  "IsControl r \<longleftrightarrow> r \<le> 0x1F \<or> (0x7F \<le> r \<and> r \<le> 0x9F)"

text \<open>The ranges of the Unicode category Cf (format characters).\<close>

definition Cf_ranges :: "(rune \<times> rune) list" where
  "Cf_ranges =
     [(0xAD, 0xAD), (0x600, 0x605), (0x61C, 0x61C), (0x6DD, 0x6DD), (0x70F, 0x70F),
      (0x890, 0x891), (0x8E2, 0x8E2), (0x180E, 0x180E), (0x200B, 0x200F), (0x202A, 0x202E),
      (0x2060, 0x2064), (0x2066, 0x206F), (0xFEFF, 0xFEFF), (0xFFF9, 0xFFFB),
      (0x110BD, 0x110BD), (0x110CD, 0x110CD), (0x13430, 0x1343F), (0x1BCA0, 0x1BCA3),
      (0x1D173, 0x1D17A), (0xE0001, 0xE0001), (0xE0020, 0xE007F)]"

definition IsCf :: "rune \<Rightarrow> bool" where
  "IsCf r = list_ex (\<lambda>(lo, hi). lo \<le> r \<and> r \<le> hi) Cf_ranges"

definition space_chunk :: "rune \<times> string \<Rightarrow> bool" where
  "space_chunk x = IsSpace (fst x)"

definition TrimSpace :: "string \<Rightarrow> string" where
  "TrimSpace s =
     concat (map snd (rev (dropWhile space_chunk (rev (dropWhile space_chunk (rune_chunks s))))))"

text \<open>\<^verbatim>\<open>strings.Fields\<close>: the maximal runs of non-space runes.\<close>

fun fields_of :: "(rune \<times> string) list \<Rightarrow> string \<Rightarrow> string list" where
  "fields_of [] acc = (if acc = [] then [] else [acc])"
| "fields_of (x # xs) acc =
     (if space_chunk x then (if acc = [] then fields_of xs [] else acc # fields_of xs [])
      else fields_of xs (acc @ snd x))"

definition Fields :: "string \<Rightarrow> string list" where
  "Fields s = fields_of (rune_chunks s) []"

text \<open>\<^verbatim>\<open>strings.Join\<close> with the separator \<^verbatim>\<open>" "\<close>.\<close>

fun Join :: "string list \<Rightarrow> string" where
  "Join [] = []"
| "Join [x] = x"
| "Join (x # y # xs) = x @ CHR '' '' # Join (y # xs)"

definition blank :: "string \<Rightarrow> bool" where
  "blank s \<longleftrightarrow> TrimSpace s = []"

lemma rune_chunks_Nil_iff [simp]: "rune_chunks s = [] \<longleftrightarrow> s = []"
  by (cases s) (simp_all add: Let_def)

lemma concat_rune_chunks: "concat (map snd (rune_chunks s)) = s"
  by (induction s rule: rune_chunks.induct) (simp_all add: Let_def)

lemma TrimSpace_Nil [simp]: "TrimSpace [] = []"
  by (simp add: TrimSpace_def)

lemma blank_Nil [simp]: "blank []"
  by (simp add: blank_def)

text \<open>A valid prefix of a string is decoded on its own, and a valid string has a short valid prefix.\<close>

lemma decode_rune_stable:
  assumes "decode_rune bs = (r, w)" and "\<not> (r = runeError \<and> w = 1)" and "bs \<noteq> []"
  shows "1 \<le> w \<and> w \<le> 4 \<and> w \<le> length bs \<and> decode_rune (take w bs @ cs) = (r, w)"
  using assms unfolding decode_rune_def
  by (auto split: list.split_asm if_split_asm)

lemma chunk_stable:
  assumes "decode_rune (map of_char (take 4 s)) = (r, w)" and "\<not> (r = runeError \<and> w = 1)" and "s \<noteq> []"
  shows "1 \<le> w \<and> w \<le> 4 \<and> w \<le> length s \<and>
    decode_rune (map of_char (take 4 (take w s @ t))) = (r, w)"
proof -
  have ne: "map of_char (take 4 s) \<noteq> ([] :: int list)" using assms(3) by (cases s) simp_all
  note st = decode_rune_stable [OF assms(1,2) ne]
  have w: "1 \<le> w" "w \<le> 4" "w \<le> length s" using st by auto
  have "take 4 (take w s @ t) = take w (take 4 s) @ take (4 - w) t"
    using w by (simp add: min_def)
  then have "map of_char (take 4 (take w s @ t)) = take w (map of_char (take 4 s)) @ (map of_char (take (4 - w) t) :: int list)"
    by (simp add: take_map)
  then show ?thesis using st w by simp
qed

lemma ValidString_Cons:
  "ValidString (c # cs) \<longleftrightarrow>
    (\<exists>r w. decode_rune (map of_char (take 4 (c # cs))) = (r, w) \<and> \<not> (r = runeError \<and> w = 1) \<and>
       ValidString (drop w (c # cs)))"
proof -
  obtain r w where d: "decode_rune (map of_char (take 4 (c # cs))) = (r, w)" by fastforce
  have w: "1 \<le> w" using d by (auto simp: decode_rune_def split: list.splits if_splits)
  have one: "r = runeError \<Longrightarrow> length (c # take (w - 1) cs) = 1 \<longleftrightarrow> w = 1"
    using chunk_stable [OF d] w by (cases "w = 1") (auto simp: min_def)
  show ?thesis using d w one
    by (auto simp: ValidString_def drop_Cons' Let_def)
qed

lemma rune_chunks_append:
  "ValidString p \<Longrightarrow> rune_chunks (p @ q) = rune_chunks p @ rune_chunks q"
proof (induction p rule: rune_chunks.induct)
  case 1
  show ?case by simp
next
  case (2 c cs)
  from 2(2) obtain r w where d: "decode_rune (map of_char (take 4 (c # cs))) = (r, w)"
    and v: "\<not> (r = runeError \<and> w = 1)" and rest: "ValidString (drop w (c # cs))"
    by (auto simp: ValidString_Cons)
  have w: "1 \<le> w" "w \<le> length (c # cs)" using chunk_stable [OF d v] by auto
  have d': "decode_rune (map of_char (take 4 (c # cs @ q))) = (r, w)"
    using chunk_stable [OF d v, of "drop w (c # cs) @ q"]
    by (simp only: append_assoc [symmetric] append_take_drop_id) simp
  have "rune_chunks (drop (w - 1) cs @ q) = rune_chunks (drop (w - 1) cs) @ rune_chunks q"
    using 2(1) [of "(r, w)" "w - 1"] d rest w by (simp add: drop_Cons')
  moreover have "drop (w - 1) (cs @ q) = drop (w - 1) cs @ q" "take (w - 1) (cs @ q) = take (w - 1) cs"
    using w by auto
  ultimately show ?case using d d' by (simp add: Let_def)
qed

lemma ValidString_append: "ValidString p \<Longrightarrow> ValidString (p @ q) \<longleftrightarrow> ValidString q"
  by (simp add: ValidString_def rune_chunks_append)

lemma ValidString_prefix:
  assumes "ValidString s" and "s \<noteq> []"
  shows "\<exists>w. 1 \<le> w \<and> w \<le> 4 \<and> w \<le> length s \<and> ValidString (take w s)"
proof -
  obtain c cs where s: "s = c # cs" using assms(2) by (cases s) auto
  from assms(1) obtain r w where d: "decode_rune (map of_char (take 4 s)) = (r, w)"
    and v: "\<not> (r = runeError \<and> w = 1)" unfolding s by (auto simp: ValidString_Cons)
  note st = chunk_stable [OF d v assms(2), of "[]"]
  then have "take w s = c # take (w - 1) cs" using s by (auto simp: take_Cons')
  moreover have "ValidString (drop w (take w s))" by (simp add: ValidString_def)
  ultimately have "ValidString (take w s)"
    using st v unfolding append_Nil2 by (auto simp: ValidString_Cons)
  with st show ?thesis by blast
qed
text \<open>ASCII strings: one rune per byte.\<close>

definition ascii :: "string \<Rightarrow> bool" where
  "ascii s \<longleftrightarrow> (\<forall>c\<in>set s. of_char c < (0x80 :: int))"

lemma rune_chunks_ascii: "ascii s \<Longrightarrow> rune_chunks s = map (\<lambda>c. (of_char c, [c])) s"
proof (induction s)
  case Nil
  show ?case by simp
next
  case (Cons c s)
  then have c: "of_char c < (0x80 :: int)" and IH: "rune_chunks s = map (\<lambda>c. (of_char c, [c])) s"
    by (simp_all add: ascii_def)
  have "decode_rune (map of_char (take 4 (c # s))) = (of_char c, 1)"
    using c by (simp add: decode_rune_def)
  with IH show ?case by (simp add: Let_def)
qed

lemma ValidString_ascii: "ascii s \<Longrightarrow> ValidString s"
  by (auto simp: ValidString_def rune_chunks_ascii runeError_def ascii_def list_all_iff dest: bspec)

lemma dropWhile_hd: "xs \<noteq> [] \<Longrightarrow> \<not> P (hd xs) \<Longrightarrow> dropWhile P xs = xs"
  by (cases xs) simp_all

lemma TrimSpace_ascii:
  assumes "ascii s" and "s \<noteq> []" and "\<not> IsSpace (of_char (hd s))" and "\<not> IsSpace (of_char (last s))"
  shows "TrimSpace s = s"
proof -
  define f where "f = (\<lambda>c :: char. (of_char c :: int, [c]))"
  have "dropWhile space_chunk (map f s) = map f s"
    by (rule dropWhile_hd) (use assms(2,3) in \<open>simp_all add: space_chunk_def hd_map f_def\<close>)
  moreover have "dropWhile space_chunk (rev (map f s)) = rev (map f s)"
    by (rule dropWhile_hd) (use assms(2,4) in \<open>simp_all add: space_chunk_def hd_rev last_map f_def\<close>)
  moreover have "concat (map snd (map f s)) = s"
    by (induction s) (simp_all add: f_def)
  ultimately show ?thesis
    using rune_chunks_ascii [OF assms(1)] by (simp add: TrimSpace_def flip: f_def del: map_map)
qed

section \<open>Slices\<close>

text \<open>
  A Go slice that the code compares with \<open>nil\<close>, or that \<^verbatim>\<open>reflect.DeepEqual\<close> tells from an empty
  one, is an optional list; ranging over it and taking its length see the list \<open>elems\<close>.
\<close>

type_synonym 'a slice = "'a list option"

definition elems :: "'a slice \<Rightarrow> 'a list" where
  "elems xs = (case xs of None \<Rightarrow> [] | Some ys \<Rightarrow> ys)"

definition len :: "'a list \<Rightarrow> int" where
  "len xs = int (length xs)"

lemma elems_simps [simp]: "elems None = []" "elems (Some xs) = xs"
  by (simp_all add: elems_def)

lemma elems_map_option [simp]: "elems (map_option (map f) xs) = map f (elems xs)"
  by (cases xs) simp_all

lemma len_simps [simp]:
  "len [] = 0" "len (x # xs) = len xs + 1" "len (xs @ ys) = len xs + len ys" "0 \<le> len xs"
  "len (map f xs) = len xs" "len (xs[i := x]) = len xs"
  by (simp_all add: len_def)

text \<open>A loop that stops at the first element with a property: its index.\<close>

fun indexOf :: "('a \<Rightarrow> bool) \<Rightarrow> 'a list \<Rightarrow> nat option" where
  "indexOf P [] = None"
| "indexOf P (x # xs) = (if P x then Some 0 else map_option Suc (indexOf P xs))"

lemma indexOf_None: "indexOf P xs = None \<longleftrightarrow> (\<forall>x\<in>set xs. \<not> P x)"
  by (induction xs) auto

lemma indexOf_Some:
  "indexOf P xs = Some i \<longleftrightarrow> i < length xs \<and> P (xs ! i) \<and> (\<forall>j<i. \<not> P (xs ! j))"
proof (induction xs arbitrary: i)
  case Nil
  show ?case by simp
next
  case (Cons x xs)
  show ?case by (cases i) (auto simp: Cons.IH nth_Cons less_Suc_eq_0_disj split: nat.split)
qed

section \<open>The clock\<close>

text \<open>
  A \<^verbatim>\<open>time.Time\<close> is an instant: nanoseconds since the Unix epoch as an \<open>int\<close>; the locations
  that \<open>UTC()\<close> changes do not enter any comparison. The zero value is the first of January
  of the year 1. A \<^verbatim>\<open>time.Duration\<close> is a 64-bit count of nanoseconds; \<open>Sub\<close> saturates,
  \<open>UnixNano\<close> wraps.
\<close>

type_synonym time = int
type_synonym duration = int

definition zeroTime :: time where
  "zeroTime = -62135596800000000000"

definition IsZero :: "time \<Rightarrow> bool" where
  "IsZero t \<longleftrightarrow> t = zeroTime"

definition maxInt64 :: int where
  "maxInt64 = 2 ^ 63 - 1"

definition minInt64 :: int where
  "minInt64 = - (2 ^ 63)"

definition time_Sub :: "time \<Rightarrow> time \<Rightarrow> duration" where
  "time_Sub t u = max minInt64 (min maxInt64 (t - u))"

definition wrap64 :: "int \<Rightarrow> int" where
  "wrap64 x = (x + 2 ^ 63) mod 2 ^ 64 - 2 ^ 63"

definition UnixNano :: "time \<Rightarrow> int" where
  "UnixNano t = wrap64 t"

abbreviation (input) second :: duration where
  "second \<equiv> 1000000000"

abbreviation (input) millisecond :: duration where
  "millisecond \<equiv> 1000000"

abbreviation (input) hour :: duration where
  "hour \<equiv> 3600000000000"

lemma wrap64_id: "minInt64 \<le> x \<Longrightarrow> x \<le> maxInt64 \<Longrightarrow> wrap64 x = x"
  by (simp add: wrap64_def minInt64_def maxInt64_def)

lemma wrap64_range: "minInt64 \<le> wrap64 x" "wrap64 x \<le> maxInt64"
  by (simp_all add: wrap64_def minInt64_def maxInt64_def)

lemma time_Sub_le_0_iff [simp]: "time_Sub t u \<le> 0 \<longleftrightarrow> t \<le> u"
  by (auto simp: time_Sub_def maxInt64_def minInt64_def)

text \<open>\<^verbatim>\<open>strconv.FormatInt\<close> in base ten.\<close>

fun decimal :: "nat \<Rightarrow> string" where
  "decimal n = (if n < 10 then [''0123456789'' ! n] else decimal (n div 10) @ [''0123456789'' ! (n mod 10)])"

declare decimal.simps [simp del]

definition FormatInt :: "int \<Rightarrow> string" where
  "FormatInt i = (if i < 0 then ''-'' @ decimal (nat (- i)) else decimal (nat i))"

lemma set_decimal: "set (decimal n) \<subseteq> set ''0123456789''"
proof (induction n rule: decimal.induct)
  case (1 n)
  have d: "set [''0123456789'' ! m] \<subseteq> set ''0123456789''" if "m < 10" for m
    using that nth_mem [of m "''0123456789''"] by (simp only: list.set insert_subset) simp
  show ?case
  proof (cases "n < 10")
    case True
    then have "decimal n = [''0123456789'' ! n]" by (subst decimal.simps) (rule if_P)
    then show ?thesis by (simp only: d [OF True])
  next
    case False
    then have e: "decimal n = decimal (n div 10) @ [''0123456789'' ! (n mod 10)]"
      by (subst decimal.simps) (rule if_not_P)
    have "n mod 10 < 10" by simp
    from 1 [OF False] d [OF this] show ?thesis unfolding e set_append by (rule Un_least)
  qed
qed

lemma decimal_not_Nil: "decimal n \<noteq> []"
  by (subst decimal.simps) simp

section \<open>Machine words\<close>

type_synonym u64 = "64 word"
type_synonym byte = "8 word"

definition maxUint64 :: u64 where
  "maxUint64 = - 1"

lemma unat_Suc_u64:
  assumes "w \<noteq> maxUint64"
  shows "unat (w + 1) = Suc (unat w)"
proof -
  have "1 + w \<noteq> 0"
    using assms by (simp add: maxUint64_def eq_neg_iff_add_eq_0 add.commute)
  then show ?thesis by (simp add: unatSuc add.commute)
qed

section \<open>Machines\<close>

text \<open>
  The runs of a step relation labelled by events, and the two contracts the components'
  machines have: an invariant that every step keeps, and a preorder that every step follows.
  The lemmas lift both from steps to runs.
\<close>

inductive run :: "('s \<Rightarrow> 'e \<Rightarrow> 's \<Rightarrow> bool) \<Rightarrow> 's \<Rightarrow> 'e list \<Rightarrow> 's \<Rightarrow> bool"
  for step where
  run_Nil [simp, intro]: "run step s [] s"
| run_Cons: "step s e t \<Longrightarrow> run step t es u \<Longrightarrow> run step s (e # es) u"

inductive_cases run_NilE [elim!]: "run step s [] t"
inductive_cases run_ConsE [elim!]: "run step s (e # es) t"

locale invariant_machine =
  fixes step :: "'s \<Rightarrow> 'e \<Rightarrow> 's \<Rightarrow> bool"
    and inv :: "'s \<Rightarrow> bool"
  assumes step_inv: "inv s \<Longrightarrow> step s e t \<Longrightarrow> inv t"
begin

lemma run_inv:
  assumes "run step s es t" and "inv s"
  shows "inv t"
  using assms by (induction rule: run.induct) (auto intro: step_inv)

end

locale ordered_machine = invariant_machine +
  fixes ord :: "'s \<Rightarrow> 's \<Rightarrow> bool"
  assumes ord_refl: "ord s s"
    and ord_trans: "ord s t \<Longrightarrow> ord t u \<Longrightarrow> ord s u"
    and step_ord: "inv s \<Longrightarrow> step s e t \<Longrightarrow> ord s t"
begin

lemma run_ord:
  assumes "run step s es t" and "inv s"
  shows "ord s t"
  using assms
proof (induction rule: run.induct)
  case (run_Nil s)
  show ?case by (rule ord_refl)
next
  case (run_Cons s e t es u)
  from run_Cons.prems run_Cons.hyps(1) have "ord s t" and "inv t"
    by (rule step_ord, rule step_inv)
  with run_Cons.IH show ?case by (blast intro: ord_trans)
qed

end

end
