(* ===== verification/Session.thy ===== *)
theory Session
  imports Prelude
begin

text \<open>
  The session life cycle, \<^verbatim>\<open>src/internal/domain/session.go\<close>: the immutable \<open>Session\<close> value,
  its persisted snapshot, the validation that restores a session from a snapshot, and the
  fifteen operations that make a new session from an old one. A pointer field is an
  \<open>option\<close>; the operations that read the clock take the time as an argument.
\<close>

section \<open>Data\<close>

type_synonym SessionID = string
type_synonym IntentID = string
type_synonym ComputerID = string

text \<open>
  The string enumerations of the source are datatypes whose last constructor stands for any
  string that is not one of the named constants.
\<close>

datatype SessionNameSource =
    SessionNameUnset \<comment> \<open>the empty string\<close>
  | SessionNameDirectory
  | SessionNameModel
  | SessionNameProvider
  | SessionNameOther string

datatype Provider = ProviderCodex | ProviderClaude | ProviderOther string

datatype SessionStatus =
    SessionStarting
  | SessionResuming
  | SessionReady
  | SessionRunning
  | SessionStopping
  | SessionClosingAfterWork
  | SessionAwaitingRecovery
  | SessionClosing
  | SessionArchived
  | SessionResumeFailed
  | SessionStatusOther string

type_synonym SessionLifetime = duration

definition SessionLifetimeNever :: SessionLifetime where
  "SessionLifetimeNever = 0"

definition SessionLifetime6Hours :: SessionLifetime where
  "SessionLifetime6Hours = 6 * hour"

definition SessionLifetime12Hours :: SessionLifetime where
  "SessionLifetime12Hours = 12 * hour"

definition SessionLifetime24Hours :: SessionLifetime where
  "SessionLifetime24Hours = 24 * hour"

definition SessionLifetime48Hours :: SessionLifetime where
  "SessionLifetime48Hours = 48 * hour"

definition MaxSessionNameRunes :: nat where
  "MaxSessionNameRunes = 10"

record ProviderBinding =
  b_Provider :: Provider
  b_SessionID :: string
  b_Generation :: u64

record Session =
  s_id :: SessionID
  s_intentID :: IntentID
  s_computerID :: ComputerID
  s_provider :: Provider
  s_workdir :: string
  s_name :: string
  s_nameSource :: SessionNameSource
  s_model :: string
  s_effort :: string
  s_status :: SessionStatus
  s_binding :: "ProviderBinding option"
  s_createdAt :: time
  s_lastResumedAt :: "time option"
  s_stateChangedAt :: time
  s_lifetime :: SessionLifetime
  s_deadlineAt :: "time option"
  s_recoveryTarget :: "SessionStatus option"

record SessionSnapshot =
  n_ID :: SessionID
  n_IntentID :: IntentID
  n_ComputerID :: ComputerID
  n_Provider :: Provider
  n_Workdir :: string
  n_Name :: string
  n_NameSource :: SessionNameSource
  n_Model :: string
  n_Effort :: string
  n_Status :: SessionStatus
  n_Binding :: "ProviderBinding option"
  n_CreatedAt :: time
  n_LastResumedAt :: "time option"
  n_StateChangedAt :: time
  n_Lifetime :: SessionLifetime
  n_DeadlineAt :: "time option"
  n_RecoveryTarget :: "SessionStatus option"

text \<open>
  Errors keep the source's messages: \<open>Errorf\<close> a fixed message, \<open>StatusError\<close> the message of
  \<open>errorsForStatus\<close>, \<open>CannotError\<close> the refusal of an operation in a status.
\<close>

datatype session_error =
    Errorf string
  | StatusError SessionStatus string
  | CannotError string SessionID SessionStatus

definition errorsForStatus :: "SessionStatus \<Rightarrow> string \<Rightarrow> session_error" where
  "errorsForStatus status message = StatusError status message"

section \<open>Validation\<close>

definition deadlineFrom :: "time \<Rightarrow> SessionLifetime \<Rightarrow> session_error + time option" where
  "deadlineFrom anchor lifetime =
     (if lifetime = SessionLifetimeNever then Inr None
      else if lifetime = SessionLifetime6Hours \<or> lifetime = SessionLifetime12Hours \<or>
              lifetime = SessionLifetime24Hours \<or> lifetime = SessionLifetime48Hours
      then Inr (Some (anchor + lifetime))
      else Inl (Errorf ''unsupported session lifetime''))"

definition ValidateSessionLifetime :: "SessionLifetime \<Rightarrow> session_error + unit" where
  "ValidateSessionLifetime lifetime = bindE (deadlineFrom 0 lifetime) (\<lambda>_. Inr ())"

definition validateLifecycleTime :: "string \<Rightarrow> time \<Rightarrow> session_error + time" where
  "validateLifecycleTime name value =
     (if IsZero value then Inl (Errorf (name @ '' is required'')) else Inr value)"

definition SessionDeadline ::
  "time \<Rightarrow> SessionLifetime \<Rightarrow> session_error + (time \<times> bool)" where
  "SessionDeadline anchor lifetime =
     bindE (validateLifecycleTime ''lifetime anchor'' anchor) (\<lambda>anchor.
     bindE (deadlineFrom anchor lifetime) (\<lambda>deadline.
       case deadline of None \<Rightarrow> Inr (zeroTime, False) | Some d \<Rightarrow> Inr (d, True)))"

definition isRecoveryTarget :: "SessionStatus \<Rightarrow> bool" where
  "isRecoveryTarget status \<longleftrightarrow>
     status \<in> {SessionStarting, SessionResuming, SessionReady, SessionRunning, SessionStopping,
               SessionClosingAfterWork, SessionClosing}"

definition equalTime :: "time option \<Rightarrow> time option \<Rightarrow> bool" where
  "equalTime left right \<longleftrightarrow>
     (case (left, right) of (Some l, Some r) \<Rightarrow> l = r | _ \<Rightarrow> left = None \<and> right = None)"

definition equalStatus :: "SessionStatus option \<Rightarrow> SessionStatus option \<Rightarrow> bool" where
  "equalStatus left right \<longleftrightarrow>
     (case (left, right) of (Some l, Some r) \<Rightarrow> l = r | _ \<Rightarrow> left = None \<and> right = None)"

definition validateBinding :: "Provider \<Rightarrow> ProviderBinding option \<Rightarrow> session_error + unit" where
  "validateBinding provider binding =
     (case binding of
        None \<Rightarrow> Inl (Errorf ''ready session requires a provider binding'')
      | Some b \<Rightarrow>
          bindE (failIf (b_Provider b \<noteq> provider)
                   (Errorf ''provider binding does not match session provider'')) (\<lambda>_.
          bindE (failIf (blank (b_SessionID b))
                   (Errorf ''provider session id is required'')) (\<lambda>_.
          failIf (b_Generation b = 0)
            (Errorf ''provider launch generation must be greater than zero''))))"

definition validateResumedBinding ::
  "Provider \<Rightarrow> ProviderBinding option \<Rightarrow> ProviderBinding \<Rightarrow> session_error + unit" where
  "validateResumedBinding provider prior next =
     bindE (validateBinding provider (Some next)) (\<lambda>_.
       case prior of
         None \<Rightarrow> Inl (Errorf ''prior provider binding is required for exact resume'')
       | Some p \<Rightarrow>
           bindE (failIf (b_SessionID next \<noteq> b_SessionID p)
                    (Errorf ''resumed provider session id does not match original'')) (\<lambda>_.
           failIf (b_Generation next \<le> b_Generation p)
             (Errorf ''resumed provider generation must be greater than prior generation'')))"

definition validateModelPreferences :: "string \<Rightarrow> string \<Rightarrow> session_error + unit" where
  "validateModelPreferences model effort =
     forE (\<lambda>value.
       bindE (failIf (length value > 128 \<or> \<not> ValidString value \<or> TrimSpace value \<noteq> value)
                (Errorf ''invalid model preference'')) (\<lambda>_.
       forE (\<lambda>r. failIf (IsControl r \<or> IsSpace r \<or> IsCf r)
                   (Errorf ''invalid model preference'')) (runes value)))
       [model, effort]"

definition ValidateSessionIntent ::
  "IntentID \<Rightarrow> ComputerID \<Rightarrow> Provider \<Rightarrow> string \<Rightarrow> session_error + unit" where
  "ValidateSessionIntent intentID computerID provider workdir =
     bindE (failIf (blank intentID) (Errorf ''intent id is required'')) (\<lambda>_.
     bindE (failIf (blank computerID) (Errorf ''computer id is required'')) (\<lambda>_.
     bindE (failIf (provider \<noteq> ProviderCodex \<and> provider \<noteq> ProviderClaude)
              (Errorf ''unsupported provider'')) (\<lambda>_.
     failIf (blank workdir) (Errorf ''workdir is required''))))"

definition validateLifecycleSnapshot :: "SessionSnapshot \<Rightarrow> session_error + unit" where
  "validateLifecycleSnapshot n =
     (if IsZero (n_CreatedAt n) \<and> IsZero (n_StateChangedAt n) then
        failIf (n_LastResumedAt n \<noteq> None \<or> n_DeadlineAt n \<noteq> None \<or>
                n_Lifetime n \<noteq> SessionLifetimeNever)
          (errorsForStatus (n_Status n)
             ''legacy timestamps cannot contain lifecycle timing fields'')
      else
        bindE (validateLifecycleTime ''created at'' (n_CreatedAt n)) (\<lambda>created.
        bindE (validateLifecycleTime ''state changed at'' (n_StateChangedAt n)) (\<lambda>changed.
        bindE (failIf (changed < created)
                 (errorsForStatus (n_Status n) ''state change precedes creation'')) (\<lambda>_.
        bindE (deadlineFrom created (n_Lifetime n)) (\<lambda>_.
        bindE (failIf (case n_LastResumedAt n of None \<Rightarrow> False | Some r \<Rightarrow> r < created)
                 (errorsForStatus (n_Status n) ''resume precedes creation'')) (\<lambda>_.
        bindE (failIf (case n_LastResumedAt n of None \<Rightarrow> False | Some r \<Rightarrow> changed < r)
                 (errorsForStatus (n_Status n) ''resume follows the latest state change'')) (\<lambda>_.
        bindE (deadlineFrom
                 (case n_LastResumedAt n of None \<Rightarrow> created | Some r \<Rightarrow> r)
                 (n_Lifetime n)) (\<lambda>wantDeadline.
        failIf (\<not> equalTime (n_DeadlineAt n) wantDeadline \<and>
                n_Status n \<noteq> SessionArchived \<and> n_Status n \<noteq> SessionResuming \<and>
                n_Status n \<noteq> SessionResumeFailed)
          (errorsForStatus (n_Status n)
             ''deadline does not match its creation or resume anchor'')))))))))"

section \<open>Restoring a session\<close>

text \<open>The checks of the name, which also default an empty name source to the directory.\<close>

definition restoreName :: "SessionSnapshot \<Rightarrow> session_error + SessionSnapshot" where
  "restoreName n =
     (if n_Name n \<noteq> [] then
        bindE (failIf (list_ex IsControl (runes (n_Name n)))
                 (errorsForStatus (n_Status n) ''session name contains control characters'')) (\<lambda>_.
        let words = Fields (n_Name n) in
        bindE (failIf (length words < 1 \<or> length words > 2 \<or> Join words \<noteq> n_Name n \<or>
                       RuneCountInString (n_Name n) > MaxSessionNameRunes)
                 (errorsForStatus (n_Status n) ''session name is invalid'')) (\<lambda>_.
        let n = (if n_NameSource n = SessionNameUnset
                 then n\<lparr>n_NameSource := SessionNameDirectory\<rparr> else n) in
        bindE (failIf (n_NameSource n \<noteq> SessionNameDirectory \<and>
                       n_NameSource n \<noteq> SessionNameModel \<and>
                       n_NameSource n \<noteq> SessionNameProvider)
                 (errorsForStatus (n_Status n) ''session name source is invalid'')) (\<lambda>_.
        Inr n)))
      else
        bindE (failIf (n_NameSource n \<noteq> SessionNameUnset)
                 (errorsForStatus (n_Status n) ''unnamed session has a name source'')) (\<lambda>_.
        Inr n))"

text \<open>The recovery target that snapshots written before the field existed are given.\<close>

definition defaultRecoveryTarget :: "SessionSnapshot \<Rightarrow> SessionSnapshot" where
  "defaultRecoveryTarget n =
     (if n_Status n = SessionAwaitingRecovery \<and> n_RecoveryTarget n = None then
        n\<lparr>n_RecoveryTarget :=
            Some (if n_Binding n \<noteq> None then SessionReady else SessionStarting)\<rparr>
      else n)"

text \<open>The switch on the status: which statuses need a binding or a recovery target.\<close>

definition restoreStatus :: "SessionSnapshot \<Rightarrow> session_error + unit" where
  "restoreStatus n =
     (case n_Status n of
        SessionStarting \<Rightarrow>
          failIf (n_Binding n \<noteq> None) (StatusError (n_Status n) ''cannot have a provider binding'')
      | SessionAwaitingRecovery \<Rightarrow>
          bindE (if n_Binding n \<noteq> None then validateBinding (n_Provider n) (n_Binding n)
                 else Inr ()) (\<lambda>_.
          (case n_RecoveryTarget n of
             None \<Rightarrow> Inl (errorsForStatus (n_Status n) ''requires a recovery target'')
           | Some target \<Rightarrow>
               bindE (failIf (\<not> isRecoveryTarget target)
                        (errorsForStatus (n_Status n) ''has an invalid recovery target'')) (\<lambda>_.
               bindE (failIf (target = SessionStarting \<and> n_Binding n \<noteq> None)
                        (errorsForStatus (n_Status n)
                           ''cannot retain a binding for initial start recovery'')) (\<lambda>_.
               failIf (target \<noteq> SessionStarting \<and> n_Binding n = None)
                 (errorsForStatus (n_Status n) ''requires the prior provider binding'')))))
      | SessionStatusOther s \<Rightarrow> Inl (Errorf ''unsupported session status'')
      | _ \<Rightarrow> validateBinding (n_Provider n) (n_Binding n))"

definition sessionOf :: "SessionSnapshot \<Rightarrow> Session" where
  "sessionOf n =
     \<lparr>s_id = n_ID n, s_intentID = n_IntentID n, s_computerID = n_ComputerID n,
      s_provider = n_Provider n, s_workdir = n_Workdir n, s_name = n_Name n,
      s_nameSource = n_NameSource n, s_model = n_Model n, s_effort = n_Effort n,
      s_status = n_Status n, s_binding = n_Binding n, s_createdAt = n_CreatedAt n,
      s_lastResumedAt = n_LastResumedAt n, s_stateChangedAt = n_StateChangedAt n,
      s_lifetime = n_Lifetime n, s_deadlineAt = n_DeadlineAt n,
      s_recoveryTarget = n_RecoveryTarget n\<rparr>"

definition RestoreSession :: "SessionSnapshot \<Rightarrow> session_error + Session" where
  "RestoreSession n =
     bindE (validateModelPreferences (n_Model n) (n_Effort n)) (\<lambda>_.
     bindE (failIf (blank (n_ID n)) (Errorf ''session id is required'')) (\<lambda>_.
     bindE (ValidateSessionIntent (n_IntentID n) (n_ComputerID n) (n_Provider n) (n_Workdir n)) (\<lambda>_.
     bindE (restoreName n) (\<lambda>n.
     let n = defaultRecoveryTarget n in
     bindE (validateLifecycleSnapshot n) (\<lambda>_.
     bindE (restoreStatus n) (\<lambda>_.
     bindE (failIf (n_Status n \<noteq> SessionAwaitingRecovery \<and> n_RecoveryTarget n \<noteq> None)
              (errorsForStatus (n_Status n) ''cannot have a recovery target'')) (\<lambda>_.
     Inr (sessionOf n))))))))"

definition Snapshot :: "Session \<Rightarrow> SessionSnapshot" where
  "Snapshot s =
     \<lparr>n_ID = s_id s, n_IntentID = s_intentID s, n_ComputerID = s_computerID s,
      n_Provider = s_provider s, n_Workdir = s_workdir s, n_Name = s_name s,
      n_NameSource = s_nameSource s, n_Model = s_model s, n_Effort = s_effort s,
      n_Status = s_status s, n_Binding = s_binding s, n_CreatedAt = s_createdAt s,
      n_LastResumedAt = s_lastResumedAt s, n_StateChangedAt = s_stateChangedAt s,
      n_Lifetime = s_lifetime s, n_DeadlineAt = s_deadlineAt s,
      n_RecoveryTarget = s_recoveryTarget s\<rparr>"

text \<open>\<open>Equal\<close> compares every field but the name source.\<close>

definition Equal :: "Session \<Rightarrow> Session \<Rightarrow> bool" where
  "Equal s other \<longleftrightarrow>
     s_id s = s_id other \<and>
     s_intentID s = s_intentID other \<and>
     s_computerID s = s_computerID other \<and>
     s_provider s = s_provider other \<and>
     s_workdir s = s_workdir other \<and>
     s_name s = s_name other \<and>
     s_model s = s_model other \<and>
     s_effort s = s_effort other \<and>
     s_status s = s_status other \<and>
     s_createdAt s = s_createdAt other \<and>
     equalTime (s_lastResumedAt s) (s_lastResumedAt other) \<and>
     s_stateChangedAt s = s_stateChangedAt other \<and>
     s_lifetime s = s_lifetime other \<and>
     equalTime (s_deadlineAt s) (s_deadlineAt other) \<and>
     equalStatus (s_recoveryTarget s) (s_recoveryTarget other) \<and>
     s_binding s = s_binding other"

section \<open>Operations\<close>

definition NewStartingSessionAt ::
  "SessionID \<Rightarrow> IntentID \<Rightarrow> ComputerID \<Rightarrow> Provider \<Rightarrow> string \<Rightarrow> time \<Rightarrow> SessionLifetime
     \<Rightarrow> session_error + Session" where
  "NewStartingSessionAt ident intentID computerID provider workdir createdAt lifetime =
     bindE (ValidateSessionIntent intentID computerID provider workdir) (\<lambda>_.
     bindE (validateLifecycleTime ''created at'' createdAt) (\<lambda>createdAt.
     bindE (deadlineFrom createdAt lifetime) (\<lambda>deadline.
     RestoreSession
       \<lparr>n_ID = ident, n_IntentID = intentID, n_ComputerID = computerID, n_Provider = provider,
        n_Workdir = workdir, n_Name = [], n_NameSource = SessionNameUnset, n_Model = [],
        n_Effort = [], n_Status = SessionStarting, n_Binding = None, n_CreatedAt = createdAt,
        n_LastResumedAt = None, n_StateChangedAt = createdAt, n_Lifetime = lifetime,
        n_DeadlineAt = deadline, n_RecoveryTarget = None\<rparr>)))"

definition NewStartingSession ::
  "SessionID \<Rightarrow> IntentID \<Rightarrow> ComputerID \<Rightarrow> Provider \<Rightarrow> string \<Rightarrow> time \<Rightarrow> session_error + Session" where
  "NewStartingSession ident intentID computerID provider workdir now =
     NewStartingSessionAt ident intentID computerID provider workdir now SessionLifetimeNever"

definition transition :: "Session \<Rightarrow> SessionStatus \<Rightarrow> time \<Rightarrow> session_error + Session" where
  "transition s status at =
     bindE (validateLifecycleTime ''state changed at'' at) (\<lambda>at.
     bindE (failIf (\<not> IsZero (s_stateChangedAt s) \<and> at < s_stateChangedAt s)
              (Errorf ''state change time precedes prior change'')) (\<lambda>_.
     Inr (s\<lparr>s_status := status, s_stateChangedAt := at, s_recoveryTarget := None\<rparr>)))"

definition cannot :: "string \<Rightarrow> Session \<Rightarrow> session_error" where
  "cannot what s = CannotError what (s_id s) (s_status s)"

definition ReadyAt :: "Session \<Rightarrow> ProviderBinding \<Rightarrow> time \<Rightarrow> session_error + Session" where
  "ReadyAt s binding at =
     bindE (failIf (s_status s \<noteq> SessionStarting) (cannot ''mark ready'' s)) (\<lambda>_.
     bindE (validateBinding (s_provider s) (Some binding)) (\<lambda>_.
     bindE (transition s SessionReady at) (\<lambda>next.
     Inr (next\<lparr>s_binding := Some binding\<rparr>))))"

definition AwaitRecoveryAt :: "Session \<Rightarrow> time \<Rightarrow> session_error + Session" where
  "AwaitRecoveryAt s at =
     bindE (failIf (s_status s \<notin> {SessionStarting, SessionResuming, SessionReady, SessionRunning,
                                  SessionStopping, SessionClosingAfterWork, SessionClosing})
              (cannot ''mark awaiting recovery'' s)) (\<lambda>_.
     let previous = s_status s in
     bindE (transition s SessionAwaitingRecovery at) (\<lambda>next.
     Inr (next\<lparr>s_status := SessionAwaitingRecovery, s_recoveryTarget := Some previous\<rparr>)))"

definition Ready :: "Session \<Rightarrow> ProviderBinding \<Rightarrow> time \<Rightarrow> session_error + Session" where
  "Ready s binding now = ReadyAt s binding now"

definition AwaitRecovery :: "Session \<Rightarrow> time \<Rightarrow> session_error + Session" where
  "AwaitRecovery s now = AwaitRecoveryAt s now"

definition StartWork :: "Session \<Rightarrow> time \<Rightarrow> session_error + Session" where
  "StartWork s at =
     bindE (failIf (s_status s \<noteq> SessionReady) (cannot ''start work'' s)) (\<lambda>_.
     transition s SessionRunning at)"

definition BeginStop :: "Session \<Rightarrow> time \<Rightarrow> session_error + Session" where
  "BeginStop s at =
     bindE (failIf (s_status s \<noteq> SessionRunning) (cannot ''stop work'' s)) (\<lambda>_.
     transition s SessionStopping at)"

definition FinishWork :: "Session \<Rightarrow> time \<Rightarrow> session_error + Session" where
  "FinishWork s at =
     bindE (failIf (s_status s \<noteq> SessionRunning \<and> s_status s \<noteq> SessionStopping)
              (cannot ''finish work'' s)) (\<lambda>_.
     transition s SessionReady at)"

definition CloseAfterWork :: "Session \<Rightarrow> time \<Rightarrow> session_error + Session" where
  "CloseAfterWork s at =
     bindE (failIf (s_status s \<noteq> SessionRunning \<and> s_status s \<noteq> SessionStopping)
              (cannot ''schedule close'' s)) (\<lambda>_.
     transition s SessionClosingAfterWork at)"

definition BeginClose :: "Session \<Rightarrow> time \<Rightarrow> session_error + Session" where
  "BeginClose s at =
     bindE (failIf (s_status s \<noteq> SessionReady \<and> s_status s \<noteq> SessionClosingAfterWork \<and>
                    s_status s \<noteq> SessionAwaitingRecovery) (cannot ''close'' s)) (\<lambda>_.
     bindE (transition s SessionClosing at) (\<lambda>next.
     Inr (next\<lparr>s_recoveryTarget := None\<rparr>)))"

definition Archive :: "Session \<Rightarrow> time \<Rightarrow> session_error + Session" where
  "Archive s at =
     bindE (failIf (s_status s \<noteq> SessionClosing) (cannot ''archive'' s)) (\<lambda>_.
     bindE (transition s SessionArchived at) (\<lambda>next.
     Inr (next\<lparr>s_deadlineAt := None\<rparr>)))"

definition BeginResume :: "Session \<Rightarrow> time \<Rightarrow> session_error + Session" where
  "BeginResume s at =
     bindE (failIf (s_status s \<noteq> SessionArchived) (cannot ''resume'' s)) (\<lambda>_.
     transition s SessionResuming at)"

definition ResumeReady ::
  "Session \<Rightarrow> ProviderBinding \<Rightarrow> time \<Rightarrow> SessionLifetime \<Rightarrow> session_error + Session" where
  "ResumeReady s binding at lifetime =
     bindE (failIf (s_status s \<noteq> SessionResuming) (cannot ''finish resume'' s)) (\<lambda>_.
     bindE (validateResumedBinding (s_provider s) (s_binding s) binding) (\<lambda>_.
     bindE (validateLifecycleTime ''resumed at'' at) (\<lambda>at.
     bindE (deadlineFrom at lifetime) (\<lambda>deadline.
     bindE (transition s SessionReady at) (\<lambda>next.
     Inr (next\<lparr>s_binding := Some binding, s_lastResumedAt := Some at, s_lifetime := lifetime,
               s_deadlineAt := deadline\<rparr>))))))"

definition FailResume :: "Session \<Rightarrow> time \<Rightarrow> session_error + Session" where
  "FailResume s at =
     bindE (failIf (s_status s \<noteq> SessionResuming) (cannot ''fail resume'' s)) (\<lambda>_.
     transition s SessionResumeFailed at)"

definition ReturnToArchive :: "Session \<Rightarrow> time \<Rightarrow> session_error + Session" where
  "ReturnToArchive s at =
     bindE (failIf (s_status s \<noteq> SessionResumeFailed) (cannot ''return to archive'' s)) (\<lambda>_.
     transition s SessionArchived at)"

text \<open>A session that was starting, resuming or working is ready once it is recovered.\<close>

definition recoveredStatus :: "SessionStatus \<Rightarrow> SessionStatus" where
  "recoveredStatus target =
     (if target = SessionStarting \<or> target = SessionResuming \<or>
         target = SessionRunning \<or> target = SessionStopping
      then SessionReady else target)"

definition Recovered :: "Session \<Rightarrow> ProviderBinding \<Rightarrow> time \<Rightarrow> session_error + Session" where
  "Recovered s binding at =
     (case s_recoveryTarget s of
        None \<Rightarrow> Inl (cannot ''recover'' s)
      | Some recoveryTarget \<Rightarrow>
          bindE (failIf (s_status s \<noteq> SessionAwaitingRecovery) (cannot ''recover'' s)) (\<lambda>_.
          bindE (if s_binding s = None then
                   bindE (failIf (recoveryTarget \<noteq> SessionStarting)
                            (errorsForStatus (s_status s)
                               ''binding-less recovery is only valid for a new session'')) (\<lambda>_.
                   validateBinding (s_provider s) (Some binding))
                 else validateResumedBinding (s_provider s) (s_binding s) binding) (\<lambda>_.
          bindE (transition s (recoveredStatus recoveryTarget) at) (\<lambda>next.
          let next = next\<lparr>s_binding := Some binding, s_recoveryTarget := None\<rparr> in
          if recoveryTarget = SessionResuming then
            let resumedAt = s_stateChangedAt next in
            bindE (deadlineFrom resumedAt (s_lifetime next)) (\<lambda>deadline.
            Inr (next\<lparr>s_lastResumedAt := Some resumedAt, s_deadlineAt := deadline\<rparr>))
          else Inr next))))"

definition AcceptsDurableInput :: "Session \<Rightarrow> bool" where
  "AcceptsDurableInput s \<longleftrightarrow>
     (if s_status s = SessionStarting \<or> s_status s = SessionResuming then True
      else if s_status s \<noteq> SessionAwaitingRecovery \<or> s_recoveryTarget s = None then False
      else s_recoveryTarget s = Some SessionStarting \<or> s_recoveryTarget s = Some SessionResuming)"

definition Rename :: "Session \<Rightarrow> string \<Rightarrow> SessionNameSource \<Rightarrow> session_error + Session" where
  "Rename s name source =
     RestoreSession ((Snapshot s)\<lparr>n_Name := name, n_NameSource := source\<rparr>)"

definition WithModelPreferences :: "Session \<Rightarrow> string \<Rightarrow> string \<Rightarrow> session_error + Session" where
  "WithModelPreferences s model effort =
     bindE (failIf (s_status s \<noteq> SessionReady) (cannot ''change model preferences'' s)) (\<lambda>_.
     RestoreSession ((Snapshot s)\<lparr>n_Model := model, n_Effort := effort\<rparr>))"

definition Expired :: "Session \<Rightarrow> time \<Rightarrow> bool" where
  "Expired s now \<longleftrightarrow> (case s_deadlineAt s of None \<Rightarrow> False | Some d \<Rightarrow> \<not> now < d)"

section \<open>The life cycle as a machine\<close>

datatype session_event =
    EvReady ProviderBinding time
  | EvAwaitRecovery time
  | EvStartWork time
  | EvBeginStop time
  | EvFinishWork time
  | EvCloseAfterWork time
  | EvBeginClose time
  | EvArchive time
  | EvBeginResume time
  | EvResumeReady ProviderBinding time SessionLifetime
  | EvFailResume time
  | EvReturnToArchive time
  | EvRecovered ProviderBinding time
  | EvRename string SessionNameSource
  | EvModelPreferences string string

fun session_apply :: "Session \<Rightarrow> session_event \<Rightarrow> session_error + Session" where
  "session_apply s (EvReady b t) = ReadyAt s b t"
| "session_apply s (EvAwaitRecovery t) = AwaitRecoveryAt s t"
| "session_apply s (EvStartWork t) = StartWork s t"
| "session_apply s (EvBeginStop t) = BeginStop s t"
| "session_apply s (EvFinishWork t) = FinishWork s t"
| "session_apply s (EvCloseAfterWork t) = CloseAfterWork s t"
| "session_apply s (EvBeginClose t) = BeginClose s t"
| "session_apply s (EvArchive t) = Archive s t"
| "session_apply s (EvBeginResume t) = BeginResume s t"
| "session_apply s (EvResumeReady b t l) = ResumeReady s b t l"
| "session_apply s (EvFailResume t) = FailResume s t"
| "session_apply s (EvReturnToArchive t) = ReturnToArchive s t"
| "session_apply s (EvRecovered b t) = Recovered s b t"
| "session_apply s (EvRename n src) = Rename s n src"
| "session_apply s (EvModelPreferences m e) = WithModelPreferences s m e"

definition session_step :: "Session \<Rightarrow> session_event \<Rightarrow> Session \<Rightarrow> bool" where
  "session_step s e t \<longleftrightarrow> session_apply s e = Inr t"

text \<open>
  A session can be persisted when its snapshot restores to the session itself: this is what
  the store checks (\<^verbatim>\<open>validateSessionValue\<close>) before it writes.
\<close>

definition restorable :: "Session \<Rightarrow> bool" where
  "restorable s \<longleftrightarrow> RestoreSession (Snapshot s) = Inr s"

definition timed :: "Session \<Rightarrow> bool" where
  "timed s \<longleftrightarrow> \<not> IsZero (s_createdAt s)"

text \<open>The deadline that the creation or the last resume gives.\<close>

definition anchor :: "Session \<Rightarrow> time" where
  "anchor s = (case s_lastResumedAt s of None \<Rightarrow> s_createdAt s | Some r \<Rightarrow> r)"

definition anchored :: "Session \<Rightarrow> bool" where
  "anchored s \<longleftrightarrow> deadlineFrom (anchor s) (s_lifetime s) = Inr (s_deadlineAt s)"

section \<open>Lemmas\<close>

subsection \<open>Validation\<close>

lemma equalTime_iff [simp]: "equalTime l r \<longleftrightarrow> l = r"
  by (auto simp: equalTime_def split: option.splits)

lemma equalStatus_iff [simp]: "equalStatus l r \<longleftrightarrow> l = r"
  by (auto simp: equalStatus_def split: option.splits)

lemma Equal_refl [simp]: "Equal s s"
  by (simp add: Equal_def)

lemma Equal_iff: "Equal s t \<longleftrightarrow> t = s\<lparr>s_nameSource := s_nameSource t\<rparr>"
  by (cases s; cases t) (auto simp: Equal_def)

lemma validateLifecycleTime_Inr [result_simps]:
  "validateLifecycleTime name t = Inr u \<longleftrightarrow> \<not> IsZero t \<and> u = t"
  by (auto simp: validateLifecycleTime_def)

definition validBinding :: "Provider \<Rightarrow> ProviderBinding \<Rightarrow> bool" where
  "validBinding p b \<longleftrightarrow> b_Provider b = p \<and> \<not> blank (b_SessionID b) \<and> b_Generation b \<noteq> 0"

lemma validateBinding_Inr [result_simps]:
  "validateBinding p ob = Inr u \<longleftrightarrow> (\<exists>b. ob = Some b \<and> validBinding p b)"
  by (cases ob) (auto simp: validateBinding_def validBinding_def result_simps)

lemma validateResumedBinding_Inr [result_simps]:
  "validateResumedBinding p prior b = Inr u \<longleftrightarrow>
     validBinding p b \<and>
     (\<exists>q. prior = Some q \<and> b_SessionID b = b_SessionID q \<and> b_Generation q < b_Generation b)"
  by (cases prior) (auto simp: validateResumedBinding_def result_simps not_le)

lemma deadlineFrom_shift:
  "deadlineFrom a l = Inr d \<Longrightarrow> \<exists>d'. deadlineFrom b l = Inr d'"
  by (auto simp: deadlineFrom_def split: if_splits)

lemma deadlineFrom_Inr [result_simps]:
  "deadlineFrom a l = Inr d \<longleftrightarrow>
     l \<in> {0, 6 * hour, 12 * hour, 24 * hour, 48 * hour} \<and>
     d = (if l = 0 then None else Some (a + l))"
  by (auto simp: deadlineFrom_def SessionLifetimeNever_def SessionLifetime6Hours_def
      SessionLifetime12Hours_def SessionLifetime24Hours_def SessionLifetime48Hours_def
      split: if_splits)

lemma transition_Inr [result_simps]:
  "transition s st at = Inr t \<longleftrightarrow>
     \<not> IsZero at \<and> (IsZero (s_stateChangedAt s) \<or> s_stateChangedAt s \<le> at) \<and>
     t = s\<lparr>s_status := st, s_stateChangedAt := at, s_recoveryTarget := None\<rparr>"
  by (auto simp: transition_def result_simps)

subsection \<open>What restoring accepts\<close>

text \<open>
  A session is restorable exactly when its immutable part, its times and its status are
  well formed, each stated on the session itself.
\<close>

definition validName :: "string \<Rightarrow> SessionNameSource \<Rightarrow> bool" where
  "validName name source \<longleftrightarrow>
     (if name = [] then source = SessionNameUnset
      else \<not> list_ex IsControl (runes name) \<and> Fields name \<noteq> [] \<and> length (Fields name) \<le> 2 \<and>
           Join (Fields name) = name \<and> RuneCountInString name \<le> MaxSessionNameRunes \<and>
           source \<in> {SessionNameDirectory, SessionNameModel, SessionNameProvider})"

definition wf_static :: "Session \<Rightarrow> bool" where
  "wf_static s \<longleftrightarrow>
     validateModelPreferences (s_model s) (s_effort s) = Inr () \<and> \<not> blank (s_id s) \<and>
     ValidateSessionIntent (s_intentID s) (s_computerID s) (s_provider s) (s_workdir s) = Inr () \<and>
     validName (s_name s) (s_nameSource s)"

definition wf_times :: "Session \<Rightarrow> bool" where
  "wf_times s \<longleftrightarrow>
     (if IsZero (s_createdAt s) \<and> IsZero (s_stateChangedAt s) then
        s_lastResumedAt s = None \<and> s_deadlineAt s = None \<and> s_lifetime s = SessionLifetimeNever
      else
        \<not> IsZero (s_createdAt s) \<and> \<not> IsZero (s_stateChangedAt s) \<and>
        s_createdAt s \<le> s_stateChangedAt s \<and>
        s_lifetime s \<in> {0, 6 * hour, 12 * hour, 24 * hour, 48 * hour} \<and>
        s_createdAt s \<le> anchor s \<and> anchor s \<le> s_stateChangedAt s \<and>
        (anchored s \<or> s_status s \<in> {SessionArchived, SessionResuming, SessionResumeFailed}))"

definition wf_status :: "Session \<Rightarrow> bool" where
  "wf_status s \<longleftrightarrow>
     (case s_status s of
        SessionStarting \<Rightarrow> s_binding s = None
      | SessionAwaitingRecovery \<Rightarrow>
          (\<exists>target. s_recoveryTarget s = Some target \<and> isRecoveryTarget target \<and>
             (target = SessionStarting \<longleftrightarrow> s_binding s = None)) \<and>
          (\<forall>b. s_binding s = Some b \<longrightarrow> validBinding (s_provider s) b)
      | SessionStatusOther _ \<Rightarrow> False
      | _ \<Rightarrow> (\<exists>b. s_binding s = Some b \<and> validBinding (s_provider s) b)) \<and>
     (s_status s \<noteq> SessionAwaitingRecovery \<longrightarrow> s_recoveryTarget s = None)"

lemma sessionOf_Snapshot [simp]: "sessionOf (Snapshot s) = s"
  by (cases s) (simp add: sessionOf_def Snapshot_def)

lemma Snapshot_sessionOf [simp]: "Snapshot (sessionOf n) = n"
  by (cases n) (simp add: sessionOf_def Snapshot_def)

lemma restoreName_Inr [result_simps]:
  "restoreName n = Inr m \<longleftrightarrow>
     m = (if n_Name n \<noteq> [] \<and> n_NameSource n = SessionNameUnset
          then n\<lparr>n_NameSource := SessionNameDirectory\<rparr> else n) \<and>
     validName (n_Name m) (n_NameSource m)"
  by (auto simp: restoreName_def validName_def result_simps Let_def not_less)

lemma lifecycle_snapshot_iff:
  "validateLifecycleSnapshot n = Inr u \<longleftrightarrow> wf_times (sessionOf n)"
  by (auto simp: validateLifecycleSnapshot_def wf_times_def sessionOf_def anchored_def anchor_def
      result_simps not_less SessionLifetimeNever_def split: option.splits)

lemma restoreStatus_iff:
  "wf_status (sessionOf n) \<longleftrightarrow>
     restoreStatus n = Inr () \<and>
     (n_Status n \<noteq> SessionAwaitingRecovery \<longrightarrow> n_RecoveryTarget n = None)"
  by (cases "n_Status n")
    (auto simp: restoreStatus_def wf_status_def sessionOf_def result_simps split: option.splits)

lemma RestoreSession_Inr:
  "RestoreSession n = Inr s \<longleftrightarrow>
     (\<exists>m. restoreName n = Inr m \<and> s = sessionOf (defaultRecoveryTarget m) \<and>
          wf_static s \<and> wf_times s \<and> wf_status s)"
proof -
  have static: "wf_static (sessionOf (defaultRecoveryTarget m)) \<longleftrightarrow>
      validateModelPreferences (n_Model n) (n_Effort n) = Inr () \<and> \<not> blank (n_ID n) \<and>
      ValidateSessionIntent (n_IntentID n) (n_ComputerID n) (n_Provider n) (n_Workdir n) = Inr ()"
    if "restoreName n = Inr m" for m
    using that by (auto simp: wf_static_def sessionOf_def defaultRecoveryTarget_def restoreName_Inr)
  show ?thesis
    unfolding RestoreSession_def
    by (auto simp: bindE_Inr failIf_Inr Let_def static lifecycle_snapshot_iff restoreStatus_iff)
qed

theorem RestoreSession_wf:
  "RestoreSession n = Inr s \<Longrightarrow> wf_static s \<and> wf_times s \<and> wf_status s"
  by (auto simp: RestoreSession_Inr)

lemma restorable_iff: "restorable s \<longleftrightarrow> wf_static s \<and> wf_times s \<and> wf_status s"
proof
  assume "restorable s"
  then show "wf_static s \<and> wf_times s \<and> wf_status s"
    unfolding restorable_def by (rule RestoreSession_wf)
next
  assume wf: "wf_static s \<and> wf_times s \<and> wf_status s"
  then have "restoreName (Snapshot s) = Inr (Snapshot s)"
    by (auto simp: restoreName_Inr Snapshot_def wf_static_def validName_def split: if_splits)
  moreover have "defaultRecoveryTarget (Snapshot s) = Snapshot s"
    using wf by (auto simp: defaultRecoveryTarget_def Snapshot_def wf_status_def)
  ultimately show "restorable s"
    using wf by (simp add: restorable_def RestoreSession_Inr)
qed

subsection \<open>One step\<close>

lemmas session_op_defs = ReadyAt_def AwaitRecoveryAt_def StartWork_def BeginStop_def FinishWork_def
  CloseAfterWork_def BeginClose_def Archive_def BeginResume_def ResumeReady_def FailResume_def
  ReturnToArchive_def

definition identity :: "Session \<Rightarrow> SessionID \<times> IntentID \<times> ComputerID \<times> Provider \<times> string" where
  "identity s = (s_id s, s_intentID s, s_computerID s, s_provider s, s_workdir s)"

text \<open>What every reachable session satisfies, whether or not it can be persisted.\<close>

definition lifecycle_inv :: "Session \<Rightarrow> bool" where
  "lifecycle_inv s \<longleftrightarrow>
     (s_recoveryTarget s \<noteq> None \<longleftrightarrow> s_status s = SessionAwaitingRecovery) \<and>
     (\<forall>target. s_recoveryTarget s = Some target \<longrightarrow> isRecoveryTarget target) \<and>
     (s_status s = SessionStarting \<or> s_recoveryTarget s = Some SessionStarting
        \<longrightarrow> s_binding s = None) \<and>
     (\<forall>b. s_binding s = Some b \<longrightarrow> validBinding (s_provider s) b) \<and>
     (s_status s \<in> {SessionReady, SessionRunning, SessionStopping, SessionClosingAfterWork}
        \<longrightarrow> s_binding s \<noteq> None) \<and>
     \<not> IsZero (s_createdAt s) \<and> \<not> IsZero (s_stateChangedAt s) \<and>
     s_createdAt s \<le> s_stateChangedAt s"

text \<open>
  The order a session moves in: its identity and creation time never change, its state change
  time never goes back, and once bound it stays bound to one provider session, at process
  generations that never decrease.
\<close>

definition session_le :: "Session \<Rightarrow> Session \<Rightarrow> bool" where
  "session_le s t \<longleftrightarrow>
     identity t = identity s \<and> s_createdAt t = s_createdAt s \<and>
     s_stateChangedAt s \<le> s_stateChangedAt t \<and>
     (\<forall>b. s_binding s = Some b \<longrightarrow>
        (\<exists>c. s_binding t = Some c \<and> b_SessionID c = b_SessionID b \<and>
             b_Generation b \<le> b_Generation c))"

lemma session_le_refl: "session_le s s"
  by (simp add: session_le_def)

lemma session_le_trans: "session_le s t \<Longrightarrow> session_le t u \<Longrightarrow> session_le s u"
  by (fastforce simp: session_le_def intro: order_trans)

lemma RestoreSession_fields:
  assumes "RestoreSession n = Inr t"
  shows "t = (sessionOf n)\<lparr>s_nameSource := s_nameSource t, s_recoveryTarget := s_recoveryTarget t\<rparr>"
    and "n_Status n \<noteq> SessionAwaitingRecovery \<or> n_RecoveryTarget n \<noteq> None \<Longrightarrow>
         s_recoveryTarget t = n_RecoveryTarget n"
  using assms
  by (auto simp: RestoreSession_Inr restoreName_Inr defaultRecoveryTarget_def sessionOf_def
      split: if_splits)

text \<open>Renaming and the model preferences touch only the name and the preferences.\<close>

lemma Rename_fields:
  assumes "Rename s name source = Inr t" and "lifecycle_inv s"
  shows "t = s\<lparr>s_name := name, s_nameSource := s_nameSource t\<rparr>"
proof -
  have "s_recoveryTarget t = s_recoveryTarget s"
    using RestoreSession_fields(2) [OF assms(1) [unfolded Rename_def]] assms(2)
    by (auto simp: Snapshot_def lifecycle_inv_def)
  with RestoreSession_fields(1) [OF assms(1) [unfolded Rename_def]] show ?thesis
    by (cases s; cases t) (simp add: sessionOf_def Snapshot_def)
qed

lemma WithModelPreferences_fields:
  assumes "WithModelPreferences s m e = Inr t"
  shows "t = s\<lparr>s_model := m, s_effort := e, s_nameSource := s_nameSource t,
               s_recoveryTarget := None\<rparr>"
    and "s_status s = SessionReady"
proof -
  from assms have st: "s_status s = SessionReady"
    and r: "RestoreSession ((Snapshot s)\<lparr>n_Model := m, n_Effort := e\<rparr>) = Inr t"
    by (auto simp: WithModelPreferences_def result_simps)
  from RestoreSession_wf [OF r] RestoreSession_fields(1) [OF r] st
  have "s_recoveryTarget t = None"
    by (cases s; cases t) (auto simp: wf_status_def sessionOf_def Snapshot_def)
  with RestoreSession_fields(1) [OF r]
  show "t = s\<lparr>s_model := m, s_effort := e, s_nameSource := s_nameSource t,
               s_recoveryTarget := None\<rparr>"
    by (cases s; cases t) (simp add: sessionOf_def Snapshot_def)
  show "s_status s = SessionReady" by (fact st)
qed

lemma Recovered_Inr:
  assumes "Recovered s b at = Inr t"
  obtains target d where "s_recoveryTarget s = Some target" "s_status s = SessionAwaitingRecovery"
    "validBinding (s_provider s) b" "\<not> IsZero at"
    "IsZero (s_stateChangedAt s) \<or> s_stateChangedAt s \<le> at"
    "case s_binding s of None \<Rightarrow> target = SessionStarting
       | Some q \<Rightarrow> b_SessionID b = b_SessionID q \<and> b_Generation q < b_Generation b"
    "target = SessionResuming \<Longrightarrow> deadlineFrom at (s_lifetime s) = Inr d"
    "t = s\<lparr>s_status := recoveredStatus target, s_binding := Some b,
           s_lastResumedAt := if target = SessionResuming then Some at else s_lastResumedAt s,
           s_stateChangedAt := at,
           s_deadlineAt := if target = SessionResuming then d else s_deadlineAt s,
           s_recoveryTarget := None\<rparr>"
proof -
  from assms obtain target where tgt: "s_recoveryTarget s = Some target"
    by (cases "s_recoveryTarget s") (simp_all add: Recovered_def)
  note r = assms [unfolded Recovered_def tgt option.case bindE_Inr failIf_Inr transition_Inr Let_def]
  from r have bound: "validBinding (s_provider s) b"
    "case s_binding s of None \<Rightarrow> target = SessionStarting
       | Some q \<Rightarrow> b_SessionID b = b_SessionID q \<and> b_Generation q < b_Generation b"
    by (cases "s_binding s";
        simp add: bindE_Inr failIf_Inr validateBinding_Inr validateResumedBinding_Inr)+
  show ?thesis
  proof (cases "target = SessionResuming")
    case True
    with r obtain d where "deadlineFrom at (s_lifetime s) = Inr d"
      by (auto simp: bindE_Inr)
    with r tgt bound True show ?thesis
      by (intro that [of target d]) auto
  next
    case False
    with r tgt bound show ?thesis
      by (intro that [of target None]) auto
  qed
qed

lemma step_lifecycle_inv:
  assumes inv: "lifecycle_inv s" and step: "session_step s e t"
  shows "lifecycle_inv t"
proof (cases e)
  case (EvRename name source)
  with step inv show ?thesis
    by (subst Rename_fields [of s name source t]) (simp_all add: session_step_def lifecycle_inv_def)
next
  case (EvModelPreferences m f)
  with step inv show ?thesis
    by (subst WithModelPreferences_fields(1) [of s m f t])
      (auto simp: session_step_def lifecycle_inv_def dest: WithModelPreferences_fields(2))
next
  case (EvRecovered b at)
  with step have "Recovered s b at = Inr t" by (simp add: session_step_def)
  then show ?thesis
    using inv by (elim Recovered_Inr) (auto simp: lifecycle_inv_def recoveredStatus_def isRecoveryTarget_def)
next
  case (EvAwaitRecovery at)
  with step inv show ?thesis
    by (simp add: session_step_def lifecycle_inv_def AwaitRecoveryAt_def isRecoveryTarget_def
        Let_def result_simps) force
qed (use step inv in \<open>clarsimp simp: session_step_def lifecycle_inv_def session_op_defs result_simps\<close>)+

lemma step_session_le:
  assumes inv: "lifecycle_inv s" and step: "session_step s e t"
  shows "session_le s t"
proof -
  have nz: "\<not> IsZero (s_stateChangedAt s)" and new: "s_status s = SessionStarting \<Longrightarrow> s_binding s = None"
    using inv by (simp_all add: lifecycle_inv_def)
  show ?thesis
  proof (cases e)
    case (EvRename name source)
    with step inv show ?thesis
      by (subst Rename_fields [of s name source t])
        (simp_all add: session_step_def session_le_def identity_def)
  next
    case (EvModelPreferences m f)
    with step show ?thesis
      by (subst WithModelPreferences_fields(1) [of s m f t])
        (simp_all add: session_step_def session_le_def identity_def)
  next
    case (EvRecovered b at)
    with step have "Recovered s b at = Inr t" by (simp add: session_step_def)
    with nz show ?thesis
      by (elim Recovered_Inr) (simp add: session_le_def identity_def less_imp_le split: option.splits)
  next
    case (EvResumeReady b at l)
    with step nz show ?thesis
      by (simp add: session_step_def session_le_def identity_def ResumeReady_def result_simps) force
  qed (use step nz new in \<open>clarsimp simp: session_step_def session_le_def identity_def
         session_op_defs result_simps Let_def\<close>)+
qed

interpretation lifecycle: ordered_machine session_step lifecycle_inv session_le
  by unfold_locales
    (blast intro: step_lifecycle_inv session_le_refl session_le_trans step_session_le)+

subsection \<open>Which steps can be persisted\<close>


lemma restorable_times:
  assumes "restorable s" and "timed s"
  shows "\<not> IsZero (s_createdAt s)" "\<not> IsZero (s_stateChangedAt s)"
    "s_createdAt s \<le> s_stateChangedAt s" "s_createdAt s \<le> anchor s" "anchor s \<le> s_stateChangedAt s"
    "s_lifetime s \<in> {0, 6 * hour, 12 * hour, 24 * hour, 48 * hour}"
    "anchored s \<or> s_status s \<in> {SessionArchived, SessionResuming, SessionResumeFailed}"
  using assms by (simp_all add: restorable_iff wf_times_def timed_def)

lemma restorable_lifecycle_inv:
  assumes "restorable s" and "timed s"
  shows "lifecycle_inv s"
  using restorable_times(1-3) [OF assms] assms(1)
  by (cases "s_status s") (auto simp: restorable_iff lifecycle_inv_def wf_status_def)

lemma RestoreSession_restorable: "RestoreSession n = Inr s \<Longrightarrow> restorable s"
  by (drule RestoreSession_wf) (simp add: restorable_iff)


lemma anchor_update [simp]:
  "anchor (s\<lparr>s_status := st\<rparr>) = anchor s" "anchor (s\<lparr>s_binding := b\<rparr>) = anchor s"
  "anchor (s\<lparr>s_stateChangedAt := at\<rparr>) = anchor s" "anchor (s\<lparr>s_recoveryTarget := rt\<rparr>) = anchor s"
  "anchor (s\<lparr>s_deadlineAt := d\<rparr>) = anchor s" "anchor (s\<lparr>s_lifetime := l\<rparr>) = anchor s"
  "anchor (s\<lparr>s_lastResumedAt := Some r\<rparr>) = r"
  by (simp_all add: anchor_def split: option.split)

lemma anchored_update [simp]:
  "anchored (s\<lparr>s_status := st\<rparr>) = anchored s" "anchored (s\<lparr>s_binding := b\<rparr>) = anchored s"
  "anchored (s\<lparr>s_stateChangedAt := at\<rparr>) = anchored s"
  "anchored (s\<lparr>s_recoveryTarget := rt\<rparr>) = anchored s"
  by (simp_all add: anchored_def)



lemma wf_times_update [simp]:
  "wf_times (s\<lparr>s_binding := b\<rparr>) = wf_times s" "wf_times (s\<lparr>s_recoveryTarget := r\<rparr>) = wf_times s"
  by (simp_all add: wf_times_def)






subsection \<open>Deadlines\<close>

text \<open>
  Archiving clears the deadline and only a resume or its recovery sets it again; in between
  the session is archived, resuming, or waiting for the recovery of a resume or of a close.
\<close>

definition deadline_inv :: "Session \<Rightarrow> bool" where
  "deadline_inv s \<longleftrightarrow>
     lifecycle_inv s \<and>
     s_lifetime s \<in> {0, 6 * hour, 12 * hour, 24 * hour, 48 * hour} \<and>
     (anchored s \<or>
      s_status s \<in> {SessionArchived, SessionResuming, SessionResumeFailed, SessionClosing} \<or>
      s_recoveryTarget s \<in> {Some SessionResuming, Some SessionClosing})"

lemma Rename_frame:
  assumes "Rename s name source = Inr t" and "lifecycle_inv s"
  shows "s_status t = s_status s \<and> s_lifetime t = s_lifetime s \<and> anchored t = anchored s \<and>
         s_recoveryTarget t = s_recoveryTarget s"
proof -
  obtain src where "t = s\<lparr>s_name := name, s_nameSource := src\<rparr>"
    using Rename_fields [OF assms] by blast
  then show ?thesis by (simp add: anchored_def anchor_def split: option.split)
qed

lemma WithModelPreferences_frame:
  assumes "WithModelPreferences s m e = Inr t"
  shows "s_status t = SessionReady \<and> s_lifetime t = s_lifetime s \<and> anchored t = anchored s \<and>
         s_recoveryTarget t = None"
proof -
  obtain src where "t = s\<lparr>s_model := m, s_effort := e, s_nameSource := src, s_recoveryTarget := None\<rparr>"
    using WithModelPreferences_fields(1) [OF assms] by blast
  then show ?thesis
    using WithModelPreferences_fields(2) [OF assms]
    by (simp add: anchored_def anchor_def split: option.split)
qed

lemma lifecycle_inv_target:
  "lifecycle_inv s \<Longrightarrow> s_status s \<noteq> SessionAwaitingRecovery \<Longrightarrow> s_recoveryTarget s = None"
  by (simp add: lifecycle_inv_def)

lemma deadline_inv_live:
  assumes "deadline_inv s"
    and "s_status s \<in> {SessionStarting, SessionReady, SessionRunning, SessionStopping,
                        SessionClosingAfterWork}"
  shows "anchored s"
proof -
  from assms have "s_recoveryTarget s = None"
    by (intro lifecycle_inv_target) (auto simp: deadline_inv_def)
  with assms show ?thesis by (auto simp: deadline_inv_def)
qed

lemma deadline_invI:
  assumes "deadline_inv s" and "lifecycle_inv t" and "s_lifetime t = s_lifetime s"
    and "anchored t \<or>
      s_status t \<in> {SessionArchived, SessionResuming, SessionResumeFailed, SessionClosing} \<or>
      s_recoveryTarget t \<in> {Some SessionResuming, Some SessionClosing}"
  shows "deadline_inv t"
  using assms by (simp add: deadline_inv_def)

lemma step_deadline_inv:
  assumes inv: "deadline_inv s" and step: "session_step s e t"
  shows "deadline_inv t"
proof -
  from inv have life: "lifecycle_inv s" by (simp add: deadline_inv_def)
  then have inv': "lifecycle_inv t" using step by (rule step_lifecycle_inv)
  have live: "s_status s = SessionStarting \<Longrightarrow> anchored s" "s_status s = SessionReady \<Longrightarrow> anchored s"
    "s_status s = SessionRunning \<Longrightarrow> anchored s" "s_status s = SessionStopping \<Longrightarrow> anchored s"
    "s_status s = SessionClosingAfterWork \<Longrightarrow> anchored s"
    by (simp_all add: deadline_inv_live [OF inv])
  show ?thesis
  proof (cases e)
    case (EvRename name source)
    with step have "Rename s name source = Inr t" by (simp add: session_step_def)
    from Rename_frame [OF this life] inv inv' show ?thesis by (simp add: deadline_inv_def)
  next
    case (EvModelPreferences m f)
    with step have r: "WithModelPreferences s m f = Inr t" by (simp add: session_step_def)
    have "s_recoveryTarget s = None"
      using WithModelPreferences_fields(2) [OF r] life by (simp add: lifecycle_inv_def)
    with WithModelPreferences_frame [OF r] WithModelPreferences_fields(2) [OF r] inv inv' show ?thesis
      by (simp add: deadline_inv_def)
  next
    case (EvRecovered b at)
    with step have "Recovered s b at = Inr t" by (simp add: session_step_def)
    then show ?thesis
    proof (rule Recovered_Inr)
      fix target d
      assume "s_recoveryTarget s = Some target" "s_status s = SessionAwaitingRecovery"
        and d: "target = SessionResuming \<Longrightarrow> deadlineFrom at (s_lifetime s) = Inr d"
        and t: "t = s\<lparr>s_status := recoveredStatus target, s_binding := Some b,
           s_lastResumedAt := if target = SessionResuming then Some at else s_lastResumedAt s,
           s_stateChangedAt := at,
           s_deadlineAt := if target = SessionResuming then d else s_deadlineAt s,
           s_recoveryTarget := None\<rparr>"
      with inv inv' show ?thesis
        by (cases "target = SessionResuming")
          (auto simp: deadline_inv_def t anchored_def recoveredStatus_def)
    qed
  next
    case (EvResumeReady b at l)
    with step inv inv' show ?thesis
      by (clarsimp simp: session_step_def deadline_inv_def ResumeReady_def bindE_Inr failIf_Inr
          validateLifecycleTime_Inr transition_Inr anchored_def deadlineFrom_Inr)
  next
    case (EvAwaitRecovery at)
    with step have st: "s_status s \<in> {SessionStarting, SessionReady, SessionRunning, SessionStopping,
        SessionClosingAfterWork} \<or> s_status s \<in> {SessionResuming, SessionClosing}"
      and t: "t = s\<lparr>s_status := SessionAwaitingRecovery, s_stateChangedAt := at,
                 s_recoveryTarget := Some (s_status s)\<rparr>"
      by (auto simp: session_step_def AwaitRecoveryAt_def bindE_Inr failIf_Inr transition_Inr Let_def)
    from st show ?thesis
      by (intro deadline_invI [OF inv inv']) (auto simp: t dest: live)
  qed (use step in \<open>intro deadline_invI [OF inv inv'];
         auto simp: session_step_def session_op_defs bindE_Inr failIf_Inr transition_Inr dest: live\<close>)+
qed

interpretation deadlines: invariant_machine session_step deadline_inv
  by unfold_locales (rule step_deadline_inv)

section \<open>Properties\<close>

text \<open>Sample sessions for the witnesses: one ready, one resuming after it was archived.\<close>

definition sample_binding :: ProviderBinding where
  "sample_binding = \<lparr>b_Provider = ProviderCodex, b_SessionID = ''thread-1'', b_Generation = 3\<rparr>"

definition sample_ready :: Session where
  "sample_ready =
     \<lparr>s_id = ''s-1'', s_intentID = ''intent-1'', s_computerID = ''local'',
      s_provider = ProviderCodex, s_workdir = ''/work'', s_name = ''my repo'',
      s_nameSource = SessionNameDirectory, s_model = ''gpt-5'', s_effort = [],
      s_status = SessionReady, s_binding = Some sample_binding, s_createdAt = 1000,
      s_lastResumedAt = None, s_stateChangedAt = 2000, s_lifetime = SessionLifetime24Hours,
      s_deadlineAt = Some (1000 + SessionLifetime24Hours), s_recoveryTarget = None\<rparr>"

definition sample_resuming :: Session where
  "sample_resuming =
     sample_ready\<lparr>s_status := SessionResuming, s_deadlineAt := None, s_stateChangedAt := 5000\<rparr>"

lemma sample_ready_restorable: "RestoreSession (Snapshot sample_ready) = Inr sample_ready"
  by code_simp

lemma sample_resuming_restorable: "RestoreSession (Snapshot sample_resuming) = Inr sample_resuming"
  by code_simp

lemma NewStartingSessionAt_Inr:
  assumes "NewStartingSessionAt ident intent computer provider workdir at lifetime = Inr s"
  shows "restorable s" and "timed s" and "s_status s = SessionStarting" and "s_createdAt s = at"
    and "s_lifetime s = lifetime" and "s_lastResumedAt s = None"
proof -
  from assms obtain n where n: "RestoreSession n = Inr s" "\<not> IsZero at" "n_CreatedAt n = at"
      "n_Status n = SessionStarting" "n_Lifetime n = lifetime" "n_LastResumedAt n = None"
    by (auto simp: NewStartingSessionAt_def bindE_Inr validateLifecycleTime_Inr)
  obtain src target where s: "s = (sessionOf n)\<lparr>s_nameSource := src, s_recoveryTarget := target\<rparr>"
    using RestoreSession_fields(1) [OF n(1)] by blast
  show "restorable s" by (rule RestoreSession_restorable [OF n(1)])
  show "timed s" "s_status s = SessionStarting" "s_createdAt s = at" "s_lifetime s = lifetime"
    "s_lastResumedAt s = None"
    by (simp_all add: s sessionOf_def n timed_def)
qed

lemma restorable_deadline_inv:
  assumes "restorable s" and "timed s"
  shows "deadline_inv s"
  using restorable_times(6,7) [OF assms] restorable_lifecycle_inv [OF assms]
  by (auto simp: deadline_inv_def)

lemma Snapshot_restored_times:
  assumes "RestoreSession (Snapshot t) = Inr u"
  shows "wf_times u = wf_times t"
proof -
  obtain src target where "u = t\<lparr>s_nameSource := src, s_recoveryTarget := target\<rparr>"
    using RestoreSession_fields(1) [OF assms] unfolding sessionOf_Snapshot by blast
  then show ?thesis by (simp add: wf_times_def anchored_def anchor_def split: option.split)
qed

text \<open>The arrows of the life cycle, without the operations that keep the status.\<close>

definition lifecycle_edge :: "SessionStatus \<Rightarrow> SessionStatus \<Rightarrow> bool" where
  "lifecycle_edge a b \<longleftrightarrow>
     (case b of
        SessionReady \<Rightarrow> a \<in> {SessionStarting, SessionRunning, SessionStopping, SessionResuming,
                            SessionAwaitingRecovery}
      | SessionRunning \<Rightarrow> a = SessionReady
      | SessionStopping \<Rightarrow> a = SessionRunning
      | SessionClosingAfterWork \<Rightarrow> a \<in> {SessionRunning, SessionStopping, SessionAwaitingRecovery}
      | SessionAwaitingRecovery \<Rightarrow> isRecoveryTarget a
      | SessionClosing \<Rightarrow> a \<in> {SessionReady, SessionClosingAfterWork, SessionAwaitingRecovery}
      | SessionArchived \<Rightarrow> a \<in> {SessionClosing, SessionResumeFailed}
      | SessionResuming \<Rightarrow> a = SessionArchived
      | SessionResumeFailed \<Rightarrow> a = SessionResuming
      | _ \<Rightarrow> False)"

text \<open>
  Restoring is stable: a session restored from a snapshot has a snapshot that restores to
  the same session, so writing and reading back the state document changes nothing.
\<close>

theorem session_restore_roundtrip:
  assumes "RestoreSession n = Inr s"
  shows "RestoreSession (Snapshot s) = Inr s"
  using RestoreSession_restorable [OF assms] by (simp add: restorable_def)

theorem session_restore_roundtrip_witness:
  "RestoreSession ((Snapshot sample_ready)\<lparr>n_NameSource := SessionNameUnset\<rparr>) = Inr sample_ready \<and>
   RestoreSession (Snapshot sample_ready) = Inr sample_ready"
proof -
  have "RestoreSession ((Snapshot sample_ready)\<lparr>n_NameSource := SessionNameUnset\<rparr>) = Inr sample_ready"
    by code_simp
  with session_restore_roundtrip [OF this] show ?thesis by simp
qed



text \<open>
  C40. The second exception is real: a session with a limited lifetime that is being resumed
  from the archive has no deadline, and after \<open>AwaitRecoveryAt\<close> its snapshot is rejected, so
  the store can never record that this resume was interrupted.
\<close>

theorem resume_recovery_unpersistable:
  assumes "RestoreSession (Snapshot s) = Inr s" and "\<not> IsZero (s_createdAt s)"
    and "s_status s = SessionResuming" and "s_lifetime s \<noteq> SessionLifetimeNever"
    and "s_deadlineAt s = None" and "AwaitRecoveryAt s at = Inr t"
  shows "\<exists>e. RestoreSession (Snapshot t) = Inl e"
proof -
  from assms(6) have t: "t = s\<lparr>s_status := SessionAwaitingRecovery, s_stateChangedAt := at,
                                s_recoveryTarget := Some (s_status s)\<rparr>"
    by (auto simp: AwaitRecoveryAt_def bindE_Inr transition_Inr Let_def)
  have "\<not> anchored t"
    using assms(4,5) by (simp add: t anchored_def deadlineFrom_Inr SessionLifetimeNever_def)
  then have "\<not> wf_times t" using assms(2) by (simp add: wf_times_def t)
  then have "RestoreSession (Snapshot t) \<noteq> Inr u" for u
    using RestoreSession_wf [of "Snapshot t" u] Snapshot_restored_times [of t u] by blast
  then show ?thesis by (cases "RestoreSession (Snapshot t)") auto
qed

theorem resume_recovery_unpersistable_witness:
  "RestoreSession (Snapshot sample_resuming) = Inr sample_resuming \<and>
   (\<exists>t e. AwaitRecoveryAt sample_resuming 6000 = Inr t \<and> RestoreSession (Snapshot t) = Inl e)"
proof -
  let ?t = "sample_resuming\<lparr>s_status := SessionAwaitingRecovery, s_stateChangedAt := 6000,
                            s_recoveryTarget := Some SessionResuming\<rparr>"
  have a: "AwaitRecoveryAt sample_resuming 6000 = Inr ?t" by code_simp
  have "\<exists>e. RestoreSession (Snapshot ?t) = Inl e"
    by (rule resume_recovery_unpersistable [OF sample_resuming_restorable _ _ _ _ a])
      (simp_all add: sample_resuming_def sample_ready_def IsZero_def zeroTime_def
        SessionLifetime24Hours_def SessionLifetimeNever_def)
  with a sample_resuming_restorable show ?thesis by blast
qed

text \<open>
  C18. Over any sequence of operations a session keeps its identity and creation time, its
  state change time never goes back, and once bound it stays bound to the same provider
  session with process generations that never decrease.
\<close>

theorem session_run_monotone:
  assumes "RestoreSession (Snapshot s) = Inr s" and "\<not> IsZero (s_createdAt s)"
    and "run session_step s es t"
  shows "identity t = identity s \<and> s_createdAt t = s_createdAt s \<and>
         s_stateChangedAt s \<le> s_stateChangedAt t \<and>
         (\<forall>b. s_binding s = Some b \<longrightarrow>
            (\<exists>c. s_binding t = Some c \<and> b_SessionID c = b_SessionID b \<and>
                 b_Generation b \<le> b_Generation c))"
proof -
  have "lifecycle_inv s"
    by (rule restorable_lifecycle_inv) (simp_all add: assms restorable_def timed_def)
  with lifecycle.run_ord [OF assms(3)] show ?thesis by (simp add: session_le_def)
qed

text \<open>A closed run for the witnesses: work, close, archive, resume.\<close>

definition sample_run :: "session_event list" where
  "sample_run = [EvStartWork 3000, EvCloseAfterWork 4000, EvBeginClose 5000, EvArchive 6000,
     EvBeginResume 7000, EvResumeReady (sample_binding\<lparr>b_Generation := 4\<rparr>) 8000 SessionLifetime6Hours]"

fun session_exec :: "Session \<Rightarrow> session_event list \<Rightarrow> session_error + Session" where
  "session_exec s [] = Inr s"
| "session_exec s (e # es) = bindE (session_apply s e) (\<lambda>t. session_exec t es)"

lemma session_exec_run: "session_exec s es = Inr t \<longleftrightarrow> run session_step s es t"
  by (induction es arbitrary: s)
    (auto simp: bindE_Inr session_step_def intro: run.intros)

definition sample_resumed :: Session where
  "sample_resumed = sample_ready\<lparr>s_binding := Some (sample_binding\<lparr>b_Generation := 4\<rparr>),
     s_lastResumedAt := Some 8000, s_stateChangedAt := 8000, s_lifetime := SessionLifetime6Hours,
     s_deadlineAt := Some (8000 + SessionLifetime6Hours)\<rparr>"

lemma sample_run_exec: "run session_step sample_ready sample_run sample_resumed"
  unfolding session_exec_run [symmetric] by code_simp

theorem session_run_monotone_witness:
  "run session_step sample_ready sample_run sample_resumed \<and>
   identity sample_resumed = identity sample_ready \<and>
   (\<exists>c. s_binding sample_resumed = Some c \<and> b_SessionID c = ''thread-1'')"
  using session_run_monotone [OF sample_ready_restorable _ sample_run_exec] sample_run_exec
  by (auto simp: sample_ready_def IsZero_def zeroTime_def sample_binding_def)

text \<open>
  C27. Exact resume: an operation that replaces the provider binding of a session that had one
  binds the same provider session at a strictly greater process generation.
\<close>

theorem session_exact_resume:
  assumes "RestoreSession (Snapshot s) = Inr s" and "\<not> IsZero (s_createdAt s)"
    and "session_apply s e = Inr t" and "s_binding s = Some b" and "s_binding t \<noteq> Some b"
  shows "\<exists>c. s_binding t = Some c \<and> b_SessionID c = b_SessionID b \<and>
             b_Generation b < b_Generation c \<and> s_status s \<in> {SessionResuming, SessionAwaitingRecovery}"
proof -
  have inv: "lifecycle_inv s"
    by (rule restorable_lifecycle_inv) (simp_all add: assms restorable_def timed_def)
  have new: "s_status s \<noteq> SessionStarting" using inv assms(4) by (auto simp: lifecycle_inv_def)
  show ?thesis
  proof (cases e)
    case (EvRename name source)
    with assms(3) have "Rename s name source = Inr t" by simp
    then obtain src where "t = s\<lparr>s_name := name, s_nameSource := src\<rparr>"
      using Rename_fields [OF _ inv] by blast
    with assms show ?thesis by simp
  next
    case (EvModelPreferences m f)
    with assms(3) have "WithModelPreferences s m f = Inr t" by simp
    then obtain src where "t = s\<lparr>s_model := m, s_effort := f, s_nameSource := src,
                                 s_recoveryTarget := None\<rparr>"
      using WithModelPreferences_fields(1) by blast
    with assms show ?thesis by simp
  next
    case (EvRecovered b' at)
    with assms(3) have "Recovered s b' at = Inr t" by simp
    then show ?thesis by (rule Recovered_Inr) (use assms(4) in simp)
  qed (use assms(3-5) new in \<open>auto simp: session_op_defs bindE_Inr failIf_Inr transition_Inr Let_def
         validateResumedBinding_Inr validateLifecycleTime_Inr\<close>)
qed

theorem session_exact_resume_witness:
  "\<exists>t c. session_apply sample_resuming
           (EvResumeReady (sample_binding\<lparr>b_Generation := 4\<rparr>) 6000 SessionLifetimeNever) = Inr t \<and>
         s_binding t = Some c \<and> b_SessionID c = ''thread-1'' \<and> 3 < b_Generation c"
proof -
  let ?b = "sample_binding\<lparr>b_Generation := 4\<rparr>"
  let ?t = "sample_resuming\<lparr>s_status := SessionReady, s_binding := Some ?b,
              s_lastResumedAt := Some 6000, s_stateChangedAt := 6000,
              s_lifetime := SessionLifetimeNever\<rparr>"
  have step: "session_apply sample_resuming (EvResumeReady ?b 6000 SessionLifetimeNever) = Inr ?t"
    by code_simp
  have "\<exists>c. s_binding ?t = Some c \<and> b_SessionID c = b_SessionID sample_binding \<and>
            b_Generation sample_binding < b_Generation c \<and>
            s_status sample_resuming \<in> {SessionResuming, SessionAwaitingRecovery}"
    by (rule session_exact_resume [OF sample_resuming_restorable _ step])
      (simp_all add: sample_resuming_def sample_ready_def sample_binding_def IsZero_def zeroTime_def)
  with step show ?thesis by (auto simp: sample_binding_def)
qed

text \<open>
  C34. The status only moves along the arrows of the life cycle: an operation that succeeds keeps
  the status or follows one of them.
\<close>

theorem session_edges:
  assumes "RestoreSession (Snapshot s) = Inr s" and "\<not> IsZero (s_createdAt s)"
    and "session_apply s e = Inr t"
  shows "s_status t = s_status s \<or> lifecycle_edge (s_status s) (s_status t)"
proof -
  have inv: "lifecycle_inv s"
    by (rule restorable_lifecycle_inv) (simp_all add: assms restorable_def timed_def)
  show ?thesis
  proof (cases e)
    case (EvRename name source)
    then show ?thesis using assms(3) Rename_frame [OF _ inv] by auto
  next
    case (EvModelPreferences m f)
    with assms(3) have w: "WithModelPreferences s m f = Inr t" by simp
    then show ?thesis
      using WithModelPreferences_frame [OF w] WithModelPreferences_fields(2) [OF w] by simp
  next
    case (EvRecovered b at)
    with assms(3) have "Recovered s b at = Inr t" by simp
    moreover have "s_recoveryTarget s = Some target \<Longrightarrow> isRecoveryTarget target" for target
      using assms(1) restorable_iff [of s] by (auto simp: restorable_def wf_status_def split: if_splits)
    ultimately show ?thesis
      by (elim Recovered_Inr) (auto simp: lifecycle_edge_def recoveredStatus_def isRecoveryTarget_def)
  qed (use assms(3) in \<open>auto simp: session_op_defs bindE_Inr failIf_Inr transition_Inr Let_def
         lifecycle_edge_def isRecoveryTarget_def\<close>)
qed

theorem session_edges_witness:
  "\<exists>t. session_apply sample_ready (EvBeginClose 3000) = Inr t \<and>
       lifecycle_edge SessionReady (s_status t)"
proof -
  let ?t = "sample_ready\<lparr>s_status := SessionClosing, s_stateChangedAt := 3000\<rparr>"
  have step: "session_apply sample_ready (EvBeginClose 3000) = Inr ?t" by code_simp
  have "s_status ?t = s_status sample_ready \<or> lifecycle_edge (s_status sample_ready) (s_status ?t)"
    by (rule session_edges [OF sample_ready_restorable _ step])
      (simp add: sample_ready_def IsZero_def zeroTime_def)
  with step show ?thesis by (auto simp: sample_ready_def)
qed

text \<open>
  C19. Expiry is exact: after any sequence of operations from creation, a live session has expired
  at a time precisely when it has a limited lifetime and that long has passed since its creation
  or its latest resume.
\<close>

theorem session_live_deadline:
  assumes "NewStartingSessionAt ident intent computer provider workdir at lifetime = Inr s"
    and "run session_step s es t"
    and "s_status t \<in> {SessionStarting, SessionReady, SessionRunning, SessionStopping,
                         SessionClosingAfterWork}"
  shows "Expired t now \<longleftrightarrow>
    s_lifetime t \<noteq> SessionLifetimeNever \<and>
    (case s_lastResumedAt t of None \<Rightarrow> at | Some r \<Rightarrow> r) + s_lifetime t \<le> now"
proof -
  note new = NewStartingSessionAt_Inr [OF assms(1)]
  have inv: "deadline_inv s" by (rule restorable_deadline_inv [OF new(1,2)])
  have "s_createdAt t = at"
    using lifecycle.run_ord [OF assms(2) restorable_lifecycle_inv [OF new(1,2)]] new(4)
    by (simp add: session_le_def)
  moreover have "anchored t"
    by (rule deadline_inv_live [OF deadlines.run_inv [OF assms(2) inv] assms(3)])
  ultimately show ?thesis
    by (auto simp: anchored_def anchor_def Expired_def deadlineFrom_Inr SessionLifetimeNever_def
        split: option.splits)
qed

text \<open>A session that is created, becomes ready and starts work.\<close>

definition sample_started :: Session where
  "sample_started =
     \<lparr>s_id = ''s-2'', s_intentID = ''intent-2'', s_computerID = ''local'',
      s_provider = ProviderCodex, s_workdir = ''/work'', s_name = [],
      s_nameSource = SessionNameUnset, s_model = [], s_effort = [],
      s_status = SessionStarting, s_binding = None, s_createdAt = 1000,
      s_lastResumedAt = None, s_stateChangedAt = 1000, s_lifetime = SessionLifetime6Hours,
      s_deadlineAt = Some (1000 + SessionLifetime6Hours), s_recoveryTarget = None\<rparr>"

definition sample_running :: Session where
  "sample_running = sample_started\<lparr>s_status := SessionRunning, s_binding := Some sample_binding,
     s_stateChangedAt := 3000\<rparr>"

lemma sample_running_run:
  "run session_step sample_started [EvReady sample_binding 2000, EvStartWork 3000] sample_running"
  unfolding session_exec_run [symmetric] by code_simp

lemma sample_started_new:
  "NewStartingSessionAt ''s-2'' ''intent-2'' ''local'' ProviderCodex ''/work'' 1000
     SessionLifetime6Hours = Inr sample_started"
  by code_simp

theorem session_live_deadline_witness:
  "\<not> Expired sample_running 4000 \<and> Expired sample_running (1000 + 6 * hour)"
proof -
  note d = session_live_deadline [OF sample_started_new sample_running_run]
  have "s_status sample_running \<in> {SessionStarting, SessionReady, SessionRunning, SessionStopping,
                                    SessionClosingAfterWork}"
    by (simp add: sample_running_def)
  from d [OF this, of 4000] d [OF this, of "1000 + 6 * hour"] show ?thesis
    by (simp add: sample_running_def sample_started_def SessionLifetime6Hours_def
        SessionLifetimeNever_def)
qed

end
