(* ===== verification/Journal.thy ===== *)
theory Journal
  imports Prelude
begin

text \<open>
  The persistence of the message journal, \<^verbatim>\<open>src/internal/messagejournal/types.go\<close> and
  \<^verbatim>\<open>persistence.go\<close>: limits, records, the validation of a document, and the read, mutate
  and inspect shells around every operation. The document is the JSON file of the journal;
  JSON coding is a parameter, and the outcome of each system call is an input of the shell.
\<close>

section \<open>Data\<close>

text \<open>
  The sentinel errors of the package; \<open>JournalError\<close> an \<^verbatim>\<open>errors.New\<close> of its own, \<open>IOError\<close> and
  \<open>CtxError\<close> an error from the system or the context, \<open>Context\<close> a message wrapping an error
  and \<open>Because\<close> an error followed by the text of its cause.
\<close>

datatype journal_error =
    ErrConflict
  | ErrInvalidFormat
  | ErrInvalidTransition
  | ErrJournalFull
  | ErrLeaseOwner
  | ErrNoAvailable
  | ErrNotFound
  | ErrQueueFull
  | ErrRecoveryInProgress
  | ErrInputSkipped
  | errNoMutation
  | JournalError string
  | IOError string
  | CtxError string
  | Context string journal_error
  | Because journal_error journal_error

text \<open>\<^verbatim>\<open>errors.Is\<close>: the error or one it wraps.\<close>

primrec errorIs :: "journal_error \<Rightarrow> journal_error \<Rightarrow> bool" where
  "errorIs ErrConflict t \<longleftrightarrow> t = ErrConflict"
| "errorIs ErrInvalidFormat t \<longleftrightarrow> t = ErrInvalidFormat"
| "errorIs ErrInvalidTransition t \<longleftrightarrow> t = ErrInvalidTransition"
| "errorIs ErrJournalFull t \<longleftrightarrow> t = ErrJournalFull"
| "errorIs ErrLeaseOwner t \<longleftrightarrow> t = ErrLeaseOwner"
| "errorIs ErrNoAvailable t \<longleftrightarrow> t = ErrNoAvailable"
| "errorIs ErrNotFound t \<longleftrightarrow> t = ErrNotFound"
| "errorIs ErrQueueFull t \<longleftrightarrow> t = ErrQueueFull"
| "errorIs ErrRecoveryInProgress t \<longleftrightarrow> t = ErrRecoveryInProgress"
| "errorIs ErrInputSkipped t \<longleftrightarrow> t = ErrInputSkipped"
| "errorIs errNoMutation t \<longleftrightarrow> t = errNoMutation"
| "errorIs (JournalError m) t \<longleftrightarrow> False"
| "errorIs (IOError m) t \<longleftrightarrow> False"
| "errorIs (CtxError m) t \<longleftrightarrow> False"
| "errorIs (Context m e) t \<longleftrightarrow> errorIs e t"
| "errorIs (Because e cause) t \<longleftrightarrow> errorIs e t"

datatype InputPhase =
    InputPending
  | InputAccepted
  | InputCompleted
  | InputFailed
  | InputTerminalFailed
  | InputUnknown
  | InputSkipped
  | InputPhaseOther string

datatype OutputPhase =
    OutputPending
  | OutputConfirmed
  | OutputFailed
  | OutputUnknown
  | OutputSuperseded
  | OutputPhaseOther string

record Limits =
  MaxSessions :: int
  MaxInputsPerSession :: int
  MaxPendingInputsPerSession :: int
  MaxOutputsPerSession :: int
  MaxPayloadBytes :: int
  MaxIDBytes :: int
  MaxKindBytes :: int
  MaxReceiptBytes :: int
  MaxFileBytes :: int
  MaxLeaseDuration :: duration

definition DefaultLimits :: Limits where
  "DefaultLimits =
     \<lparr>MaxSessions = 256, MaxInputsPerSession = 4096, MaxPendingInputsPerSession = 32,
      MaxOutputsPerSession = 4096, MaxPayloadBytes = 2 ^ 20, MaxIDBytes = 256,
      MaxKindBytes = 64, MaxReceiptBytes = 4096, MaxFileBytes = 64 * 2 ^ 20,
      MaxLeaseDuration = 24 * hour\<rparr>"

record Lease =
  l_Owner :: string
  l_Until :: time

record AttachmentRef =
  a_Reference :: string
  a_Size :: int
  a_SHA256 :: string

record Input =
  in_MessageID :: string
  in_SessionID :: string
  in_Sequence :: u64
  in_Payload :: string
  in_Attachments :: "AttachmentRef slice"
  in_Phase :: InputPhase
  in_Lease :: Lease

record Output =
  out_OperationID :: string
  out_SessionID :: string
  out_Sequence :: u64
  out_Kind :: string
  out_Payload :: string
  out_Phase :: OutputPhase
  out_Receipt :: string
  out_Lease :: Lease

text \<open>
  The persisted records. Payloads are byte strings: neither \<^verbatim>\<open>bytes.Equal\<close> nor the JSON round
  trip tells a missing payload from an empty one.
\<close>

record leaseRecord =
  lr_Owner :: string
  lr_UntilUnix :: int

record attachmentRecord =
  ar_Reference :: string
  ar_Size :: int
  ar_SHA256 :: string

record inputRecord =
  ir_MessageID :: string
  ir_Sequence :: u64
  ir_Payload :: string
  ir_Attachments :: "attachmentRecord slice"
  ir_Phase :: InputPhase
  ir_Lease :: leaseRecord

record outputRecord =
  or_OperationID :: string
  or_Sequence :: u64
  or_Kind :: string
  or_Payload :: string
  or_Phase :: OutputPhase
  or_Receipt :: string
  or_Lease :: leaseRecord

datatype inputRecoveryPhase =
    inputRecoveryOpen
  | inputRecoveryCommitted
  | inputRecoveryAttached
  | inputRecoveryOther string

record inputRecoveryRecord =
  rr_Token :: string
  rr_ThroughSequence :: u64
  rr_Phase :: inputRecoveryPhase

record sessionRecord =
  sr_SessionID :: string
  sr_NextSequence :: u64
  sr_Inputs :: "inputRecord slice"
  sr_Outputs :: "outputRecord slice"
  sr_Recovery :: "inputRecoveryRecord option"

record document =
  d_Version :: int
  d_Sessions :: "sessionRecord slice"

definition formatVersion :: int where
  "formatVersion = 3"

definition noLease :: leaseRecord where
  "noLease = \<lparr>lr_Owner = [], lr_UntilUnix = 0\<rparr>"

definition zeroLease :: Lease where
  "zeroLease = \<lparr>l_Owner = [], l_Until = zeroTime\<rparr>"

definition zeroInput :: Input where
  "zeroInput = \<lparr>in_MessageID = [], in_SessionID = [], in_Sequence = 0, in_Payload = [],
     in_Attachments = None, in_Phase = InputPhaseOther [], in_Lease = zeroLease\<rparr>"

definition zeroOutput :: Output where
  "zeroOutput = \<lparr>out_OperationID = [], out_SessionID = [], out_Sequence = 0, out_Kind = [],
     out_Payload = [], out_Phase = OutputPhaseOther [], out_Receipt = [], out_Lease = zeroLease\<rparr>"

section \<open>Validation\<close>

definition validateLimits :: "Limits \<Rightarrow> journal_error + unit" where
  "validateLimits limits =
     bindE (failIf (MaxSessions limits < 1 \<or> MaxSessions limits > 1024)
              (JournalError ''max sessions is outside the supported range'')) (\<lambda>_.
     bindE (failIf (MaxInputsPerSession limits < 1 \<or> MaxInputsPerSession limits > 65536)
              (JournalError ''max inputs per session is outside the supported range'')) (\<lambda>_.
     bindE (failIf (MaxPendingInputsPerSession limits < 1 \<or>
                    MaxPendingInputsPerSession limits > MaxInputsPerSession limits)
              (JournalError ''max pending inputs is outside the supported range'')) (\<lambda>_.
     bindE (failIf (MaxOutputsPerSession limits < 1 \<or> MaxOutputsPerSession limits > 65536)
              (JournalError ''max outputs per session is outside the supported range'')) (\<lambda>_.
     bindE (failIf (MaxPayloadBytes limits < 1 \<or> MaxPayloadBytes limits > 4 * 2 ^ 20 \<or>
                    MaxIDBytes limits < 1 \<or> MaxIDBytes limits > 512 \<or>
                    MaxKindBytes limits < 1 \<or> MaxKindBytes limits > 128 \<or>
                    MaxReceiptBytes limits < 1 \<or> MaxReceiptBytes limits > 16 * 2 ^ 10)
              (JournalError ''message journal text limit is outside the supported range'')) (\<lambda>_.
     bindE (failIf (MaxFileBytes limits < 1024 \<or> MaxFileBytes limits > 256 * 2 ^ 20)
              (JournalError ''max journal file bytes is outside the supported range'')) (\<lambda>_.
     failIf (MaxLeaseDuration limits \<le> 0 \<or> MaxLeaseDuration limits > MaxLeaseDuration DefaultLimits)
       (JournalError ''max lease duration is outside the supported range'')))))))"

definition validateOpaqueID :: "string \<Rightarrow> int \<Rightarrow> string \<Rightarrow> journal_error + unit" where
  "validateOpaqueID value maxBytes name =
     failIf (value = [] \<or> TrimSpace value \<noteq> value \<or> len value > maxBytes)
       (JournalError (name @ '' is invalid''))"

definition validateAttachmentRecord :: "attachmentRecord \<Rightarrow> Limits \<Rightarrow> journal_error + unit" where
  "validateAttachmentRecord a limits =
     bindE (failIf (blank (ar_Reference a) \<or> ar_Reference a \<noteq> TrimSpace (ar_Reference a) \<or>
                    len (ar_Reference a) > MaxIDBytes limits \<or>
                    take 1 (ar_Reference a) = ''/'' \<or>
                    list_ex (\<lambda>c. c = CHR ''/'' \<or> c = CHR 0x5C) (ar_Reference a) \<or>
                    ar_Size a \<le> 0 \<or> len (ar_SHA256 a) \<noteq> 64)
              (JournalError ''invalid input attachment reference'')) (\<lambda>_.
     forE (\<lambda>character. failIf (character \<notin> set (runes ''0123456789abcdef''))
                          (JournalError ''invalid input attachment digest''))
       (runes (ar_SHA256 a)))"

definition validateLease :: "leaseRecord \<Rightarrow> Limits \<Rightarrow> journal_error + unit" where
  "validateLease lease limits =
     (if lease = noLease then Inr ()
      else bindE (validateOpaqueID (lr_Owner lease) (MaxIDBytes limits) ''lease owner'') (\<lambda>_.
           failIf (lr_UntilUnix lease \<le> 0) (JournalError ''lease expiry must be positive'')))"

text \<open>The checks of the recovery record, against the inputs up to its boundary.\<close>

definition settledPhase :: "InputPhase \<Rightarrow> bool" where
  "settledPhase phase \<longleftrightarrow> phase \<in> {InputCompleted, InputTerminalFailed, InputSkipped}"

definition unambiguousPhase :: "InputPhase \<Rightarrow> bool" where
  "unambiguousPhase phase \<longleftrightarrow>
     phase \<in> {InputPending, InputAccepted, InputCompleted, InputTerminalFailed, InputSkipped}"

definition throughBoundary :: "u64 \<Rightarrow> inputRecord list \<Rightarrow> inputRecord list" where
  "throughBoundary through inputs = takeWhile (\<lambda>input. \<not> through < ir_Sequence input) inputs"

definition validateRecovery :: "sessionRecord \<Rightarrow> Limits \<Rightarrow> journal_error + unit" where
  "validateRecovery session limits =
     (case sr_Recovery session of
        None \<Rightarrow> Inr ()
      | Some recovery \<Rightarrow>
          bindE (validateOpaqueID (rr_Token recovery) (MaxIDBytes limits) ''input recovery token'') (\<lambda>_.
          bindE (failIf (rr_ThroughSequence recovery = 0 \<or>
                         sr_NextSequence session < rr_ThroughSequence recovery)
                   (JournalError ''input recovery boundary is invalid'')) (\<lambda>_.
          (case rr_Phase recovery of
             inputRecoveryOpen \<Rightarrow> Inr ()
           | inputRecoveryCommitted \<Rightarrow>
               forE (\<lambda>input. failIf (\<not> settledPhase (ir_Phase input))
                       (JournalError ''committed input recovery retains unresolved input''))
                 (throughBoundary (rr_ThroughSequence recovery) (elems (sr_Inputs session)))
           | inputRecoveryAttached \<Rightarrow>
               forE (\<lambda>input. failIf (\<not> unambiguousPhase (ir_Phase input))
                       (JournalError ''attached input recovery retains ambiguous input''))
                 (throughBoundary (rr_ThroughSequence recovery) (elems (sr_Inputs session)))
           | inputRecoveryOther _ \<Rightarrow> Inl (JournalError ''input recovery phase is invalid'')))))"

definition validateInputPhase :: "inputRecord \<Rightarrow> Limits \<Rightarrow> journal_error + unit" where
  "validateInputPhase input limits =
     (case ir_Phase input of
        InputPending \<Rightarrow> validateLease (ir_Lease input) limits
      | InputPhaseOther _ \<Rightarrow> Inl (JournalError ''unsupported input phase'')
      | _ \<Rightarrow> failIf (ir_Lease input \<noteq> noLease)
               (JournalError ''terminal or accepted input retains a lease''))"

fun validateInputs :: "Limits \<Rightarrow> string set \<Rightarrow> u64 \<Rightarrow> inputRecord list \<Rightarrow> journal_error + unit" where
  "validateInputs limits seen previous [] = Inr ()"
| "validateInputs limits seen previous (input # inputs) =
     bindE (validateOpaqueID (ir_MessageID input) (MaxIDBytes limits) ''message id'') (\<lambda>_.
     bindE (failIf (ir_MessageID input \<in> seen) (JournalError ''duplicate message id'')) (\<lambda>_.
     bindE (failIf (ir_Sequence input = 0 \<or> ir_Sequence input \<le> previous \<or>
                    len (ir_Payload input) > MaxPayloadBytes limits)
              (JournalError ''invalid input sequence or payload'')) (\<lambda>_.
     bindE (forE (\<lambda>a. validateAttachmentRecord a limits) (elems (ir_Attachments input))) (\<lambda>_.
     bindE (validateInputPhase input limits) (\<lambda>_.
     validateInputs limits (insert (ir_MessageID input) seen) (ir_Sequence input) inputs)))))"

definition validateOutputPhase :: "outputRecord \<Rightarrow> Limits \<Rightarrow> journal_error + unit" where
  "validateOutputPhase output limits =
     (case or_Phase output of
        OutputPending \<Rightarrow>
          bindE (failIf (or_Receipt output \<noteq> []) (JournalError ''pending output has a receipt'')) (\<lambda>_.
          validateLease (or_Lease output) limits)
      | OutputConfirmed \<Rightarrow>
          failIf (or_Lease output \<noteq> noLease \<or> blank (or_Receipt output) \<or>
                  len (or_Receipt output) > MaxReceiptBytes limits)
            (JournalError ''confirmed output has invalid receipt or lease'')
      | OutputPhaseOther _ \<Rightarrow> Inl (JournalError ''unsupported output phase'')
      | _ \<Rightarrow> failIf (or_Lease output \<noteq> noLease \<or> or_Receipt output \<noteq> [])
               (JournalError ''terminal unconfirmed output has a receipt or lease''))"

fun validateOutputs :: "Limits \<Rightarrow> string set \<Rightarrow> u64 \<Rightarrow> outputRecord list \<Rightarrow> journal_error + unit" where
  "validateOutputs limits seen previous [] = Inr ()"
| "validateOutputs limits seen previous (output # outputs) =
     bindE (validateOpaqueID (or_OperationID output) (MaxIDBytes limits) ''operation id'') (\<lambda>_.
     bindE (failIf (or_OperationID output \<in> seen) (JournalError ''duplicate operation id'')) (\<lambda>_.
     bindE (failIf (or_Sequence output = 0 \<or> or_Sequence output \<le> previous \<or>
                    len (or_Payload output) > MaxPayloadBytes limits \<or>
                    blank (or_Kind output) \<or> len (or_Kind output) > MaxKindBytes limits)
              (JournalError ''invalid output sequence, kind, or payload'')) (\<lambda>_.
     bindE (validateOutputPhase output limits) (\<lambda>_.
     validateOutputs limits (insert (or_OperationID output) seen) (or_Sequence output) outputs))))"

definition pendingInputs :: "inputRecord list \<Rightarrow> int" where
  "pendingInputs inputs = len (filter (\<lambda>input. ir_Phase input = InputPending) inputs)"

definition validateSequences :: "u64 \<Rightarrow> u64 list \<Rightarrow> journal_error + unit" where
  "validateSequences nextSequence sequences =
     (let sequences = sort sequences in
      bindE (failIf (word_of_nat (length sequences) \<noteq> nextSequence)
               (JournalError ''next sequence does not match record count'')) (\<lambda>_.
      forE (\<lambda>(index, sequence). failIf (sequence \<noteq> word_of_nat (index + 1))
              (JournalError ''session sequence is not contiguous and monotonic''))
        (enumerate 0 sequences)))"

definition validateSession :: "sessionRecord \<Rightarrow> Limits \<Rightarrow> journal_error + unit" where
  "validateSession session limits =
     bindE (validateRecovery session limits) (\<lambda>_.
     bindE (validateInputs limits {} 0 (elems (sr_Inputs session))) (\<lambda>_.
     bindE (failIf (pendingInputs (elems (sr_Inputs session)) > MaxPendingInputsPerSession limits)
              (JournalError ''pending input count exceeds queue limit'')) (\<lambda>_.
     bindE (validateOutputs limits {} 0 (elems (sr_Outputs session))) (\<lambda>_.
     validateSequences (sr_NextSequence session)
       (map ir_Sequence (elems (sr_Inputs session)) @ map or_Sequence (elems (sr_Outputs session)))))))"

fun validateSessions :: "Limits \<Rightarrow> string set \<Rightarrow> sessionRecord list \<Rightarrow> journal_error + unit" where
  "validateSessions limits seen [] = Inr ()"
| "validateSessions limits seen (session # sessions) =
     bindE (validateOpaqueID (sr_SessionID session) (MaxIDBytes limits) ''session id'') (\<lambda>_.
     bindE (failIf (sr_SessionID session \<in> seen) (JournalError ''duplicate session id'')) (\<lambda>_.
     bindE (failIf (sr_Inputs session = None \<or>
                    len (elems (sr_Inputs session)) > MaxInputsPerSession limits \<or>
                    sr_Outputs session = None \<or>
                    len (elems (sr_Outputs session)) > MaxOutputsPerSession limits)
              (JournalError ''session record collection is missing or exceeds its limit'')) (\<lambda>_.
     bindE (case validateSession session limits of
              Inl e \<Rightarrow> Inl (Context (sr_SessionID session) e) | Inr u \<Rightarrow> Inr u) (\<lambda>_.
     validateSessions limits (insert (sr_SessionID session) seen) sessions))))"

definition validateDocument :: "document \<Rightarrow> Limits \<Rightarrow> journal_error + unit" where
  "validateDocument loaded limits =
     bindE (failIf (d_Version loaded \<noteq> formatVersion) (JournalError ''unsupported version'')) (\<lambda>_.
     bindE (failIf (d_Sessions loaded = None \<or> len (elems (d_Sessions loaded)) > MaxSessions limits)
              (JournalError ''session collection is missing or exceeds its limit'')) (\<lambda>_.
     validateSessions limits {} (elems (d_Sessions loaded))))"

section \<open>Reading and writing the file\<close>

text \<open>
  The JSON coding of the document: \<open>c_Decode\<close> reads the first value with unknown fields
  refused and says whether nothing but white space follows it.
\<close>

record codec =
  c_Marshal :: "document \<Rightarrow> string + string"
  c_Decode :: "string \<Rightarrow> string + (document \<times> bool)"

record Journal =
  j_limits :: Limits
  j_codec :: codec

text \<open>The file at the journal's path, if there is one.\<close>

record journal_file =
  f_regular :: bool
  f_data :: string

type_synonym disk = "journal_file option"

text \<open>
  The outcomes of the system calls of one operation, \<open>None\<close> for success. A failed rename
  leaves the target as it was.
\<close>

record lock_calls =
  k_OpenFile :: "string option"
  k_Chmod :: "string option"
  k_Flock :: "string option"

record read_calls =
  r_Open :: "string option"
  r_Stat :: "string option"
  r_ReadAll :: "string option"

record write_calls =
  w_CreateTemp :: "string option"
  w_Chmod :: "string option"
  w_Write :: "string option"
  w_Sync :: "string option"
  w_Close :: "string option"
  w_Rename :: "string option"
  w_OpenDirectory :: "string option"
  w_SyncDirectory :: "string option"
  w_Remove :: "string option"

record system_calls =
  sys_lock :: lock_calls
  sys_read :: read_calls
  sys_write :: write_calls
  sys_reread :: read_calls

text \<open>One system call: an error ends the function, otherwise the rest runs.\<close>

definition syscall :: "string option \<Rightarrow> (string \<Rightarrow> 'a) \<Rightarrow> 'a \<Rightarrow> 'a" where
  "syscall outcome failed rest = (case outcome of Some e \<Rightarrow> failed e | None \<Rightarrow> rest)"

definition withExclusiveFileLock :: "lock_calls \<Rightarrow> (journal_error \<Rightarrow> 'a) \<Rightarrow> 'a \<Rightarrow> 'a" where
  "withExclusiveFileLock calls failed action =
     syscall (k_OpenFile calls) (\<lambda>e. failed (Context ''open message journal lock'' (IOError e)))
     (syscall (k_Chmod calls) (\<lambda>e. failed (Context ''secure message journal lock'' (IOError e)))
     (syscall (k_Flock calls) (\<lambda>e. failed (Context ''acquire message journal lock'' (IOError e)))
      action))"

definition legacyCheck :: "document \<Rightarrow> journal_error + unit" where
  "legacyCheck loaded =
     (if d_Version loaded = 1 \<or> d_Version loaded = 2 then
        forE (\<lambda>session.
          bindE (failIf (sr_Recovery session \<noteq> None)
                   (Because ErrInvalidFormat
                      (JournalError ''legacy journal contains input recovery state''))) (\<lambda>_.
          forE (\<lambda>input. failIf (ir_Phase input = InputSkipped)
                  (Because ErrInvalidFormat (JournalError ''legacy journal contains skipped input'')))
            (elems (sr_Inputs session))))
          (elems (d_Sessions loaded))
      else Inr ())"

definition migrate :: "document \<Rightarrow> document" where
  "migrate loaded =
     (if d_Version loaded = 1 \<or> d_Version loaded = 2
      then loaded\<lparr>d_Version := formatVersion\<rparr> else loaded)"

definition decodeDocument :: "Journal \<Rightarrow> string \<Rightarrow> journal_error + document" where
  "decodeDocument journal data =
     (case c_Decode (j_codec journal) data of
        Inl e \<Rightarrow> Inl (Because ErrInvalidFormat (JournalError e))
      | Inr (loaded, atEOF) \<Rightarrow>
          bindE (legacyCheck loaded) (\<lambda>_.
          let loaded = migrate loaded in
          bindE (failIf (\<not> atEOF)
                   (Because ErrInvalidFormat (JournalError ''trailing JSON value''))) (\<lambda>_.
          (case validateDocument loaded (j_limits journal) of
             Inl e \<Rightarrow> Inl (Because ErrInvalidFormat e)
           | Inr _ \<Rightarrow> Inr loaded))))"

definition emptyDocument :: document where
  "emptyDocument = \<lparr>d_Version = formatVersion, d_Sessions = Some []\<rparr>"

definition journal_read :: "Journal \<Rightarrow> read_calls \<Rightarrow> disk \<Rightarrow> journal_error + document" where
  "journal_read journal calls disk =
     (case disk of
        None \<Rightarrow> Inr emptyDocument
      | Some file \<Rightarrow>
          syscall (r_Open calls) (\<lambda>e. Inl (Context ''open message journal'' (IOError e)))
          (syscall (r_Stat calls) (\<lambda>e. Inl (Context ''stat message journal'' (IOError e)))
          (if \<not> f_regular file \<or> len (f_data file) > MaxFileBytes (j_limits journal)
           then Inl (Because ErrInvalidFormat (JournalError ''journal is not a bounded regular file''))
           else
             syscall (r_ReadAll calls) (\<lambda>e. Inl (Context ''read message journal'' (IOError e)))
             (decodeDocument journal (f_data file)))))"

text \<open>
  The write goes to a temporary file that replaces the journal by a rename, so the file
  changes at once or not at all; an error after the rename is still returned.
\<close>

definition atomicWrite :: "write_calls \<Rightarrow> disk \<Rightarrow> string \<Rightarrow> journal_error option \<times> disk" where
  "atomicWrite calls disk data =
     (let failed = (\<lambda>e. (Some (IOError e), disk));
          written = Some \<lparr>f_regular = True, f_data = data\<rparr>;
          unsynced = (\<lambda>e. (Some (IOError e), written))
      in
      syscall (w_CreateTemp calls) failed
      (syscall (w_Chmod calls) failed
      (syscall (w_Write calls) failed
      (syscall (w_Sync calls) failed
      (syscall (w_Close calls) failed
      (syscall (w_Rename calls) failed
      (syscall (w_OpenDirectory calls) unsynced
      (syscall (w_SyncDirectory calls) unsynced
      (syscall (w_Remove calls) unsynced
      (None, written))))))))))"

type_synonym 'r change = "document \<Rightarrow> 'r \<times> (journal_error + document)"

text \<open>
  The part of \<open>mutate\<close> that stores a valid document and reads it back, the closure it runs
  under the file lock, and \<open>mutate\<close> itself.
\<close>

definition persist :: "Journal \<Rightarrow> system_calls \<Rightarrow> document \<Rightarrow> disk \<Rightarrow> journal_error option \<times> disk" where
  "persist journal sys loaded disk =
     (case c_Marshal (j_codec journal) loaded of
        Inl e \<Rightarrow> (Some (Context ''encode message journal'' (JournalError e)), disk)
      | Inr data \<Rightarrow>
          if len data > MaxFileBytes (j_limits journal) then (Some ErrJournalFull, disk)
          else
            (case atomicWrite (sys_write sys) disk data of
               (Some e, disk) \<Rightarrow> (Some (Context ''persist message journal'' e), disk)
             | (None, disk) \<Rightarrow>
                 (case journal_read journal (sys_reread sys) disk of
                    Inl e \<Rightarrow> (Some (Context ''reread message journal'' e), disk)
                  | Inr persisted \<Rightarrow>
                      if persisted \<noteq> loaded
                      then (Some (JournalError
                              ''reread message journal: persisted value mismatch''), disk)
                      else (None, disk))))"

definition mutateLocked ::
  "Journal \<Rightarrow> system_calls \<Rightarrow> 'r \<Rightarrow> 'r change \<Rightarrow> disk \<Rightarrow> ('r \<times> journal_error option) \<times> disk" where
  "mutateLocked journal sys result change disk =
     (case journal_read journal (sys_read sys) disk of
        Inl e \<Rightarrow> ((result, Some e), disk)
      | Inr loaded \<Rightarrow>
          (case change loaded of
             (result, Inl e) \<Rightarrow> ((result, Some e), disk)
           | (result, Inr loaded) \<Rightarrow>
               (case validateDocument loaded (j_limits journal) of
                  Inl e \<Rightarrow> ((result, Some (Context ''validate message journal mutation'' e)), disk)
                | Inr _ \<Rightarrow>
                    (case persist journal sys loaded disk of
                       (err, disk) \<Rightarrow> ((result, err), disk)))))"

definition mutate ::
  "Journal \<Rightarrow> system_calls \<Rightarrow> 'r \<Rightarrow> 'r change \<Rightarrow> disk \<Rightarrow> ('r \<times> journal_error option) \<times> disk" where
  "mutate journal sys result change disk =
     withExclusiveFileLock (sys_lock sys) (\<lambda>e. ((result, Some e), disk))
       (mutateLocked journal sys result change disk)"

definition inspect ::
  "Journal \<Rightarrow> read_calls \<Rightarrow> 'r \<Rightarrow> (document \<Rightarrow> 'r \<times> journal_error option) \<Rightarrow> disk
     \<Rightarrow> 'r \<times> journal_error option" where
  "inspect journal calls result view disk =
     (case journal_read journal calls disk of
        Inl e \<Rightarrow> (result, Some e)
      | Inr loaded \<Rightarrow> view loaded)"

text \<open>
  \<open>Open\<close> with the resolved path and the stat of its directory as inputs: the journal value
  holds the limits, and an existing file must be valid.
\<close>

definition Open ::
  "string \<Rightarrow> Limits \<Rightarrow> codec \<Rightarrow> string option \<Rightarrow> (string + bool) \<Rightarrow> read_calls \<Rightarrow> disk
     \<Rightarrow> journal_error + Journal" where
  "Open path limits codec absFailed statParent calls disk =
     bindE (validateLimits limits) (\<lambda>_.
     bindE (failIf (blank path) (JournalError ''message journal path is required'')) (\<lambda>_.
     syscall absFailed (\<lambda>e. Inl (Context ''resolve message journal path'' (IOError e)))
     (case statParent of
        Inl e \<Rightarrow> Inl (Context ''stat message journal directory'' (IOError e))
      | Inr isDir \<Rightarrow>
          bindE (failIf (\<not> isDir) (JournalError ''message journal parent is not a directory'')) (\<lambda>_.
          let journal = \<lparr>j_limits = limits, j_codec = codec\<rparr> in
          bindE (journal_read journal calls disk) (\<lambda>_. Inr journal)))))"

definition emptySession :: "string \<Rightarrow> sessionRecord" where
  "emptySession sessionID =
     \<lparr>sr_SessionID = sessionID, sr_NextSequence = 0, sr_Inputs = Some [], sr_Outputs = Some [],
      sr_Recovery = None\<rparr>"

text \<open>
  \<open>sessionAt\<close> gives the document, extended when the session is created, and the index of
  the session in it: the pointer of the source.
\<close>

definition sessionAt ::
  "document \<Rightarrow> string \<Rightarrow> bool \<Rightarrow> Limits \<Rightarrow> journal_error + (document \<times> nat)" where
  "sessionAt loaded sessionID create limits =
     (case indexOf (\<lambda>session. sr_SessionID session = sessionID) (elems (d_Sessions loaded)) of
        Some index \<Rightarrow> Inr (loaded, index)
      | None \<Rightarrow>
          if \<not> create then Inl ErrNotFound
          else if len (elems (d_Sessions loaded)) = MaxSessions limits then Inl ErrJournalFull
          else Inr (loaded\<lparr>d_Sessions := Some (elems (d_Sessions loaded) @ [emptySession sessionID])\<rparr>,
                    length (elems (d_Sessions loaded))))"

definition sessionRef :: "document \<Rightarrow> nat \<Rightarrow> sessionRecord" where
  "sessionRef loaded index = elems (d_Sessions loaded) ! index"

definition putSession :: "document \<Rightarrow> nat \<Rightarrow> sessionRecord \<Rightarrow> document" where
  "putSession loaded index session =
     loaded\<lparr>d_Sessions := map_option (\<lambda>sessions. sessions[index := session]) (d_Sessions loaded)\<rparr>"

end
