(* ===== verification/Journal_Ops.thy ===== *)
theory Journal_Ops
  imports Journal
begin

text \<open>
  The operations of the message journal, \<^verbatim>\<open>input.go\<close>, \<^verbatim>\<open>output.go\<close> and \<^verbatim>\<open>recovery.go\<close> of
  \<^verbatim>\<open>src/internal/messagejournal\<close>. The closure that an operation hands to \<open>mutate\<close> is a
  function of its own on the document, so that its effect can be stated without the disk.
\<close>

section \<open>Shared parts\<close>

text \<open>The polls of a context: the error of its first, second, ... check.\<close>

type_synonym ctx = "nat \<Rightarrow> string option"

text \<open>A closure on the session that \<open>sessionAt\<close> finds; \<open>onError\<close> maps its error.\<close>

definition onSession ::
  "document \<Rightarrow> string \<Rightarrow> bool \<Rightarrow> Limits \<Rightarrow> 'r \<Rightarrow> (journal_error \<Rightarrow> journal_error) \<Rightarrow>
   (sessionRecord \<Rightarrow> 'r \<times> (journal_error + sessionRecord)) \<Rightarrow> 'r \<times> (journal_error + document)" where
  "onSession loaded sessionID create limits result onError f =
     (case sessionAt loaded sessionID create limits of
        Inl e \<Rightarrow> (result, Inl (onError e))
      | Inr (loaded, index) \<Rightarrow>
          (case f (sessionRef loaded index) of
             (result, Inl e) \<Rightarrow> (result, Inl e)
           | (result, Inr session) \<Rightarrow> (result, Inr (putSession loaded index session))))"

text \<open>The callers' \<^verbatim>\<open>if errors.Is(err, errNoMutation) { return result, nil }\<close>.\<close>

definition noMutation ::
  "('r \<times> journal_error option) \<times> disk \<Rightarrow> ('r \<times> journal_error option) \<times> disk" where
  "noMutation outcome =
     (case outcome of
        ((result, Some e), disk) \<Rightarrow>
          if errorIs e errNoMutation then ((result, None), disk) else outcome
      | _ \<Rightarrow> outcome)"

definition attachmentRecords :: "AttachmentRef list \<Rightarrow> attachmentRecord slice" where
  "attachmentRecords attachments =
     (if attachments = [] then None
      else Some (map (\<lambda>a. \<lparr>ar_Reference = a_Reference a, ar_Size = a_Size a,
                          ar_SHA256 = a_SHA256 a\<rparr>) attachments))"

definition attachmentRefs :: "attachmentRecord slice \<Rightarrow> AttachmentRef slice" where
  "attachmentRefs attachments =
     (if elems attachments = [] then None
      else Some (map (\<lambda>a. \<lparr>a_Reference = ar_Reference a, a_Size = ar_Size a,
                          a_SHA256 = ar_SHA256 a\<rparr>) (elems attachments)))"

definition equalAttachments :: "attachmentRecord slice \<Rightarrow> AttachmentRef list \<Rightarrow> bool" where
  "equalAttachments stored supplied \<longleftrightarrow> stored = attachmentRecords supplied"

definition leaseFromRecord :: "leaseRecord \<Rightarrow> Lease" where
  "leaseFromRecord record =
     (if record = noLease then zeroLease
      else \<lparr>l_Owner = lr_Owner record, l_Until = lr_UntilUnix record\<rparr>)"

definition inputFromRecord :: "string \<Rightarrow> inputRecord \<Rightarrow> Input" where
  "inputFromRecord sessionID record =
     \<lparr>in_MessageID = ir_MessageID record, in_SessionID = sessionID,
      in_Sequence = ir_Sequence record, in_Payload = ir_Payload record,
      in_Attachments = attachmentRefs (ir_Attachments record), in_Phase = ir_Phase record,
      in_Lease = leaseFromRecord (ir_Lease record)\<rparr>"

definition outputFromRecord :: "string \<Rightarrow> outputRecord \<Rightarrow> Output" where
  "outputFromRecord sessionID record =
     \<lparr>out_OperationID = or_OperationID record, out_SessionID = sessionID,
      out_Sequence = or_Sequence record, out_Kind = or_Kind record,
      out_Payload = or_Payload record, out_Phase = or_Phase record,
      out_Receipt = or_Receipt record, out_Lease = leaseFromRecord (or_Lease record)\<rparr>"

definition validateInputIdentity :: "Limits \<Rightarrow> string \<Rightarrow> string \<Rightarrow> journal_error + unit" where
  "validateInputIdentity limits sessionID messageID =
     bindE (validateOpaqueID sessionID (MaxIDBytes limits) ''session id'') (\<lambda>_.
     validateOpaqueID messageID (MaxIDBytes limits) ''message id'')"

definition validateInputValues ::
  "Limits \<Rightarrow> string \<Rightarrow> string \<Rightarrow> string \<Rightarrow> AttachmentRef list \<Rightarrow> journal_error + unit" where
  "validateInputValues limits sessionID messageID payload attachments =
     bindE (validateInputIdentity limits sessionID messageID) (\<lambda>_.
     bindE (failIf (len payload > MaxPayloadBytes limits)
              (JournalError ''input payload exceeds limit'')) (\<lambda>_.
     forE (\<lambda>a. failIf (validateAttachmentRecord a limits \<noteq> Inr ())
                 (JournalError ''invalid input attachment''))
       (elems (attachmentRecords attachments))))"

definition validateOutputValues ::
  "Limits \<Rightarrow> string \<Rightarrow> string \<Rightarrow> string \<Rightarrow> string \<Rightarrow> journal_error + unit" where
  "validateOutputValues limits sessionID operationID kind payload =
     bindE (validateOpaqueID sessionID (MaxIDBytes limits) ''session id'') (\<lambda>_.
     bindE (validateOpaqueID operationID (MaxIDBytes limits) ''operation id'') (\<lambda>_.
     bindE (failIf (blank kind \<or> TrimSpace kind \<noteq> kind \<or> len kind > MaxKindBytes limits)
              (JournalError ''output kind is invalid'')) (\<lambda>_.
     failIf (len payload > MaxPayloadBytes limits)
       (JournalError ''output payload exceeds limit''))))"

definition validateLeaseRequest ::
  "Limits \<Rightarrow> string option \<Rightarrow> string \<Rightarrow> string \<Rightarrow> time \<Rightarrow> duration \<Rightarrow> journal_error + unit" where
  "validateLeaseRequest limits poll sessionID owner now duration =
     bindE (case poll of Some e \<Rightarrow> Inl (CtxError e) | None \<Rightarrow> Inr ()) (\<lambda>_.
     bindE (validateOpaqueID sessionID (MaxIDBytes limits) ''session id'') (\<lambda>_.
     bindE (validateOpaqueID owner (MaxIDBytes limits) ''lease owner'') (\<lambda>_.
     failIf (IsZero now \<or> duration \<le> 0 \<or> duration > MaxLeaseDuration limits \<or>
             UnixNano (now + duration) \<le> 0)
       (JournalError ''lease time or duration is invalid''))))"

text \<open>
  A request that is checked before the journal is touched: the context and the values. An
  error returns the zero result and leaves the disk alone.
\<close>

definition checked ::
  "string option \<Rightarrow> (journal_error + unit) \<Rightarrow> 'r \<Rightarrow> disk \<Rightarrow> ('r \<times> journal_error option) \<times> disk
     \<Rightarrow> ('r \<times> journal_error option) \<times> disk" where
  "checked poll request result disk rest =
     (case poll of
        Some e \<Rightarrow> ((result, Some (CtxError e)), disk)
      | None \<Rightarrow> (case request of Inl e \<Rightarrow> ((result, Some e), disk) | Inr _ \<Rightarrow> rest))"

text \<open>A closure that polls the context before it runs.\<close>

definition polled :: "string option \<Rightarrow> 'r \<Rightarrow> 'r change \<Rightarrow> 'r change" where
  "polled poll result change loaded =
     (case poll of Some e \<Rightarrow> (result, Inl (CtxError e)) | None \<Rightarrow> change loaded)"

section \<open>Inputs\<close>

definition enqueueInput ::
  "Limits \<Rightarrow> string \<Rightarrow> string \<Rightarrow> string \<Rightarrow> AttachmentRef list \<Rightarrow> sessionRecord
     \<Rightarrow> (Input \<times> bool) \<times> (journal_error + sessionRecord)" where
  "enqueueInput limits sessionID messageID payload attachments session =
     (let inputs = elems (sr_Inputs session) in
      case indexOf (\<lambda>record. ir_MessageID record = messageID) inputs of
        Some index \<Rightarrow>
          let record = inputs ! index in
          if ir_Payload record \<noteq> payload \<or> \<not> equalAttachments (ir_Attachments record) attachments
          then ((zeroInput, False), Inl ErrConflict)
          else ((inputFromRecord sessionID record, False), Inl errNoMutation)
      | None \<Rightarrow>
          if len inputs = MaxInputsPerSession limits then ((zeroInput, False), Inl ErrJournalFull)
          else if pendingInputs inputs = MaxPendingInputsPerSession limits
          then ((zeroInput, False), Inl ErrQueueFull)
          else if sr_NextSequence session = maxUint64 then ((zeroInput, False), Inl ErrJournalFull)
          else
            let next = sr_NextSequence session + 1;
                record = \<lparr>ir_MessageID = messageID, ir_Sequence = next, ir_Payload = payload,
                          ir_Attachments = attachmentRecords attachments,
                          ir_Phase = InputPending, ir_Lease = noLease\<rparr>
            in ((inputFromRecord sessionID record, True),
                Inr (session\<lparr>sr_NextSequence := next, sr_Inputs := Some (inputs @ [record])\<rparr>)))"

definition EnqueueInputWithAttachments ::
  "Journal \<Rightarrow> system_calls \<Rightarrow> ctx \<Rightarrow> string \<Rightarrow> string \<Rightarrow> string \<Rightarrow> AttachmentRef list \<Rightarrow> disk
     \<Rightarrow> ((Input \<times> bool) \<times> journal_error option) \<times> disk" where
  "EnqueueInputWithAttachments journal sys ctx sessionID messageID payload attachments disk =
     (let limits = j_limits journal; zero = (zeroInput, False) in
      checked (ctx 0) (validateInputValues limits sessionID messageID payload attachments) zero disk
      (noMutation (mutate journal sys zero
        (polled (ctx 1) zero (\<lambda>loaded.
           onSession loaded sessionID True limits zero id
             (enqueueInput limits sessionID messageID payload attachments))) disk)))"

definition EnqueueInput ::
  "Journal \<Rightarrow> system_calls \<Rightarrow> ctx \<Rightarrow> string \<Rightarrow> string \<Rightarrow> string \<Rightarrow> disk
     \<Rightarrow> ((Input \<times> bool) \<times> journal_error option) \<times> disk" where
  "EnqueueInput journal sys ctx sessionID messageID payload disk =
     EnqueueInputWithAttachments journal sys ctx sessionID messageID payload [] disk"

text \<open>The views of a session: an absent session is empty.\<close>

definition viewSession ::
  "Limits \<Rightarrow> string \<Rightarrow> 'r \<Rightarrow> 'r \<Rightarrow> (sessionRecord \<Rightarrow> 'r \<times> journal_error option) \<Rightarrow> document
     \<Rightarrow> 'r \<times> journal_error option" where
  "viewSession limits sessionID zero absent view loaded =
     (case sessionAt loaded sessionID False limits of
        Inl e \<Rightarrow> if errorIs e ErrNotFound then (absent, None) else (zero, Some e)
      | Inr (loaded, index) \<Rightarrow> view (sessionRef loaded index))"

definition Inputs ::
  "Journal \<Rightarrow> read_calls \<Rightarrow> ctx \<Rightarrow> string \<Rightarrow> disk \<Rightarrow> Input slice \<times> journal_error option" where
  "Inputs journal calls ctx sessionID disk =
     (case ctx 0 of
        Some e \<Rightarrow> (None, Some (CtxError e))
      | None \<Rightarrow>
          (case validateOpaqueID sessionID (MaxIDBytes (j_limits journal)) ''session id'' of
             Inl e \<Rightarrow> (None, Some e)
           | Inr _ \<Rightarrow>
               inspect journal calls None (\<lambda>loaded.
                 case ctx 1 of
                   Some e \<Rightarrow> (None, Some (CtxError e))
                 | None \<Rightarrow>
                     viewSession (j_limits journal) sessionID None (Some []) (\<lambda>session.
                       (Some (map (inputFromRecord sessionID) (elems (sr_Inputs session))), None))
                       loaded) disk))"

text \<open>The loop of \<open>LeaseNextInput\<close> over the inputs.\<close>

fun leaseNextInput ::
  "string \<Rightarrow> string \<Rightarrow> time \<Rightarrow> duration \<Rightarrow> inputRecord list \<Rightarrow> Input \<times> (journal_error + inputRecord list)" where
  "leaseNextInput sessionID owner now duration [] = (zeroInput, Inl ErrNoAvailable)"
| "leaseNextInput sessionID owner now duration (record # records) =
     (let skip = (case leaseNextInput sessionID owner now duration records of
                    (result, Inl e) \<Rightarrow> (result, Inl e)
                  | (result, Inr records) \<Rightarrow> (result, Inr (record # records)))
      in case ir_Phase record of
           InputAccepted \<Rightarrow> skip
         | InputCompleted \<Rightarrow> skip
         | InputTerminalFailed \<Rightarrow> skip
         | InputSkipped \<Rightarrow> skip
         | InputFailed \<Rightarrow> (zeroInput, Inl ErrNoAvailable)
         | InputUnknown \<Rightarrow> (zeroInput, Inl ErrNoAvailable)
         | InputPending \<Rightarrow>
             if lr_Owner (ir_Lease record) \<noteq> [] \<and> UnixNano now < lr_UntilUnix (ir_Lease record)
             then (zeroInput, Inl ErrNoAvailable)
             else
               let record = record\<lparr>ir_Lease := \<lparr>lr_Owner = owner,
                                                lr_UntilUnix = UnixNano (now + duration)\<rparr>\<rparr>
               in (inputFromRecord sessionID record, Inr (record # records))
         | InputPhaseOther _ \<Rightarrow> (zeroInput, Inl ErrInvalidFormat))"

definition recoveryOpen :: "sessionRecord \<Rightarrow> bool" where
  "recoveryOpen session \<longleftrightarrow>
     (case sr_Recovery session of
        None \<Rightarrow> False | Some recovery \<Rightarrow> rr_Phase recovery = inputRecoveryOpen)"

definition leaseInput ::
  "string \<Rightarrow> string \<Rightarrow> time \<Rightarrow> duration \<Rightarrow> sessionRecord \<Rightarrow> Input \<times> (journal_error + sessionRecord)" where
  "leaseInput sessionID owner now duration session =
     (if recoveryOpen session then (zeroInput, Inl ErrNoAvailable)
      else case leaseNextInput sessionID owner now duration (elems (sr_Inputs session)) of
             (result, Inl e) \<Rightarrow> (result, Inl e)
           | (result, Inr records) \<Rightarrow> (result, Inr (session\<lparr>sr_Inputs := Some records\<rparr>)))"

definition LeaseNextInput ::
  "Journal \<Rightarrow> system_calls \<Rightarrow> ctx \<Rightarrow> string \<Rightarrow> string \<Rightarrow> time \<Rightarrow> duration \<Rightarrow> disk
     \<Rightarrow> (Input \<times> journal_error option) \<times> disk" where
  "LeaseNextInput journal sys ctx sessionID owner now duration disk =
     (let limits = j_limits journal in
      case validateLeaseRequest limits (ctx 0) sessionID owner now duration of
        Inl e \<Rightarrow> ((zeroInput, Some e), disk)
      | Inr _ \<Rightarrow>
          mutate journal sys zeroInput (\<lambda>loaded.
            onSession loaded sessionID False limits zeroInput (\<lambda>_. ErrNoAvailable)
              (leaseInput sessionID owner now duration)) disk)"

text \<open>A transition of the input with a given message id.\<close>

type_synonym inputTransition = "sessionRecord \<Rightarrow> inputRecord \<Rightarrow> journal_error + inputRecord"

definition updateInput ::
  "string \<Rightarrow> string \<Rightarrow> inputTransition \<Rightarrow> sessionRecord \<Rightarrow> Input \<times> (journal_error + sessionRecord)" where
  "updateInput sessionID messageID transition session =
     (let inputs = elems (sr_Inputs session) in
      case indexOf (\<lambda>record. ir_MessageID record = messageID) inputs of
        None \<Rightarrow> (zeroInput, Inl ErrNotFound)
      | Some index \<Rightarrow>
          (case transition session (inputs ! index) of
             Inl e \<Rightarrow> (inputFromRecord sessionID (inputs ! index), Inl e)
           | Inr record \<Rightarrow>
               (inputFromRecord sessionID record,
                Inr (session\<lparr>sr_Inputs := Some (inputs[index := record])\<rparr>))))"

definition transitionInputWithSession ::
  "Journal \<Rightarrow> system_calls \<Rightarrow> ctx \<Rightarrow> string \<Rightarrow> string \<Rightarrow> inputTransition \<Rightarrow> disk
     \<Rightarrow> (Input \<times> journal_error option) \<times> disk" where
  "transitionInputWithSession journal sys ctx sessionID messageID transition disk =
     (let limits = j_limits journal in
      checked (ctx 0) (validateInputIdentity limits sessionID messageID) zeroInput disk
      (noMutation (mutate journal sys zeroInput (\<lambda>loaded.
         onSession loaded sessionID False limits zeroInput (\<lambda>_. ErrNotFound)
           (updateInput sessionID messageID transition)) disk)))"

definition transitionInput ::
  "Journal \<Rightarrow> system_calls \<Rightarrow> ctx \<Rightarrow> string \<Rightarrow> string \<Rightarrow> (inputRecord \<Rightarrow> journal_error + inputRecord)
     \<Rightarrow> disk \<Rightarrow> (Input \<times> journal_error option) \<times> disk" where
  "transitionInput journal sys ctx sessionID messageID transition disk =
     transitionInputWithSession journal sys ctx sessionID messageID (\<lambda>_. transition) disk"

definition ownerCheck :: "leaseRecord \<Rightarrow> string \<Rightarrow> journal_error + unit" where
  "ownerCheck lease owner = failIf (lr_Owner lease \<noteq> owner \<or> owner = []) ErrLeaseOwner"

definition acceptTransition :: "string \<Rightarrow> inputTransition" where
  "acceptTransition owner session record =
     bindE (failIf (case sr_Recovery session of
                      None \<Rightarrow> False
                    | Some recovery \<Rightarrow>
                        rr_Phase recovery = inputRecoveryOpen \<and>
                        ir_Sequence record \<le> rr_ThroughSequence recovery) ErrInputSkipped) (\<lambda>_.
     bindE (failIf (ir_Phase record = InputSkipped) ErrInputSkipped) (\<lambda>_.
     bindE (failIf (ir_Phase record = InputAccepted) errNoMutation) (\<lambda>_.
     bindE (failIf (ir_Phase record \<noteq> InputPending) ErrInvalidTransition) (\<lambda>_.
     bindE (ownerCheck (ir_Lease record) owner) (\<lambda>_.
     Inr (record\<lparr>ir_Phase := InputAccepted, ir_Lease := noLease\<rparr>))))))"

definition MarkInputAccepted ::
  "Journal \<Rightarrow> system_calls \<Rightarrow> ctx \<Rightarrow> string \<Rightarrow> string \<Rightarrow> string \<Rightarrow> disk \<Rightarrow> (Input \<times> journal_error option) \<times> disk" where
  "MarkInputAccepted journal sys ctx sessionID messageID owner disk =
     transitionInputWithSession journal sys ctx sessionID messageID (acceptTransition owner) disk"

definition replacePayloadTransition :: "string \<Rightarrow> u64 \<Rightarrow> string \<Rightarrow> inputRecord \<Rightarrow> journal_error + inputRecord" where
  "replacePayloadTransition owner sequence payload record =
     bindE (failIf (ir_Phase record \<noteq> InputPending \<or> ir_Sequence record \<noteq> sequence)
              ErrInvalidTransition) (\<lambda>_.
     bindE (ownerCheck (ir_Lease record) owner) (\<lambda>_.
     bindE (failIf (ir_Payload record = payload) errNoMutation) (\<lambda>_.
     Inr (record\<lparr>ir_Payload := payload\<rparr>))))"

definition ReplaceLeasedInputPayload ::
  "Journal \<Rightarrow> system_calls \<Rightarrow> ctx \<Rightarrow> string \<Rightarrow> string \<Rightarrow> string \<Rightarrow> u64 \<Rightarrow> string \<Rightarrow> disk
     \<Rightarrow> (Input \<times> journal_error option) \<times> disk" where
  "ReplaceLeasedInputPayload journal sys ctx sessionID messageID owner sequence payload disk =
     (if len payload > MaxPayloadBytes (j_limits journal)
      then ((zeroInput, Some (JournalError ''input payload exceeds limit'')), disk)
      else transitionInput journal sys ctx sessionID messageID
             (replacePayloadTransition owner sequence payload) disk)"

definition releaseTransition :: "string \<Rightarrow> inputRecord \<Rightarrow> journal_error + inputRecord" where
  "releaseTransition owner record =
     bindE (failIf (ir_Phase record \<noteq> InputPending) ErrInvalidTransition) (\<lambda>_.
     bindE (failIf (ir_Lease record = noLease) errNoMutation) (\<lambda>_.
     bindE (ownerCheck (ir_Lease record) owner) (\<lambda>_.
     Inr (record\<lparr>ir_Lease := noLease\<rparr>))))"

definition ReleaseInputLease ::
  "Journal \<Rightarrow> system_calls \<Rightarrow> ctx \<Rightarrow> string \<Rightarrow> string \<Rightarrow> string \<Rightarrow> disk \<Rightarrow> (Input \<times> journal_error option) \<times> disk" where
  "ReleaseInputLease journal sys ctx sessionID messageID owner disk =
     transitionInput journal sys ctx sessionID messageID (releaseTransition owner) disk"

text \<open>The closures of \<open>MarkInputDeliveryFailed\<close> and \<open>MarkInputDeliveryUnknown\<close>.\<close>

definition deliveryTransition :: "InputPhase \<Rightarrow> string \<Rightarrow> inputRecord \<Rightarrow> journal_error + inputRecord" where
  "deliveryTransition phase owner record =
     bindE (failIf (ir_Phase record = phase) errNoMutation) (\<lambda>_.
     bindE (failIf (ir_Phase record \<noteq> InputPending) ErrInvalidTransition) (\<lambda>_.
     bindE (ownerCheck (ir_Lease record) owner) (\<lambda>_.
     Inr (record\<lparr>ir_Phase := phase, ir_Lease := noLease\<rparr>))))"

definition MarkInputDeliveryFailed ::
  "Journal \<Rightarrow> system_calls \<Rightarrow> ctx \<Rightarrow> string \<Rightarrow> string \<Rightarrow> string \<Rightarrow> disk \<Rightarrow> (Input \<times> journal_error option) \<times> disk" where
  "MarkInputDeliveryFailed journal sys ctx sessionID messageID owner disk =
     transitionInput journal sys ctx sessionID messageID (deliveryTransition InputFailed owner) disk"

definition MarkInputDeliveryUnknown ::
  "Journal \<Rightarrow> system_calls \<Rightarrow> ctx \<Rightarrow> string \<Rightarrow> string \<Rightarrow> string \<Rightarrow> disk \<Rightarrow> (Input \<times> journal_error option) \<times> disk" where
  "MarkInputDeliveryUnknown journal sys ctx sessionID messageID owner disk =
     transitionInput journal sys ctx sessionID messageID (deliveryTransition InputUnknown owner) disk"

definition outcomeTransition :: "u64 \<Rightarrow> InputPhase \<Rightarrow> InputPhase \<Rightarrow> inputRecord \<Rightarrow> journal_error + inputRecord" where
  "outcomeTransition sequence outcome from record =
     bindE (failIf (sequence \<noteq> 0 \<and> ir_Sequence record \<noteq> sequence) ErrInvalidTransition) (\<lambda>_.
     bindE (failIf (ir_Phase record = InputSkipped) ErrInputSkipped) (\<lambda>_.
     bindE (failIf (ir_Phase record = outcome \<or>
                    ir_Phase record = InputAccepted \<and> outcome = InputUnknown) errNoMutation) (\<lambda>_.
     bindE (failIf (ir_Phase record \<noteq> from \<and>
                    \<not> (sequence \<noteq> 0 \<and> from = InputAccepted \<and>
                       (ir_Phase record = InputUnknown \<or>
                        ir_Phase record = InputFailed \<and> outcome = InputTerminalFailed)))
              ErrInvalidTransition) (\<lambda>_.
     Inr (record\<lparr>ir_Phase := outcome\<rparr>)))))"

definition transitionInputOutcome ::
  "Journal \<Rightarrow> system_calls \<Rightarrow> ctx \<Rightarrow> string \<Rightarrow> string \<Rightarrow> u64 \<Rightarrow> InputPhase \<Rightarrow> InputPhase \<Rightarrow> disk
     \<Rightarrow> (Input \<times> journal_error option) \<times> disk" where
  "transitionInputOutcome journal sys ctx sessionID messageID sequence outcome from disk =
     transitionInput journal sys ctx sessionID messageID (outcomeTransition sequence outcome from) disk"

definition CompleteInput ::
  "Journal \<Rightarrow> system_calls \<Rightarrow> ctx \<Rightarrow> string \<Rightarrow> string \<Rightarrow> disk \<Rightarrow> (Input \<times> journal_error option) \<times> disk" where
  "CompleteInput journal sys ctx sessionID messageID disk =
     transitionInputOutcome journal sys ctx sessionID messageID 0 InputCompleted InputAccepted disk"

definition FailInput ::
  "Journal \<Rightarrow> system_calls \<Rightarrow> ctx \<Rightarrow> string \<Rightarrow> string \<Rightarrow> disk \<Rightarrow> (Input \<times> journal_error option) \<times> disk" where
  "FailInput journal sys ctx sessionID messageID disk =
     transitionInputOutcome journal sys ctx sessionID messageID 0 InputFailed InputAccepted disk"

definition MarkInputUnknown ::
  "Journal \<Rightarrow> system_calls \<Rightarrow> ctx \<Rightarrow> string \<Rightarrow> string \<Rightarrow> disk \<Rightarrow> (Input \<times> journal_error option) \<times> disk" where
  "MarkInputUnknown journal sys ctx sessionID messageID disk =
     transitionInputOutcome journal sys ctx sessionID messageID 0 InputUnknown InputAccepted disk"

definition retryTransition :: "Limits \<Rightarrow> inputTransition" where
  "retryTransition limits session record =
     bindE (failIf (ir_Phase record = InputPending) errNoMutation) (\<lambda>_.
     bindE (failIf (ir_Phase record \<noteq> InputFailed \<and> ir_Phase record \<noteq> InputUnknown)
              ErrInvalidTransition) (\<lambda>_.
     bindE (failIf (pendingInputs (elems (sr_Inputs session)) = MaxPendingInputsPerSession limits)
              ErrQueueFull) (\<lambda>_.
     Inr (record\<lparr>ir_Phase := InputPending, ir_Lease := noLease\<rparr>))))"

definition RetryInput ::
  "Journal \<Rightarrow> system_calls \<Rightarrow> ctx \<Rightarrow> string \<Rightarrow> string \<Rightarrow> disk \<Rightarrow> (Input \<times> journal_error option) \<times> disk" where
  "RetryInput journal sys ctx sessionID messageID disk =
     (let limits = j_limits journal in
      checked (ctx 0) (validateInputIdentity limits sessionID messageID) zeroInput disk
      (noMutation (mutate journal sys zeroInput (\<lambda>loaded.
         onSession loaded sessionID False limits zeroInput (\<lambda>_. ErrNotFound)
           (updateInput sessionID messageID (retryTransition limits))) disk)))"

definition ResolveUnknownInput ::
  "Journal \<Rightarrow> system_calls \<Rightarrow> ctx \<Rightarrow> string \<Rightarrow> string \<Rightarrow> u64 \<Rightarrow> InputPhase \<Rightarrow> disk
     \<Rightarrow> (Input \<times> journal_error option) \<times> disk" where
  "ResolveUnknownInput journal sys ctx sessionID messageID sequence outcome disk =
     (if sequence = 0 \<or> outcome \<noteq> InputCompleted \<and> outcome \<noteq> InputFailed \<and>
                        outcome \<noteq> InputTerminalFailed
      then ((zeroInput, Some ErrInvalidTransition), disk)
      else transitionInputOutcome journal sys ctx sessionID messageID sequence outcome InputUnknown disk)"

definition ResolveAcceptedInput ::
  "Journal \<Rightarrow> system_calls \<Rightarrow> ctx \<Rightarrow> string \<Rightarrow> string \<Rightarrow> u64 \<Rightarrow> InputPhase \<Rightarrow> disk
     \<Rightarrow> (Input \<times> journal_error option) \<times> disk" where
  "ResolveAcceptedInput journal sys ctx sessionID messageID sequence outcome disk =
     (if sequence = 0 \<or> outcome \<noteq> InputCompleted \<and> outcome \<noteq> InputFailed \<and>
                        outcome \<noteq> InputUnknown \<and> outcome \<noteq> InputTerminalFailed
      then ((zeroInput, Some ErrInvalidTransition), disk)
      else transitionInputOutcome journal sys ctx sessionID messageID sequence outcome InputAccepted disk)"

section \<open>Outputs\<close>

definition enqueueOutput ::
  "Limits \<Rightarrow> string \<Rightarrow> string \<Rightarrow> string \<Rightarrow> string \<Rightarrow> sessionRecord
     \<Rightarrow> (Output \<times> bool) \<times> (journal_error + sessionRecord)" where
  "enqueueOutput limits sessionID operationID kind payload session =
     (let outputs = elems (sr_Outputs session) in
      case indexOf (\<lambda>record. or_OperationID record = operationID) outputs of
        Some index \<Rightarrow>
          let record = outputs ! index in
          if or_Kind record \<noteq> kind \<or> or_Payload record \<noteq> payload
          then ((zeroOutput, False), Inl ErrConflict)
          else ((outputFromRecord sessionID record, False), Inl errNoMutation)
      | None \<Rightarrow>
          if len outputs = MaxOutputsPerSession limits \<or> sr_NextSequence session = maxUint64
          then ((zeroOutput, False), Inl ErrJournalFull)
          else
            let next = sr_NextSequence session + 1;
                record = \<lparr>or_OperationID = operationID, or_Sequence = next, or_Kind = kind,
                          or_Payload = payload, or_Phase = OutputPending, or_Receipt = [],
                          or_Lease = noLease\<rparr>
            in ((outputFromRecord sessionID record, True),
                Inr (session\<lparr>sr_NextSequence := next, sr_Outputs := Some (outputs @ [record])\<rparr>)))"

definition EnqueueOutput ::
  "Journal \<Rightarrow> system_calls \<Rightarrow> ctx \<Rightarrow> string \<Rightarrow> string \<Rightarrow> string \<Rightarrow> string \<Rightarrow> disk
     \<Rightarrow> ((Output \<times> bool) \<times> journal_error option) \<times> disk" where
  "EnqueueOutput journal sys ctx sessionID operationID kind payload disk =
     (let limits = j_limits journal; zero = (zeroOutput, False) in
      checked (ctx 0) (validateOutputValues limits sessionID operationID kind payload) zero disk
      (noMutation (mutate journal sys zero
        (polled (ctx 1) zero (\<lambda>loaded.
           onSession loaded sessionID True limits zero id
             (enqueueOutput limits sessionID operationID kind payload))) disk)))"

definition Outputs ::
  "Journal \<Rightarrow> read_calls \<Rightarrow> ctx \<Rightarrow> string \<Rightarrow> disk \<Rightarrow> Output slice \<times> journal_error option" where
  "Outputs journal calls ctx sessionID disk =
     (case ctx 0 of
        Some e \<Rightarrow> (None, Some (CtxError e))
      | None \<Rightarrow>
          (case validateOpaqueID sessionID (MaxIDBytes (j_limits journal)) ''session id'' of
             Inl e \<Rightarrow> (None, Some e)
           | Inr _ \<Rightarrow>
               inspect journal calls None (\<lambda>loaded.
                 case ctx 1 of
                   Some e \<Rightarrow> (None, Some (CtxError e))
                 | None \<Rightarrow>
                     viewSession (j_limits journal) sessionID None (Some []) (\<lambda>session.
                       (Some (map (outputFromRecord sessionID) (elems (sr_Outputs session))), None))
                       loaded) disk))"

text \<open>The loop of \<open>leaseNextOutput\<close>: the leased output and the outputs, or \<open>None\<close> when none is
  available.\<close>

fun leaseNextOutput ::
  "string \<Rightarrow> string \<Rightarrow> time \<Rightarrow> duration \<Rightarrow> outputRecord list
     \<Rightarrow> journal_error + (Output \<times> outputRecord list) option" where
  "leaseNextOutput sessionID owner now duration [] = Inr None"
| "leaseNextOutput sessionID owner now duration (record # records) =
     (let skip = bindE (leaseNextOutput sessionID owner now duration records) (\<lambda>leased.
                   Inr (map_option (\<lambda>(result, records). (result, record # records)) leased))
      in case or_Phase record of
           OutputConfirmed \<Rightarrow> skip
         | OutputFailed \<Rightarrow> skip
         | OutputUnknown \<Rightarrow> skip
         | OutputSuperseded \<Rightarrow> skip
         | OutputPending \<Rightarrow>
             if lr_Owner (or_Lease record) \<noteq> [] \<and> UnixNano now < lr_UntilUnix (or_Lease record)
             then Inr None
             else
               let record = record\<lparr>or_Lease := \<lparr>lr_Owner = owner,
                                                lr_UntilUnix = UnixNano (now + duration)\<rparr>\<rparr>
               in Inr (Some (outputFromRecord sessionID record, record # records))
         | OutputPhaseOther _ \<Rightarrow> Inl ErrInvalidFormat)"

text \<open>The closure of \<open>LeaseNextOutputForSessions\<close>: the sessions in the caller's order.\<close>

fun leaseOutputs ::
  "Limits \<Rightarrow> string \<Rightarrow> time \<Rightarrow> duration \<Rightarrow> string list \<Rightarrow> Output change" where
  "leaseOutputs limits owner now duration [] loaded = (zeroOutput, Inl ErrNoAvailable)"
| "leaseOutputs limits owner now duration (sessionID # sessionIDs) loaded =
     (case sessionAt loaded sessionID False limits of
        Inl e \<Rightarrow>
          if errorIs e ErrNotFound then leaseOutputs limits owner now duration sessionIDs loaded
          else (zeroOutput, Inl e)
      | Inr (loaded, index) \<Rightarrow>
          let session = sessionRef loaded index in
          (case leaseNextOutput sessionID owner now duration (elems (sr_Outputs session)) of
             Inl e \<Rightarrow> (zeroOutput, Inl e)
           | Inr None \<Rightarrow> leaseOutputs limits owner now duration sessionIDs loaded
           | Inr (Some (result, records)) \<Rightarrow>
               (result, Inr (putSession loaded index (session\<lparr>sr_Outputs := Some records\<rparr>)))))"

definition validateLeaseOutputsRequest ::
  "Limits \<Rightarrow> string option \<Rightarrow> string list \<Rightarrow> string \<Rightarrow> time \<Rightarrow> duration \<Rightarrow> journal_error + unit" where
  "validateLeaseOutputsRequest limits poll sessionIDs owner now duration =
     (case sessionIDs of
        [] \<Rightarrow> Inl ErrNoAvailable
      | sessionID # sessionIDs \<Rightarrow>
          bindE (validateLeaseRequest limits poll sessionID owner now duration) (\<lambda>_.
          forE (\<lambda>sessionID. validateOpaqueID sessionID (MaxIDBytes limits) ''session id'') sessionIDs))"

definition LeaseNextOutputForSessions ::
  "Journal \<Rightarrow> system_calls \<Rightarrow> ctx \<Rightarrow> string list \<Rightarrow> string \<Rightarrow> time \<Rightarrow> duration \<Rightarrow> disk
     \<Rightarrow> (Output \<times> journal_error option) \<times> disk" where
  "LeaseNextOutputForSessions journal sys ctx sessionIDs owner now duration disk =
     (let limits = j_limits journal in
      case validateLeaseOutputsRequest limits (ctx 0) sessionIDs owner now duration of
        Inl e \<Rightarrow> ((zeroOutput, Some e), disk)
      | Inr _ \<Rightarrow> mutate journal sys zeroOutput (leaseOutputs limits owner now duration sessionIDs) disk)"

definition LeaseNextOutput ::
  "Journal \<Rightarrow> system_calls \<Rightarrow> ctx \<Rightarrow> string \<Rightarrow> string \<Rightarrow> time \<Rightarrow> duration \<Rightarrow> disk
     \<Rightarrow> (Output \<times> journal_error option) \<times> disk" where
  "LeaseNextOutput journal sys ctx sessionID owner now duration disk =
     LeaseNextOutputForSessions journal sys ctx [sessionID] owner now duration disk"

definition superseded :: "string \<Rightarrow> u64 \<Rightarrow> string list \<Rightarrow> outputRecord \<Rightarrow> bool" where
  "superseded keepOperationID keepSequence kinds record \<longleftrightarrow>
     or_OperationID record \<noteq> keepOperationID \<and>
     \<not> (keepSequence \<le> or_Sequence record \<or> or_Phase record \<noteq> OutputPending \<or>
        lr_Owner (or_Lease record) \<noteq> [] \<or> or_Kind record \<notin> set kinds)"

definition supersedeOutputs ::
  "string \<Rightarrow> string \<Rightarrow> string list \<Rightarrow> sessionRecord \<Rightarrow> Output list \<times> (journal_error + sessionRecord)" where
  "supersedeOutputs sessionID keepOperationID kinds session =
     (let outputs = elems (sr_Outputs session);
          keepSequence = (case indexOf (\<lambda>record. or_OperationID record = keepOperationID) outputs of
                            None \<Rightarrow> 0 | Some index \<Rightarrow> or_Sequence (outputs ! index));
          change = (\<lambda>record. record\<lparr>or_Phase := OutputSuperseded\<rparr>);
          hit = superseded keepOperationID keepSequence kinds;
          result = map (\<lambda>record. outputFromRecord sessionID (change record)) (filter hit outputs)
      in if keepSequence = 0 then ([], Inl ErrNotFound)
         else if result = [] then ([], Inl errNoMutation)
         else (result, Inr (session\<lparr>sr_Outputs :=
                 Some (map (\<lambda>record. if hit record then change record else record) outputs)\<rparr>)))"

definition validateSupersedeRequest ::
  "Limits \<Rightarrow> string \<Rightarrow> string \<Rightarrow> string list \<Rightarrow> journal_error + unit" where
  "validateSupersedeRequest limits sessionID keepOperationID kinds =
     bindE (validateOpaqueID sessionID (MaxIDBytes limits) ''session id'') (\<lambda>_.
     bindE (validateOpaqueID keepOperationID (MaxIDBytes limits) ''operation id'') (\<lambda>_.
     forE (\<lambda>kind. failIf (blank kind \<or> kind \<noteq> TrimSpace kind \<or> len kind > MaxKindBytes limits)
                    (JournalError ''output kind is invalid'')) kinds))"

definition SupersedePendingOutputs ::
  "Journal \<Rightarrow> system_calls \<Rightarrow> ctx \<Rightarrow> string \<Rightarrow> string \<Rightarrow> string list \<Rightarrow> disk
     \<Rightarrow> (Output list \<times> journal_error option) \<times> disk" where
  "SupersedePendingOutputs journal sys ctx sessionID keepOperationID kinds disk =
     (let limits = j_limits journal in
      checked (ctx 0) (validateSupersedeRequest limits sessionID keepOperationID kinds) [] disk
      (if kinds = [] then (([], None), disk)
       else noMutation (mutate journal sys [] (\<lambda>loaded.
              onSession loaded sessionID False limits [] id
                (supersedeOutputs sessionID keepOperationID kinds)) disk)))"

definition updateOutput ::
  "string \<Rightarrow> string \<Rightarrow> (outputRecord \<Rightarrow> journal_error + outputRecord) \<Rightarrow> sessionRecord
     \<Rightarrow> Output \<times> (journal_error + sessionRecord)" where
  "updateOutput sessionID operationID transition session =
     (let outputs = elems (sr_Outputs session) in
      case indexOf (\<lambda>record. or_OperationID record = operationID) outputs of
        None \<Rightarrow> (zeroOutput, Inl ErrNotFound)
      | Some index \<Rightarrow>
          (case transition (outputs ! index) of
             Inl e \<Rightarrow> (outputFromRecord sessionID (outputs ! index), Inl e)
           | Inr record \<Rightarrow>
               (outputFromRecord sessionID record,
                Inr (session\<lparr>sr_Outputs := Some (outputs[index := record])\<rparr>))))"

definition validateOutputIdentity :: "Limits \<Rightarrow> string \<Rightarrow> string \<Rightarrow> journal_error + unit" where
  "validateOutputIdentity limits sessionID operationID =
     bindE (validateOpaqueID sessionID (MaxIDBytes limits) ''session id'') (\<lambda>_.
     validateOpaqueID operationID (MaxIDBytes limits) ''operation id'')"

definition transitionOutput ::
  "Journal \<Rightarrow> system_calls \<Rightarrow> ctx \<Rightarrow> string \<Rightarrow> string \<Rightarrow> (outputRecord \<Rightarrow> journal_error + outputRecord)
     \<Rightarrow> disk \<Rightarrow> (Output \<times> journal_error option) \<times> disk" where
  "transitionOutput journal sys ctx sessionID operationID transition disk =
     (let limits = j_limits journal in
      checked (ctx 0) (validateOutputIdentity limits sessionID operationID) zeroOutput disk
      (noMutation (mutate journal sys zeroOutput (\<lambda>loaded.
         onSession loaded sessionID False limits zeroOutput (\<lambda>_. ErrNotFound)
           (updateOutput sessionID operationID transition)) disk)))"

definition confirmTransition :: "string \<Rightarrow> string \<Rightarrow> outputRecord \<Rightarrow> journal_error + outputRecord" where
  "confirmTransition owner receipt record =
     (if or_Phase record = OutputConfirmed then
        (if or_Receipt record \<noteq> receipt then Inl ErrConflict else Inl errNoMutation)
      else
        bindE (failIf (or_Phase record \<noteq> OutputPending) ErrInvalidTransition) (\<lambda>_.
        bindE (ownerCheck (or_Lease record) owner) (\<lambda>_.
        Inr (record\<lparr>or_Phase := OutputConfirmed, or_Receipt := receipt, or_Lease := noLease\<rparr>))))"

definition ConfirmOutput ::
  "Journal \<Rightarrow> system_calls \<Rightarrow> ctx \<Rightarrow> string \<Rightarrow> string \<Rightarrow> string \<Rightarrow> string \<Rightarrow> disk
     \<Rightarrow> (Output \<times> journal_error option) \<times> disk" where
  "ConfirmOutput journal sys ctx sessionID operationID owner receipt disk =
     (if blank receipt \<or> len receipt > MaxReceiptBytes (j_limits journal)
      then ((zeroOutput, Some (JournalError ''output receipt is invalid'')), disk)
      else transitionOutput journal sys ctx sessionID operationID (confirmTransition owner receipt) disk)"

definition finishTransition :: "OutputPhase \<Rightarrow> string \<Rightarrow> outputRecord \<Rightarrow> journal_error + outputRecord" where
  "finishTransition phase owner record =
     bindE (failIf (or_Phase record = phase) errNoMutation) (\<lambda>_.
     bindE (failIf (or_Phase record \<noteq> OutputPending) ErrInvalidTransition) (\<lambda>_.
     bindE (ownerCheck (or_Lease record) owner) (\<lambda>_.
     Inr (record\<lparr>or_Phase := phase, or_Lease := noLease\<rparr>))))"

definition finishOutput ::
  "Journal \<Rightarrow> system_calls \<Rightarrow> ctx \<Rightarrow> string \<Rightarrow> string \<Rightarrow> string \<Rightarrow> OutputPhase \<Rightarrow> disk
     \<Rightarrow> (Output \<times> journal_error option) \<times> disk" where
  "finishOutput journal sys ctx sessionID operationID owner phase disk =
     transitionOutput journal sys ctx sessionID operationID (finishTransition phase owner) disk"

definition MarkOutputFailed ::
  "Journal \<Rightarrow> system_calls \<Rightarrow> ctx \<Rightarrow> string \<Rightarrow> string \<Rightarrow> string \<Rightarrow> disk \<Rightarrow> (Output \<times> journal_error option) \<times> disk" where
  "MarkOutputFailed journal sys ctx sessionID operationID owner disk =
     finishOutput journal sys ctx sessionID operationID owner OutputFailed disk"

definition MarkOutputUnknown ::
  "Journal \<Rightarrow> system_calls \<Rightarrow> ctx \<Rightarrow> string \<Rightarrow> string \<Rightarrow> string \<Rightarrow> disk \<Rightarrow> (Output \<times> journal_error option) \<times> disk" where
  "MarkOutputUnknown journal sys ctx sessionID operationID owner disk =
     finishOutput journal sys ctx sessionID operationID owner OutputUnknown disk"

definition retryOutputTransition :: "outputRecord \<Rightarrow> journal_error + outputRecord" where
  "retryOutputTransition record =
     bindE (failIf (or_Phase record = OutputPending) errNoMutation) (\<lambda>_.
     bindE (failIf (or_Phase record \<noteq> OutputFailed \<and> or_Phase record \<noteq> OutputUnknown)
              ErrInvalidTransition) (\<lambda>_.
     Inr (record\<lparr>or_Phase := OutputPending, or_Lease := noLease\<rparr>)))"

definition RetryOutput ::
  "Journal \<Rightarrow> system_calls \<Rightarrow> ctx \<Rightarrow> string \<Rightarrow> string \<Rightarrow> disk \<Rightarrow> (Output \<times> journal_error option) \<times> disk" where
  "RetryOutput journal sys ctx sessionID operationID disk =
     transitionOutput journal sys ctx sessionID operationID retryOutputTransition disk"

section \<open>Input recovery\<close>

definition unresolvedPhase :: "InputPhase \<Rightarrow> bool" where
  "unresolvedPhase phase \<longleftrightarrow> phase \<in> {InputPending, InputAccepted, InputFailed, InputUnknown}"

definition hasUnresolvedInputs :: "inputRecord list \<Rightarrow> bool" where
  "hasUnresolvedInputs inputs = list_ex (\<lambda>input. unresolvedPhase (ir_Phase input)) inputs"

fun blockedSuccessorFrom :: "u64 \<Rightarrow> inputRecord list \<Rightarrow> bool" where
  "blockedSuccessorFrom blockedSequence [] = False"
| "blockedSuccessorFrom blockedSequence (input # inputs) =
     (if blockedSequence = 0 \<and> (ir_Phase input = InputFailed \<or> ir_Phase input = InputUnknown)
      then blockedSuccessorFrom (ir_Sequence input) inputs
      else if blockedSequence \<noteq> 0 \<and> blockedSequence < ir_Sequence input \<and>
              ir_Phase input = InputPending
      then True
      else blockedSuccessorFrom blockedSequence inputs)"

definition hasBlockedSuccessor :: "inputRecord list \<Rightarrow> bool" where
  "hasBlockedSuccessor inputs = blockedSuccessorFrom 0 inputs"

definition openRecovery :: "string \<Rightarrow> bool \<Rightarrow> sessionRecord \<Rightarrow> journal_error + sessionRecord" where
  "openRecovery token legacyBlockedOnly session =
     (let inputs = elems (sr_Inputs session) in
      if \<not> hasUnresolvedInputs inputs \<or> legacyBlockedOnly \<and> \<not> hasBlockedSuccessor inputs
      then Inl errNoMutation
      else Inr (session\<lparr>sr_Recovery :=
             Some \<lparr>rr_Token = token, rr_ThroughSequence = sr_NextSequence session,
                   rr_Phase = inputRecoveryOpen\<rparr>\<rparr>))"

definition beginRecovery ::
  "string \<Rightarrow> bool \<Rightarrow> sessionRecord \<Rightarrow> bool \<times> (journal_error + sessionRecord)" where
  "beginRecovery token legacyBlockedOnly session =
     (let fresh = (case openRecovery token legacyBlockedOnly session of
                     Inl e \<Rightarrow> (False, Inl e) | Inr session \<Rightarrow> (True, Inr session))
      in case sr_Recovery session of
           None \<Rightarrow> fresh
         | Some recovery \<Rightarrow>
             if rr_Token recovery = token then (True, Inl errNoMutation)
             else if rr_Phase recovery = inputRecoveryOpen
             then (True, Inr (session\<lparr>sr_Recovery := Some (recovery\<lparr>rr_Token := token\<rparr>)\<rparr>))
             else fresh)"

definition validateRecoveryRequest :: "Limits \<Rightarrow> string \<Rightarrow> string \<Rightarrow> journal_error + unit" where
  "validateRecoveryRequest limits sessionID token =
     bindE (validateOpaqueID sessionID (MaxIDBytes limits) ''session id'') (\<lambda>_.
     validateOpaqueID token (MaxIDBytes limits) ''input recovery token'')"

definition BeginInputRecovery ::
  "Journal \<Rightarrow> system_calls \<Rightarrow> ctx \<Rightarrow> string \<Rightarrow> string \<Rightarrow> bool \<Rightarrow> disk
     \<Rightarrow> (bool \<times> journal_error option) \<times> disk" where
  "BeginInputRecovery journal sys ctx sessionID token legacyBlockedOnly disk =
     (let limits = j_limits journal in
      checked (ctx 0) (validateRecoveryRequest limits sessionID token) False disk
      (noMutation (mutate journal sys False
        (polled (ctx 1) False (\<lambda>loaded.
           onSession loaded sessionID False limits False
             (\<lambda>e. if errorIs e ErrNotFound then errNoMutation else e)
             (beginRecovery token legacyBlockedOnly))) disk)))"

definition InputRecoveryOpen ::
  "Journal \<Rightarrow> read_calls \<Rightarrow> ctx \<Rightarrow> string \<Rightarrow> disk \<Rightarrow> bool \<times> journal_error option" where
  "InputRecoveryOpen journal calls ctx sessionID disk =
     (case ctx 0 of
        Some e \<Rightarrow> (False, Some (CtxError e))
      | None \<Rightarrow>
          (case validateOpaqueID sessionID (MaxIDBytes (j_limits journal)) ''session id'' of
             Inl e \<Rightarrow> (False, Some e)
           | Inr _ \<Rightarrow>
               inspect journal calls False
                 (viewSession (j_limits journal) sessionID False False
                    (\<lambda>session. (recoveryOpen session, None))) disk))"

definition BackupRecords ::
  "Journal \<Rightarrow> read_calls \<Rightarrow> ctx \<Rightarrow> string \<Rightarrow> disk
     \<Rightarrow> (Input slice \<times> Output slice) \<times> journal_error option" where
  "BackupRecords journal calls ctx sessionID disk =
     (case ctx 0 of
        Some e \<Rightarrow> ((None, None), Some (CtxError e))
      | None \<Rightarrow>
          (case validateOpaqueID sessionID (MaxIDBytes (j_limits journal)) ''session id'' of
             Inl e \<Rightarrow> ((None, None), Some e)
           | Inr _ \<Rightarrow>
               inspect journal calls (None, None) (\<lambda>loaded.
                 case ctx 1 of
                   Some e \<Rightarrow> ((None, None), Some (CtxError e))
                 | None \<Rightarrow>
                     viewSession (j_limits journal) sessionID (None, None) (Some [], Some []) (\<lambda>session.
                       if recoveryOpen session then ((None, None), Some ErrRecoveryInProgress)
                       else ((Some (map (inputFromRecord sessionID) (elems (sr_Inputs session))),
                              Some (map (outputFromRecord sessionID) (elems (sr_Outputs session)))),
                             None)) loaded) disk))"

text \<open>The loops of the two commits over the inputs up to the boundary.\<close>

fun skipInputs :: "u64 \<Rightarrow> inputRecord list \<Rightarrow> journal_error + inputRecord list" where
  "skipInputs through [] = Inr []"
| "skipInputs through (record # records) =
     (if through < ir_Sequence record then Inr (record # records)
      else
        bindE (case ir_Phase record of
                 InputPhaseOther _ \<Rightarrow> Inl ErrInvalidFormat
               | phase \<Rightarrow>
                   Inr (if unresolvedPhase phase
                        then record\<lparr>ir_Phase := InputSkipped, ir_Lease := noLease\<rparr> else record)) (\<lambda>record.
        bindE (skipInputs through records) (\<lambda>records. Inr (record # records))))"

fun attachInputs :: "u64 \<Rightarrow> inputRecord list \<Rightarrow> journal_error + inputRecord list" where
  "attachInputs through [] = Inr []"
| "attachInputs through (record # records) =
     (if through < ir_Sequence record then Inr (record # records)
      else
        bindE (case ir_Phase record of
                 InputPending \<Rightarrow>
                   Inr (if lr_Owner (ir_Lease record) \<noteq> []
                        then record\<lparr>ir_Phase := InputSkipped, ir_Lease := noLease\<rparr> else record)
               | InputFailed \<Rightarrow> Inr (record\<lparr>ir_Phase := InputSkipped, ir_Lease := noLease\<rparr>)
               | InputUnknown \<Rightarrow> Inr (record\<lparr>ir_Phase := InputSkipped, ir_Lease := noLease\<rparr>)
               | InputPhaseOther _ \<Rightarrow> Inl ErrInvalidFormat
               | _ \<Rightarrow> Inr record) (\<lambda>record.
        bindE (attachInputs through records) (\<lambda>records. Inr (record # records))))"

definition commitRecovery ::
  "inputRecoveryPhase \<Rightarrow> (u64 \<Rightarrow> inputRecord list \<Rightarrow> journal_error + inputRecord list) \<Rightarrow> string
     \<Rightarrow> sessionRecord \<Rightarrow> unit \<times> (journal_error + sessionRecord)" where
  "commitRecovery phase settle token session =
     ((), case sr_Recovery session of
            None \<Rightarrow> Inl ErrNotFound
          | Some recovery \<Rightarrow>
              bindE (failIf (rr_Token recovery \<noteq> token) ErrConflict) (\<lambda>_.
              bindE (failIf (rr_Phase recovery = phase) errNoMutation) (\<lambda>_.
              bindE (failIf (rr_Phase recovery \<noteq> inputRecoveryOpen) ErrInvalidFormat) (\<lambda>_.
              bindE (settle (rr_ThroughSequence recovery) (elems (sr_Inputs session))) (\<lambda>records.
              Inr (session\<lparr>sr_Inputs := Some records,
                           sr_Recovery := Some (recovery\<lparr>rr_Phase := phase\<rparr>)\<rparr>))))))"

definition commitInputRecovery ::
  "inputRecoveryPhase \<Rightarrow> (u64 \<Rightarrow> inputRecord list \<Rightarrow> journal_error + inputRecord list)
     \<Rightarrow> Journal \<Rightarrow> system_calls \<Rightarrow> ctx \<Rightarrow> string \<Rightarrow> string \<Rightarrow> disk \<Rightarrow> (unit \<times> journal_error option) \<times> disk" where
  "commitInputRecovery phase settle journal sys ctx sessionID token disk =
     (let limits = j_limits journal in
      checked (ctx 0) (validateRecoveryRequest limits sessionID token) () disk
      (noMutation (mutate journal sys ()
        (polled (ctx 1) () (\<lambda>loaded.
           onSession loaded sessionID False limits () (\<lambda>_. ErrNotFound)
             (commitRecovery phase settle token))) disk)))"

definition CommitInputRecoverySkip ::
  "Journal \<Rightarrow> system_calls \<Rightarrow> ctx \<Rightarrow> string \<Rightarrow> string \<Rightarrow> disk \<Rightarrow> (unit \<times> journal_error option) \<times> disk" where
  "CommitInputRecoverySkip journal sys ctx sessionID token disk =
     commitInputRecovery inputRecoveryCommitted skipInputs journal sys ctx sessionID token disk"

definition CommitInputRecoveryAttach ::
  "Journal \<Rightarrow> system_calls \<Rightarrow> ctx \<Rightarrow> string \<Rightarrow> string \<Rightarrow> disk \<Rightarrow> (unit \<times> journal_error option) \<times> disk" where
  "CommitInputRecoveryAttach journal sys ctx sessionID token disk =
     commitInputRecovery inputRecoveryAttached attachInputs journal sys ctx sessionID token disk"

end
