(* ===== verification/Journal_Valid.thy ===== *)
theory Journal_Valid
  imports Journal_Ops
begin

text \<open>
  What the validation of the journal accepts, as conditions on the sessions and their two
  lanes; the changes of a session that keep it valid; and the document as a map of sessions.
\<close>

section \<open>What validation accepts\<close>

text \<open>
  A lane is one direction of a session: a list of records that validation accepts when each
  record is well formed, no identity is repeated and the sequences increase. The inputs and
  the outputs are the two lanes; their validators satisfy the two laws below.
\<close>

locale lane =
  fixes ident :: "'r \<Rightarrow> string"
    and sequence :: "'r \<Rightarrow> u64"
    and item_ok :: "'r \<Rightarrow> bool"
    and validate :: "string set \<Rightarrow> u64 \<Rightarrow> 'r list \<Rightarrow> journal_error + unit"
  assumes validate_Nil: "validate seen prev [] = Inr ()"
    and validate_Cons: "validate seen prev (x # xs) = Inr () \<longleftrightarrow>
      item_ok x \<and> ident x \<notin> seen \<and> prev < sequence x \<and>
      validate (insert (ident x) seen) (sequence x) xs = Inr ()"
begin

lemma validate_from:
  "validate seen prev xs = Inr () \<longleftrightarrow>
     (\<forall>x\<in>set xs. item_ok x) \<and> distinct (map ident xs) \<and> ident ` set xs \<inter> seen = {} \<and>
     sorted_wrt (<) (prev # map sequence xs)"
proof (induction xs arbitrary: seen prev)
  case Nil
  show ?case by (simp add: validate_Nil)
next
  case (Cons x xs)
  show ?case by (auto simp: validate_Cons Cons.IH intro: less_trans)
qed

lemma validate_iff:
  "validate {} 0 xs = Inr () \<longleftrightarrow>
     (\<forall>x\<in>set xs. item_ok x \<and> 0 < sequence x) \<and> distinct (map ident xs) \<and>
     sorted_wrt (<) (map sequence xs)"
  by (auto simp: validate_from)

lemma validate_append:
  assumes "validate {} 0 xs = Inr ()" and "item_ok x" and "0 < sequence x"
    and "\<forall>y\<in>set xs. ident y \<noteq> ident x" and "\<forall>y\<in>set xs. sequence y < sequence x"
  shows "validate {} 0 (xs @ [x]) = Inr ()"
  using assms by (auto simp: validate_iff sorted_wrt_append)

lemma validate_edit:
  assumes "validate {} 0 xs = Inr ()"
    and "list_all2 (\<lambda>x y. ident y = ident x \<and> sequence y = sequence x) xs ys"
    and "\<forall>y\<in>set ys. item_ok y"
  shows "validate {} 0 ys = Inr ()"
proof -
  from assms(2) have "map ident ys = map ident xs" "map sequence ys = map sequence xs"
    by (induction rule: list_all2_induct) auto
  moreover have "\<forall>y\<in>set ys. 0 < sequence y"
  proof -
    have "sequence ` set ys = sequence ` set xs" by (metis calculation(2) image_set)
    moreover have "\<forall>w\<in>sequence ` set xs. 0 < w" using assms(1) by (simp add: validate_iff)
    ultimately have "\<forall>w\<in>sequence ` set ys. 0 < w" by metis
    then show ?thesis by simp
  qed
  ultimately show ?thesis
    using assms(1,3) by (simp add: validate_iff)
qed

lemma validate_sequence_inj:
  assumes "validate {} 0 xs = Inr ()" and "x \<in> set xs" and "y \<in> set xs"
    and "sequence x = sequence y"
  shows "x = y"
proof -
  from assms(1) have "distinct (map sequence xs)"
    by (simp add: validate_iff strict_sorted_iff)
  with assms(2-4) show ?thesis by (auto simp: distinct_map dest: inj_onD)
qed

end

definition validID :: "Limits \<Rightarrow> string \<Rightarrow> bool" where
  "validID limits v \<longleftrightarrow> v \<noteq> [] \<and> TrimSpace v = v \<and> len v \<le> MaxIDBytes limits"

definition inputOk :: "Limits \<Rightarrow> inputRecord \<Rightarrow> bool" where
  "inputOk limits r \<longleftrightarrow>
     validID limits (ir_MessageID r) \<and> len (ir_Payload r) \<le> MaxPayloadBytes limits \<and>
     (\<forall>a\<in>set (elems (ir_Attachments r)). validateAttachmentRecord a limits = Inr ()) \<and>
     validateInputPhase r limits = Inr ()"

definition outputOk :: "Limits \<Rightarrow> outputRecord \<Rightarrow> bool" where
  "outputOk limits r \<longleftrightarrow>
     validID limits (or_OperationID r) \<and> len (or_Payload r) \<le> MaxPayloadBytes limits \<and>
     \<not> blank (or_Kind r) \<and> len (or_Kind r) \<le> MaxKindBytes limits \<and>
     validateOutputPhase r limits = Inr ()"

lemma validateOpaqueID_Inr [result_simps]:
  "validateOpaqueID v (MaxIDBytes limits) name = Inr u \<longleftrightarrow> validID limits v"
  by (auto simp: validateOpaqueID_def validID_def result_simps)

interpretation inputs: lane ir_MessageID ir_Sequence "inputOk limits" "validateInputs limits" for limits
  by unfold_locales (auto simp: inputOk_def result_simps not_le)

interpretation outputs: lane or_OperationID or_Sequence "outputOk limits" "validateOutputs limits" for limits
  by unfold_locales (auto simp: outputOk_def result_simps not_le)

text \<open>The sequences of both lanes together are the numbers from one to the next sequence.\<close>

lemma numbers_sorted:
  assumes "k < 2 ^ 64"
  shows "sorted_wrt (<) (map (\<lambda>i. word_of_nat (Suc i) :: u64) [0..<k])"
    and "set (map (\<lambda>i. word_of_nat (Suc i) :: u64) [0..<k]) = {0<..word_of_nat k}"
proof -
  have un: "unat (word_of_nat j :: u64) = j" if "j \<le> k" for j
    using that assms by (simp add: unat_of_nat take_bit_nat_eq_self)
  then show "sorted_wrt (<) (map (\<lambda>i. word_of_nat (Suc i) :: u64) [0..<k])"
    by (simp add: sorted_wrt_iff_nth_less word_less_nat_alt del: of_nat_Suc)
  show "set (map (\<lambda>i. word_of_nat (Suc i) :: u64) [0..<k]) = {0<..word_of_nat k}"
  proof (intro equalityI subsetI)
    fix w :: u64
    assume "w \<in> set (map (\<lambda>i. word_of_nat (Suc i)) [0..<k])"
    then show "w \<in> {0<..word_of_nat k}"
      using un by (auto simp: word_less_nat_alt word_le_nat_alt simp del: of_nat_Suc)
  next
    fix w :: u64
    assume w: "w \<in> {0<..word_of_nat k}"
    then have "0 < unat w" "unat w \<le> k" by (auto simp: word_less_nat_alt word_le_nat_alt un)
    then have "word_of_nat (Suc (unat w - 1)) = w" and "unat w - 1 \<in> set [0..<k]"
      by (simp_all del: of_nat_Suc)
    then show "w \<in> set (map (\<lambda>i. word_of_nat (Suc i)) [0..<k])"
      by (metis (no_types, lifting) image_eqI set_map)
  qed
qed

lemma enumerate_all_iff:
  "(\<forall>p\<in>set (enumerate 0 ys). snd p = f (fst p)) \<longleftrightarrow> ys = map f [0..<length ys]"
proof -
  have "set (enumerate 0 ys) = (\<lambda>i. (i, ys ! i)) ` {..<length ys}"
    by (auto simp: in_set_enumerate_eq image_iff)
  then have "(\<forall>p\<in>set (enumerate 0 ys). snd p = f (fst p)) \<longleftrightarrow> (\<forall>i<length ys. ys ! i = f i)"
    by simp blast
  also have "\<dots> \<longleftrightarrow> ys = map f [0..<length ys]"
    using list_eq_iff_nth_eq [of ys "map f [0..<length ys]"] by simp
  finally show ?thesis .
qed

lemma validateSequences_Inr:
  assumes "length xs < 2 ^ 64"
  shows "validateSequences n xs = Inr u \<longleftrightarrow> length xs = unat n \<and> set xs = {0<..n}"
proof -
  let ?ns = "map (\<lambda>i. word_of_nat (Suc i) :: u64) [0..<length xs]"
  have "validateSequences n xs = Inr u \<longleftrightarrow> word_of_nat (length xs) = n \<and> sort xs = ?ns"
    using enumerate_all_iff [of "sort xs" "\<lambda>i. word_of_nat (Suc i)"]
    by (simp add: validateSequences_def bindE_Inr failIf_Inr forE_Inr Let_def split_beta del: of_nat_Suc)
  also have "word_of_nat (length xs) = n \<longleftrightarrow> length xs = unat n"
    using assms by (auto simp: unat_of_nat take_bit_nat_eq_self)
  also have "length xs = unat n \<and> sort xs = ?ns \<longleftrightarrow> length xs = unat n \<and> set xs = {0<..n}"
  proof (cases "length xs = unat n")
    case True
    note ns = numbers_sorted [OF assms]
    have dns: "sorted ?ns" "distinct ?ns" using ns(1) by (simp_all add: strict_sorted_iff del: map_map)
    have n: "word_of_nat (length xs) = n" by (simp add: True)
    have "sort xs = ?ns" if "set xs = {0<..n}"
    proof -
      have eq: "set (sort xs) = set ?ns" using that ns(2) by (simp add: n)
      have "card (set xs) = length xs"
        using distinct_card [OF dns(2)] eq by simp
      then have "distinct (sort xs)" by (simp add: card_distinct)
      with eq dns show ?thesis by (intro sorted_distinct_set_unique) simp_all
    qed
    moreover have "set xs = {0<..n}" if "sort xs = ?ns"
      using ns(2) arg_cong [OF that, of set] by (simp add: n)
    ultimately show ?thesis using True by blast
  qed simp
  finally show ?thesis .
qed

text \<open>What the recovery record demands of the session and of each input.\<close>

definition recoveryOk :: "Limits \<Rightarrow> u64 \<Rightarrow> inputRecoveryRecord option \<Rightarrow> bool" where
  "recoveryOk limits next recovery \<longleftrightarrow>
     (case recovery of
        None \<Rightarrow> True
      | Some v \<Rightarrow>
          validID limits (rr_Token v) \<and> 0 < rr_ThroughSequence v \<and> rr_ThroughSequence v \<le> next \<and>
          rr_Phase v \<in> {inputRecoveryOpen, inputRecoveryCommitted, inputRecoveryAttached})"

definition boundaryOk :: "inputRecoveryRecord option \<Rightarrow> inputRecord \<Rightarrow> bool" where
  "boundaryOk recovery r \<longleftrightarrow>
     (case recovery of
        None \<Rightarrow> True
      | Some v \<Rightarrow> ir_Sequence r \<le> rr_ThroughSequence v \<longrightarrow>
          (rr_Phase v = inputRecoveryCommitted \<longrightarrow> settledPhase (ir_Phase r)) \<and>
          (rr_Phase v = inputRecoveryAttached \<longrightarrow> unambiguousPhase (ir_Phase r)))"

lemma set_throughBoundary:
  assumes "sorted_wrt (<) (map ir_Sequence xs)"
  shows "set (throughBoundary through xs) = {r \<in> set xs. ir_Sequence r \<le> through}"
  using assms
proof (induction xs)
  case Nil
  show ?case by (simp add: throughBoundary_def)
next
  case (Cons r xs)
  then show ?case by (auto simp: throughBoundary_def not_less)
qed

lemma validateRecovery_Inr:
  assumes "sorted_wrt (<) (map ir_Sequence (elems (sr_Inputs s)))"
  shows "validateRecovery s limits = Inr u \<longleftrightarrow>
    recoveryOk limits (sr_NextSequence s) (sr_Recovery s) \<and>
    (\<forall>r\<in>set (elems (sr_Inputs s)). boundaryOk (sr_Recovery s) r)"
proof (cases "sr_Recovery s")
  case None
  then show ?thesis by (simp add: validateRecovery_def recoveryOk_def boundaryOk_def)
next
  case (Some v)
  then show ?thesis
    by (cases "rr_Phase v")
      (auto simp: validateRecovery_def recoveryOk_def boundaryOk_def result_simps not_less
        word_gt_0 set_throughBoundary [OF assms])
qed

definition sessionOk :: "Limits \<Rightarrow> sessionRecord \<Rightarrow> bool" where
  "sessionOk limits s \<longleftrightarrow>
     validID limits (sr_SessionID s) \<and> sr_Inputs s \<noteq> None \<and> sr_Outputs s \<noteq> None \<and>
     len (elems (sr_Inputs s)) \<le> MaxInputsPerSession limits \<and>
     len (elems (sr_Outputs s)) \<le> MaxOutputsPerSession limits \<and>
     validateSession s limits = Inr ()"

lemma limits_bounds:
  assumes "validateLimits limits = Inr ()"
  shows "MaxInputsPerSession limits \<le> 65536" and "MaxOutputsPerSession limits \<le> 65536"
    and "1 \<le> MaxPendingInputsPerSession limits" and "1 \<le> MaxInputsPerSession limits"
    and "MaxPendingInputsPerSession limits \<le> MaxInputsPerSession limits"
    and "1 \<le> MaxOutputsPerSession limits" and "0 \<le> MaxPayloadBytes limits"
  using assms by (simp_all add: validateLimits_def result_simps)

text \<open>The sequences of a session fill the range up to its next sequence.\<close>

definition sequencesOk :: "u64 \<Rightarrow> inputRecord list \<Rightarrow> outputRecord list \<Rightarrow> bool" where
  "sequencesOk next ins outs \<longleftrightarrow>
     length ins + length outs = unat next \<and>
     ir_Sequence ` set ins \<union> or_Sequence ` set outs = {0<..next}"

definition sessionValid :: "Limits \<Rightarrow> sessionRecord \<Rightarrow> inputRecord list \<Rightarrow> outputRecord list \<Rightarrow> bool" where
  "sessionValid limits s ins outs \<longleftrightarrow>
     validID limits (sr_SessionID s) \<and> sr_Inputs s = Some ins \<and> sr_Outputs s = Some outs \<and>
     len ins \<le> MaxInputsPerSession limits \<and> len outs \<le> MaxOutputsPerSession limits \<and>
     validateInputs limits {} 0 ins = Inr () \<and> validateOutputs limits {} 0 outs = Inr () \<and>
     pendingInputs ins \<le> MaxPendingInputsPerSession limits \<and>
     recoveryOk limits (sr_NextSequence s) (sr_Recovery s) \<and>
     (\<forall>r\<in>set ins. boundaryOk (sr_Recovery s) r) \<and>
     sequencesOk (sr_NextSequence s) ins outs"

lemma sessionOk_iff:
  assumes "validateLimits limits = Inr ()"
  shows "sessionOk limits s \<longleftrightarrow> (\<exists>ins outs. sessionValid limits s ins outs)"
proof (cases "sr_Inputs s = None \<or> sr_Outputs s = None \<or>
    MaxInputsPerSession limits < len (elems (sr_Inputs s)) \<or>
    MaxOutputsPerSession limits < len (elems (sr_Outputs s))")
  case True
  then show ?thesis by (auto simp: sessionOk_def sessionValid_def)
next
  case False
  then obtain ins outs where io: "sr_Inputs s = Some ins" "sr_Outputs s = Some outs"
      "len ins \<le> MaxInputsPerSession limits" "len outs \<le> MaxOutputsPerSession limits"
    by auto
  have "length (map ir_Sequence ins @ map or_Sequence outs) < 2 ^ 64"
    using limits_bounds(1,2) [OF assms] io(3,4) by (simp add: len_def)
  note seqs = validateSequences_Inr [OF this, of "sr_NextSequence s"]
  have sorted: "validateInputs limits {} 0 ins = Inr () \<Longrightarrow>
      sorted_wrt (<) (map ir_Sequence (elems (sr_Inputs s)))"
    by (simp add: inputs.validate_iff io)
  have "validateSession s limits = Inr () \<longleftrightarrow>
    validateInputs limits {} 0 ins = Inr () \<and> validateOutputs limits {} 0 outs = Inr () \<and>
    pendingInputs ins \<le> MaxPendingInputsPerSession limits \<and>
    recoveryOk limits (sr_NextSequence s) (sr_Recovery s) \<and>
    (\<forall>r\<in>set ins. boundaryOk (sr_Recovery s) r) \<and> sequencesOk (sr_NextSequence s) ins outs"
    using validateRecovery_Inr [OF sorted, of limits "()"]
    by (auto simp: validateSession_def bindE_Inr failIf_Inr io seqs sequencesOk_def)
  then show ?thesis using io by (auto simp: sessionOk_def sessionValid_def)
qed

subsection \<open>Changes of a session that stay valid\<close>

lemma sessionValid_editInputs:
  assumes "sessionValid limits s ins outs"
    and "list_all2 (\<lambda>r r'. ir_MessageID r' = ir_MessageID r \<and> ir_Sequence r' = ir_Sequence r) ins ins'"
    and "\<forall>r\<in>set ins'. inputOk limits r \<and> boundaryOk recovery r"
    and "pendingInputs ins' \<le> MaxPendingInputsPerSession limits"
    and "recoveryOk limits (sr_NextSequence s) recovery"
  shows "sessionValid limits (s\<lparr>sr_Inputs := Some ins', sr_Recovery := recovery\<rparr>) ins' outs"
proof -
  have "map ir_Sequence ins' = map ir_Sequence ins" "length ins' = length ins"
    using assms(2) by (induction rule: list_all2_induct) auto
  then have "ir_Sequence ` set ins' = ir_Sequence ` set ins" by (metis image_set)
  moreover have "validateInputs limits {} 0 ins' = Inr ()"
    using inputs.validate_edit [OF _ assms(2)] assms(1,3) by (simp add: sessionValid_def)
  ultimately show ?thesis
    using assms \<open>length ins' = length ins\<close> by (simp add: sessionValid_def sequencesOk_def len_def)
qed

lemma sessionValid_editOutputs:
  assumes "sessionValid limits s ins outs"
    and "list_all2 (\<lambda>r r'. or_OperationID r' = or_OperationID r \<and> or_Sequence r' = or_Sequence r) outs outs'"
    and "\<forall>r\<in>set outs'. outputOk limits r"
  shows "sessionValid limits (s\<lparr>sr_Outputs := Some outs'\<rparr>) ins outs'"
proof -
  have "map or_Sequence outs' = map or_Sequence outs" "length outs' = length outs"
    using assms(2) by (induction rule: list_all2_induct) auto
  then have "or_Sequence ` set outs' = or_Sequence ` set outs" by (metis image_set)
  moreover have "validateOutputs limits {} 0 outs' = Inr ()"
    using outputs.validate_edit [OF _ assms(2)] assms(1,3) by (simp add: sessionValid_def)
  ultimately show ?thesis
    using assms \<open>length outs' = length outs\<close> by (simp add: sessionValid_def sequencesOk_def len_def)
qed

lemma next_sequence_range:
  assumes "n \<noteq> maxUint64"
  shows "{0<..n + 1} = insert (n + 1) {0<..n}" and "n < n + 1"
proof -
  have un: "unat (n + 1) = Suc (unat n)" by (rule unat_Suc_u64 [OF assms])
  show "n < n + 1" by (simp add: word_less_nat_alt un)
  show "{0<..n + 1} = insert (n + 1) {0<..n}"
    by (auto simp: word_less_nat_alt word_le_nat_alt un word_unat_eq_iff)
qed

lemma recoveryOk_mono: "recoveryOk limits n recovery \<Longrightarrow> n \<le> m \<Longrightarrow> recoveryOk limits m recovery"
  by (auto simp: recoveryOk_def split: option.splits intro: order.trans)

lemma boundaryOk_beyond:
  "recoveryOk limits n recovery \<Longrightarrow> n < ir_Sequence r \<Longrightarrow> boundaryOk recovery r"
  by (auto simp: recoveryOk_def boundaryOk_def split: option.splits)

lemma sessionValid_appendInput:
  assumes "sessionValid limits s ins outs" and "sr_NextSequence s \<noteq> maxUint64"
    and "ir_Sequence r = sr_NextSequence s + 1" and "inputOk limits r"
    and "\<forall>x\<in>set ins. ir_MessageID x \<noteq> ir_MessageID r"
    and "len ins < MaxInputsPerSession limits"
    and "pendingInputs ins < MaxPendingInputsPerSession limits"
  shows "sessionValid limits (s\<lparr>sr_NextSequence := sr_NextSequence s + 1, sr_Inputs := Some (ins @ [r])\<rparr>)
           (ins @ [r]) outs"
proof -
  note nxt = next_sequence_range [OF assms(2)]
  have below: "ir_Sequence x \<in> {0<..sr_NextSequence s}" if "x \<in> set ins" for x
    using assms(1) that unfolding sessionValid_def sequencesOk_def by blast
  have "validateInputs limits {} 0 (ins @ [r]) = Inr ()"
  proof (rule inputs.validate_append)
    show "validateInputs limits {} 0 ins = Inr ()" using assms(1) by (simp add: sessionValid_def)
    show "0 < ir_Sequence r"
      using assms(3) unat_Suc_u64 [OF assms(2)] by (simp add: word_less_nat_alt)
    show "\<forall>y\<in>set ins. ir_Sequence y < ir_Sequence r"
      using below nxt(2) assms(3) by (auto intro: le_less_trans)
  qed (use assms in simp_all)
  moreover have "sequencesOk (sr_NextSequence s + 1) (ins @ [r]) outs"
    using assms(1,3) unat_Suc_u64 [OF assms(2)]
    by (auto simp: sessionValid_def sequencesOk_def nxt(1))
  moreover have "recoveryOk limits (sr_NextSequence s + 1) (sr_Recovery s)"
    using assms(1) nxt(2) by (auto simp: sessionValid_def intro: recoveryOk_mono)
  moreover have "boundaryOk (sr_Recovery s) r"
    using assms(1,3) nxt(2) by (auto simp: sessionValid_def intro: boundaryOk_beyond)
  moreover have "pendingInputs (ins @ [r]) \<le> MaxPendingInputsPerSession limits"
    using assms(7) by (simp add: pendingInputs_def)
  ultimately show ?thesis
    using assms(1,6) by (auto simp: sessionValid_def)
qed

lemma sessionValid_appendOutput:
  assumes "sessionValid limits s ins outs" and "sr_NextSequence s \<noteq> maxUint64"
    and "or_Sequence r = sr_NextSequence s + 1" and "outputOk limits r"
    and "\<forall>x\<in>set outs. or_OperationID x \<noteq> or_OperationID r"
    and "len outs < MaxOutputsPerSession limits"
  shows "sessionValid limits (s\<lparr>sr_NextSequence := sr_NextSequence s + 1, sr_Outputs := Some (outs @ [r])\<rparr>)
           ins (outs @ [r])"
proof -
  note nxt = next_sequence_range [OF assms(2)]
  have below: "or_Sequence x \<in> {0<..sr_NextSequence s}" if "x \<in> set outs" for x
    using assms(1) that unfolding sessionValid_def sequencesOk_def by blast
  have "validateOutputs limits {} 0 (outs @ [r]) = Inr ()"
  proof (rule outputs.validate_append)
    show "validateOutputs limits {} 0 outs = Inr ()" using assms(1) by (simp add: sessionValid_def)
    show "0 < or_Sequence r"
      using assms(3) unat_Suc_u64 [OF assms(2)] by (simp add: word_less_nat_alt)
    show "\<forall>y\<in>set outs. or_Sequence y < or_Sequence r"
      using below nxt(2) assms(3) by (auto intro: le_less_trans)
  qed (use assms in simp_all)
  moreover have "sequencesOk (sr_NextSequence s + 1) ins (outs @ [r])"
    using assms(1,3) unat_Suc_u64 [OF assms(2)]
    by (auto simp: sessionValid_def sequencesOk_def nxt(1))
  moreover have "recoveryOk limits (sr_NextSequence s + 1) (sr_Recovery s)"
    using assms(1) nxt(2) by (auto simp: sessionValid_def intro: recoveryOk_mono)
  ultimately show ?thesis
    using assms(1,6) by (auto simp: sessionValid_def)
qed

section \<open>Documents\<close>

text \<open>A document as a map from session ids to sessions.\<close>

definition findSession :: "document \<Rightarrow> string \<Rightarrow> sessionRecord option" where
  "findSession d sessionID = find (\<lambda>s. sr_SessionID s = sessionID) (elems (d_Sessions d))"

lemma validateSessions_Inr:
  "validateSessions limits seen ss = Inr () \<longleftrightarrow>
     (\<forall>s\<in>set ss. sessionOk limits s) \<and> distinct (map sr_SessionID ss) \<and>
     sr_SessionID ` set ss \<inter> seen = {}"
proof (induction ss arbitrary: seen)
  case Nil
  show ?case by simp
next
  case (Cons s ss)
  show ?case
    by (auto simp: Cons.IH sessionOk_def result_simps not_less split: sum.splits)
qed

definition documentValid :: "Limits \<Rightarrow> document \<Rightarrow> sessionRecord list \<Rightarrow> bool" where
  "documentValid limits d ss \<longleftrightarrow>
     d_Version d = formatVersion \<and> d_Sessions d = Some ss \<and> len ss \<le> MaxSessions limits \<and>
     (\<forall>s\<in>set ss. sessionOk limits s) \<and> distinct (map sr_SessionID ss)"

lemma validateDocument_iff:
  "validateDocument d limits = Inr () \<longleftrightarrow> (\<exists>ss. documentValid limits d ss)"
  by (cases "d_Sessions d")
    (auto simp: validateDocument_def documentValid_def result_simps validateSessions_Inr)

lemma find_indexOf: "find P xs = map_option ((!) xs) (indexOf P xs)"
proof (induction xs)
  case Nil
  show ?case by simp
next
  case (Cons x xs)
  show ?case by (simp add: Cons.IH option.map_comp comp_def)
qed

lemma find_update:
  assumes "i < length ss" and "distinct (map f ss)" and "f s' = f (ss ! i)"
  shows "find (\<lambda>s. f s = k) (ss[i := s']) =
    (if k = f (ss ! i) then Some s' else find (\<lambda>s. f s = k) ss)"
  using assms
proof (induction ss arbitrary: i)
  case Nil
  then show ?case by simp
next
  case (Cons x xs)
  then show ?case by (cases i) auto
qed

lemma find_append:
  assumes "find P xs = None"
  shows "find P (xs @ ys) = find P ys"
  using assms by (induction xs) (auto split: if_splits)

lemma find_append_Some: "find P xs = Some x \<Longrightarrow> find P (xs @ ys) = Some x"
  by (induction xs) (auto split: if_splits)

lemma findSession_id: "findSession d sid = Some s \<Longrightarrow> sr_SessionID s = sid"
  by (auto simp: findSession_def find_Some_iff)

lemma findSession_ok:
  assumes "validateDocument d limits = Inr ()" and "findSession d sid = Some s"
  shows "sessionOk limits s"
  using assms by (auto simp: findSession_def find_Some_iff validateDocument_iff documentValid_def)

lemma sessionAt_Inr:
  assumes "sessionAt d sid create limits = Inr (d1, i)" and "documentValid limits d ss"
  obtains ss1 where "d_Version d1 = formatVersion" "d_Sessions d1 = Some ss1" "len ss1 \<le> MaxSessions limits"
    "distinct (map sr_SessionID ss1)" "i < length ss1" "sr_SessionID (ss1 ! i) = sid"
    "\<forall>s\<in>set ss1. sessionOk limits s \<or> create \<and> s = ss1 ! i \<and> s = emptySession sid"
    "findSession d sid = Some (ss1 ! i) \<or> create \<and> findSession d sid = None \<and> ss1 ! i = emptySession sid"
    "findSession d1 = (findSession d)(sid \<mapsto> ss1 ! i)"
proof (cases "indexOf (\<lambda>s. sr_SessionID s = sid) ss")
  case (Some j)
  then have "d1 = d" "i = j" using assms by (auto simp: sessionAt_def documentValid_def)
  moreover have found: "findSession d sid = Some (ss ! j)"
    using Some assms(2) by (simp add: findSession_def find_indexOf documentValid_def)
  moreover have "findSession d = (findSession d)(sid \<mapsto> ss ! j)"
    using fun_upd_idem [of "findSession d" sid "Some (ss ! j)"] found by simp
  ultimately show ?thesis
    using assms(2) Some by (intro that [of ss]) (simp_all add: documentValid_def indexOf_Some)
next
  case None
  have cr: "create" "len ss \<noteq> MaxSessions limits" "i = length ss"
    "d1 = d\<lparr>d_Sessions := Some (ss @ [emptySession sid])\<rparr>"
    using assms None by (auto simp: sessionAt_def documentValid_def split: if_splits)
  have new: "findSession d sid = None"
    using None assms(2) by (simp add: findSession_def find_indexOf documentValid_def)
  have "find (\<lambda>s. sr_SessionID s = k) (ss @ [emptySession sid]) =
      ((findSession d)(sid \<mapsto> emptySession sid)) k" for k
  proof (cases "find (\<lambda>s. sr_SessionID s = k) ss")
    case None
    then show ?thesis
      using assms(2) by (auto simp: find_append findSession_def documentValid_def emptySession_def)
  next
    case (Some s)
    then show ?thesis
      using assms(2) new by (auto simp: find_append_Some findSession_def documentValid_def)
  qed
  then have "findSession d1 = (findSession d)(sid \<mapsto> emptySession sid)"
    by (auto simp: findSession_def cr(4))
  moreover have "distinct (map sr_SessionID (ss @ [emptySession sid]))"
    using None assms(2) by (auto simp: documentValid_def emptySession_def indexOf_None)
  ultimately show ?thesis
    using assms(2) cr new that [of "ss @ [emptySession sid]"]
    by (auto simp: documentValid_def emptySession_def)
qed

text \<open>
  What a closure on a session does to the document: it changes the session it is given, which
  the document holds or, when it may be created, does not hold yet, and no other.
\<close>

lemma onSession_Inr:
  assumes "onSession d sid create limits r0 onError f = (r, Inr d')"
    and "validateDocument d limits = Inr ()"
  obtains s s' where "f s = (r, Inr s')" "sr_SessionID s = sid"
    "findSession d sid = Some s \<or> create \<and> findSession d sid = None \<and> s = emptySession sid"
    "sr_SessionID s' = sid \<Longrightarrow> findSession d' = (findSession d)(sid \<mapsto> s')"
    "sr_SessionID s' = sid \<Longrightarrow> sessionOk limits s' \<Longrightarrow> validateDocument d' limits = Inr ()"
proof -
  from assms(2) obtain ss where ss: "documentValid limits d ss" by (auto simp: validateDocument_iff)
  from assms(1) obtain d1 i s' where at: "sessionAt d sid create limits = Inr (d1, i)"
    and f: "f (sessionRef d1 i) = (r, Inr s')" and d': "d' = putSession d1 i s'"
    by (auto simp: onSession_def split: sum.splits prod.splits)
  from sessionAt_Inr [OF at ss] obtain ss1 where ss1: "d_Version d1 = formatVersion"
    "d_Sessions d1 = Some ss1" "len ss1 \<le> MaxSessions limits"
    "distinct (map sr_SessionID ss1)" "i < length ss1" "sr_SessionID (ss1 ! i) = sid"
    "\<forall>s\<in>set ss1. sessionOk limits s \<or> create \<and> s = ss1 ! i \<and> s = emptySession sid"
    "findSession d sid = Some (ss1 ! i) \<or> create \<and> findSession d sid = None \<and> ss1 ! i = emptySession sid"
    "findSession d1 = (findSession d)(sid \<mapsto> ss1 ! i)"
    by blast
  have ids: "map sr_SessionID (ss1[i := s']) = map sr_SessionID ss1" if "sr_SessionID s' = sid"
    using ss1(5,6) that by (simp add: map_update list_update_same_conv)
  show thesis
  proof (rule that [of "ss1 ! i" s'])
    show "f (ss1 ! i) = (r, Inr s')" using f ss1(2) by (simp add: sessionRef_def)
    show "sr_SessionID (ss1 ! i) = sid" by (fact ss1(6))
    show "findSession d' = (findSession d)(sid \<mapsto> s')" if "sr_SessionID s' = sid"
    proof
      fix k
      show "findSession d' k = ((findSession d)(sid \<mapsto> s')) k"
        using find_update [of i ss1 sr_SessionID s' k] fun_cong [OF ss1(9), of k] ss1(2,4,5,6) that
        by (simp add: d' findSession_def putSession_def split: if_splits)
    qed
    show "validateDocument d' limits = Inr ()" if id: "sr_SessionID s' = sid" and ok: "sessionOk limits s'"
    proof -
      have "sessionOk limits s" if "s \<in> set (ss1[i := s'])" for s
      proof -
        from that obtain j where j: "j < length ss1" "s = ss1[i := s'] ! j"
          by (auto simp: in_set_conv_nth)
        show ?thesis
        proof (cases "j = i")
          case True
          then show ?thesis using j ok by simp
        next
          case False
          then have "ss1 ! j \<noteq> ss1 ! i"
            using ss1(4,5) j(1) by (auto simp: distinct_map nth_eq_iff_index_eq)
          then show ?thesis using False j ss1(7) by auto
        qed
      qed
      then show ?thesis
        using ss1(1-4) ids [OF id]
        by (auto simp: validateDocument_iff documentValid_def d' putSession_def)
    qed
  qed (fact ss1(8))
qed

end
