(* ===== verification/Journal_History.thy ===== *)
theory Journal_History
  imports Journal_Valid
begin

text \<open>
  The history of a journal: the order in which a session may evolve, the contract of a closure
  on a session, and its proof for every closure of the journal's operations.
\<close>

section \<open>The history order\<close>

text \<open>
  How a session may evolve: records are only appended, a record keeps its identity and place,
  a settled input and a confirmed or superseded output never change again, and the recovery
  boundary does not move back.
\<close>

definition input_le :: "inputRecord \<Rightarrow> inputRecord \<Rightarrow> bool" where
  "input_le r r' \<longleftrightarrow>
     ir_MessageID r' = ir_MessageID r \<and> ir_Sequence r' = ir_Sequence r \<and>
     ir_Attachments r' = ir_Attachments r \<and> (settledPhase (ir_Phase r) \<longrightarrow> r' = r)"

definition output_le :: "outputRecord \<Rightarrow> outputRecord \<Rightarrow> bool" where
  "output_le r r' \<longleftrightarrow>
     or_OperationID r' = or_OperationID r \<and> or_Sequence r' = or_Sequence r \<and>
     or_Kind r' = or_Kind r \<and> or_Payload r' = or_Payload r \<and>
     (or_Phase r \<in> {OutputConfirmed, OutputSuperseded} \<longrightarrow> r' = r)"

definition lane_le :: "('r \<Rightarrow> 'r \<Rightarrow> bool) \<Rightarrow> 'r list \<Rightarrow> 'r list \<Rightarrow> bool" where
  "lane_le le xs ys \<longleftrightarrow> length xs \<le> length ys \<and> (\<forall>i<length xs. le (xs ! i) (ys ! i))"

definition recovery_le :: "inputRecoveryRecord option \<Rightarrow> inputRecoveryRecord option \<Rightarrow> bool" where
  "recovery_le v v' \<longleftrightarrow>
     (case (v, v') of
        (None, _) \<Rightarrow> True
      | (Some _, None) \<Rightarrow> False
      | (Some w, Some w') \<Rightarrow> rr_ThroughSequence w \<le> rr_ThroughSequence w')"

definition record_le :: "sessionRecord \<Rightarrow> sessionRecord \<Rightarrow> bool" where
  "record_le s s' \<longleftrightarrow>
     sr_SessionID s' = sr_SessionID s \<and> sr_NextSequence s \<le> sr_NextSequence s' \<and>
     lane_le input_le (elems (sr_Inputs s)) (elems (sr_Inputs s')) \<and>
     lane_le output_le (elems (sr_Outputs s)) (elems (sr_Outputs s')) \<and>
     recovery_le (sr_Recovery s) (sr_Recovery s')"

definition document_le :: "document \<Rightarrow> document \<Rightarrow> bool" where
  "document_le d d' \<longleftrightarrow>
     (\<forall>sid s. findSession d sid = Some s \<longrightarrow>
        (\<exists>s'. findSession d' sid = Some s' \<and> record_le s s'))"

lemma input_le_refl [simp]: "input_le r r"
  by (simp add: input_le_def)

lemma output_le_refl [simp]: "output_le r r"
  by (simp add: output_le_def)

lemma input_le_trans: "input_le a b \<Longrightarrow> input_le b c \<Longrightarrow> input_le a c"
  by (auto simp: input_le_def)

lemma output_le_trans: "output_le a b \<Longrightarrow> output_le b c \<Longrightarrow> output_le a c"
  by (auto simp: output_le_def)

lemma recovery_le_refl [simp]: "recovery_le v v"
  by (simp add: recovery_le_def split: option.split)

lemma recovery_le_trans: "recovery_le a b \<Longrightarrow> recovery_le b c \<Longrightarrow> recovery_le a c"
  by (auto simp: recovery_le_def split: option.splits)

lemma lane_le_refl: "(\<And>r. le r r) \<Longrightarrow> lane_le le xs xs"
  by (simp add: lane_le_def)

lemma lane_le_trans:
  assumes "\<And>a b c. le a b \<Longrightarrow> le b c \<Longrightarrow> le a c" and "lane_le le xs ys" and "lane_le le ys zs"
  shows "lane_le le xs zs"
  unfolding lane_le_def
proof (intro conjI allI impI)
  show "length xs \<le> length zs" using assms(2,3) by (simp add: lane_le_def)
  fix i assume "i < length xs"
  with assms(2,3) have "le (xs ! i) (ys ! i)" "le (ys ! i) (zs ! i)" by (auto simp: lane_le_def)
  then show "le (xs ! i) (zs ! i)" by (rule assms(1))
qed

lemma lane_le_append: "(\<And>r. le r r) \<Longrightarrow> lane_le le xs (xs @ ys)"
  by (simp add: lane_le_def nth_append)

lemma lane_le_update:
  "(\<And>r. le r r) \<Longrightarrow> i < length xs \<Longrightarrow> le (xs ! i) r \<Longrightarrow> lane_le le xs (xs[i := r])"
  by (simp add: lane_le_def nth_list_update)

lemma lane_le_all2: "list_all2 le xs ys \<Longrightarrow> lane_le le xs ys"
  by (simp add: lane_le_def list_all2_conv_all_nth)

lemma record_le_refl: "record_le s s"
  by (simp add: record_le_def lane_le_refl)

lemma record_le_trans: "record_le a b \<Longrightarrow> record_le b c \<Longrightarrow> record_le a c"
  unfolding record_le_def
  by (blast intro: lane_le_trans [of input_le] lane_le_trans [of output_le] input_le_trans
      output_le_trans recovery_le_trans order.trans sym trans)

lemma document_le_refl: "document_le d d"
  by (simp add: document_le_def record_le_refl)

lemma document_le_trans: "document_le a b \<Longrightarrow> document_le b c \<Longrightarrow> document_le a c"
  by (meson document_le_def record_le_trans)

section \<open>The contract of a closure\<close>

text \<open>
  What every closure on a session promises: it follows the history order, and under its
  guard the result is valid. The two lemmas carry both to the document.
\<close>

locale session_closure =
  fixes limits :: Limits
    and guard :: "sessionRecord \<Rightarrow> bool"
    and f :: "sessionRecord \<Rightarrow> 'r \<times> (journal_error + sessionRecord)"
  assumes closure_le: "sessionOk limits s \<Longrightarrow> f s = (r, Inr s') \<Longrightarrow> record_le s s'"
    and closure_ok: "validateLimits limits = Inr () \<Longrightarrow> sessionOk limits s \<Longrightarrow> guard s \<Longrightarrow>
      f s = (r, Inr s') \<Longrightarrow> sessionOk limits s'"
begin

lemma on_le:
  assumes "snd (onSession d sid create limits r0 onError f) = Inr d'"
    and "validateDocument d limits = Inr ()" and "create \<Longrightarrow> sessionOk limits (emptySession sid)"
  shows "document_le d d'"
proof -
  from assms(1) obtain r where "onSession d sid create limits r0 onError f = (r, Inr d')"
    by (metis prod.collapse)
  from onSession_Inr [OF this assms(2)] obtain s s' where f: "f s = (r, Inr s')"
    and id: "sr_SessionID s = sid"
    and s: "findSession d sid = Some s \<or> create \<and> findSession d sid = None \<and> s = emptySession sid"
    and d': "sr_SessionID s' = sid \<Longrightarrow> findSession d' = (findSession d)(sid \<mapsto> s')"
    by blast
  have "record_le s s'"
    using closure_le [OF _ f] findSession_ok [OF assms(2)] s assms(3) by auto
  moreover from this have "findSession d' = (findSession d)(sid \<mapsto> s')"
    using d' id by (simp add: record_le_def)
  ultimately show ?thesis
    using s by (auto simp: document_le_def record_le_refl)
qed

lemma on_ok:
  assumes "validateLimits limits = Inr ()"
    and "snd (onSession d sid create limits r0 onError f) = Inr d'"
    and "validateDocument d limits = Inr ()" and "create \<Longrightarrow> sessionOk limits (emptySession sid)"
    and "\<And>s. findSession d sid = Some s \<or> findSession d sid = None \<and> s = emptySession sid \<Longrightarrow> guard s"
  shows "validateDocument d' limits = Inr ()"
proof -
  from assms(2) obtain r where "onSession d sid create limits r0 onError f = (r, Inr d')"
    by (metis prod.collapse)
  from onSession_Inr [OF this assms(3)] obtain s s' where f: "f s = (r, Inr s')"
    and id: "sr_SessionID s = sid"
    and s: "findSession d sid = Some s \<or> create \<and> findSession d sid = None \<and> s = emptySession sid"
    and d': "sr_SessionID s' = sid \<Longrightarrow> sessionOk limits s' \<Longrightarrow> validateDocument d' limits = Inr ()"
    by blast
  have ok: "sessionOk limits s" using s findSession_ok [OF assms(3)] assms(4) by auto
  have "sr_SessionID s' = sid" using closure_le [OF ok f] id by (simp add: record_le_def)
  with d' closure_ok [OF assms(1) ok _ f] assms(5) s show ?thesis by blast
qed

end

lemma emptySession_ok:
  assumes "validateLimits limits = Inr ()" and "validID limits sid"
  shows "sessionOk limits (emptySession sid)"
  using limits_bounds(3,4,6) [OF assms(1)] assms(2)
  unfolding sessionOk_iff [OF assms(1)]
  by (intro exI [of _ "[]"]) (simp add: sessionValid_def emptySession_def recoveryOk_def
      sequencesOk_def pendingInputs_def)

section \<open>Input closures\<close>

lemma sessionOkE:
  assumes "sessionOk limits s" and "validateLimits limits = Inr ()"
  obtains ins outs where "sessionValid limits s ins outs"
  using assms by (auto simp: sessionOk_iff)

lemma sessionOkI: "validateLimits limits = Inr () \<Longrightarrow> sessionValid limits s ins outs \<Longrightarrow> sessionOk limits s"
  by (auto simp: sessionOk_iff)

subsection \<open>Enqueue\<close>

lemma validateInputValues_Inr:
  "validateInputValues limits sid mid payload atts = Inr () \<longleftrightarrow>
     validID limits sid \<and> validID limits mid \<and> len payload \<le> MaxPayloadBytes limits \<and>
     (\<forall>a\<in>set (elems (attachmentRecords atts)). validateAttachmentRecord a limits = Inr ())"
  by (auto simp: validateInputValues_def validateInputIdentity_def result_simps not_less)

lemma enqueueInput_Inr:
  "enqueueInput limits sid mid payload atts s = (res, Inr s') \<longleftrightarrow>
     (\<forall>r\<in>set (elems (sr_Inputs s)). ir_MessageID r \<noteq> mid) \<and>
     len (elems (sr_Inputs s)) \<noteq> MaxInputsPerSession limits \<and>
     pendingInputs (elems (sr_Inputs s)) \<noteq> MaxPendingInputsPerSession limits \<and>
     sr_NextSequence s \<noteq> maxUint64 \<and>
     (\<exists>r. r = \<lparr>ir_MessageID = mid, ir_Sequence = sr_NextSequence s + 1, ir_Payload = payload,
           ir_Attachments = attachmentRecords atts, ir_Phase = InputPending, ir_Lease = noLease\<rparr> \<and>
         res = (inputFromRecord sid r, True) \<and>
         s' = s\<lparr>sr_NextSequence := sr_NextSequence s + 1, sr_Inputs := Some (elems (sr_Inputs s) @ [r])\<rparr>)"
proof (cases "indexOf (\<lambda>r. ir_MessageID r = mid) (elems (sr_Inputs s))")
  case None
  then have "\<forall>r\<in>set (elems (sr_Inputs s)). ir_MessageID r \<noteq> mid" by (simp add: indexOf_None)
  with None show ?thesis by (auto simp: enqueueInput_def Let_def)
next
  case (Some i)
  then have "\<exists>r\<in>set (elems (sr_Inputs s)). ir_MessageID r = mid"
    by (auto simp: indexOf_Some)
  with Some show ?thesis by (auto simp: enqueueInput_def Let_def)
qed

interpretation enqueue_input: session_closure limits
  "\<lambda>_. validateInputValues limits sid mid payload atts = Inr ()"
  "enqueueInput limits sid mid payload atts"
  for limits sid mid payload atts
proof unfold_locales
  fix s r s'
  assume f: "enqueueInput limits sid mid payload atts s = (r, Inr s')"
  then have "sr_NextSequence s \<le> sr_NextSequence s + 1"
    using next_sequence_range(2) [of "sr_NextSequence s"] by (simp add: enqueueInput_Inr)
  with f show "record_le s s'"
    by (auto simp: enqueueInput_Inr record_le_def intro: lane_le_append lane_le_refl)
  assume lim: "validateLimits limits = Inr ()" and ok: "sessionOk limits s"
    and req: "validateInputValues limits sid mid payload atts = Inr ()"
  from ok lim obtain ins outs where v: "sessionValid limits s ins outs" by (rule sessionOkE)
  then have io: "sr_Inputs s = Some ins" "len ins \<le> MaxInputsPerSession limits"
    "pendingInputs ins \<le> MaxPendingInputsPerSession limits"
    by (simp_all add: sessionValid_def)
  define q where "q = \<lparr>ir_MessageID = mid, ir_Sequence = sr_NextSequence s + 1, ir_Payload = payload,
    ir_Attachments = attachmentRecords atts, ir_Phase = InputPending, ir_Lease = noLease\<rparr>"
  have r: "inputOk limits q" "ir_Sequence q = sr_NextSequence s + 1" "ir_MessageID q = mid"
      "s' = s\<lparr>sr_NextSequence := sr_NextSequence s + 1, sr_Inputs := Some (ins @ [q])\<rparr>"
    using f req io
    by (simp_all add: enqueueInput_Inr inputOk_def validateInputValues_Inr validateInputPhase_def
        validateLease_def q_def)
  show "sessionOk limits s'"
    unfolding r(4)
    by (rule sessionOkI [OF lim], rule sessionValid_appendInput [OF v])
      (use f r io in \<open>auto simp: enqueueInput_Inr\<close>)
qed

subsection \<open>Transitions of one input\<close>

text \<open>
  The contract of a transition: it keeps the identity of the input and applies to no settled
  input; under its request the new record is well formed. Only an ambiguous transition turns
  an unambiguous phase into an ambiguous one, and then it must stay off an attached boundary.
\<close>

definition attachedInput :: "string \<Rightarrow> sessionRecord \<Rightarrow> bool" where
  "attachedInput mid s \<longleftrightarrow>
     (case sr_Recovery s of
        None \<Rightarrow> False
      | Some v \<Rightarrow> rr_Phase v = inputRecoveryAttached \<and>
          list_ex (\<lambda>r. ir_MessageID r = mid \<and> ir_Sequence r \<le> rr_ThroughSequence v)
            (elems (sr_Inputs s)))"

lemma pendingInputs_update:
  assumes "i < length xs"
  shows "pendingInputs (xs[i := r]) =
    pendingInputs xs + (if ir_Phase r = InputPending then 1 else 0)
      - (if ir_Phase (xs ! i) = InputPending then 1 else 0)"
  using assms
proof (induction xs arbitrary: i)
  case Nil
  then show ?case by simp
next
  case (Cons x xs)
  then show ?case by (cases i) (auto simp: pendingInputs_def)
qed

lemma updateInput_Inr:
  assumes "updateInput sid mid tr s = (res, Inr s')"
  obtains i r' where "i < length (elems (sr_Inputs s))" "ir_MessageID (elems (sr_Inputs s) ! i) = mid"
    "tr s (elems (sr_Inputs s) ! i) = Inr r'" "res = inputFromRecord sid r'"
    "s' = s\<lparr>sr_Inputs := Some ((elems (sr_Inputs s))[i := r'])\<rparr>"
  using assms
  by (auto simp: updateInput_def Let_def indexOf_Some split: option.splits sum.splits)

locale input_transition =
  fixes limits :: Limits
    and request :: bool
    and ambiguous :: bool
    and tr :: inputTransition
  assumes tr_keeps: "tr s r = Inr r' \<Longrightarrow>
      ir_MessageID r' = ir_MessageID r \<and> ir_Sequence r' = ir_Sequence r \<and>
      ir_Attachments r' = ir_Attachments r \<and> \<not> settledPhase (ir_Phase r)"
    and tr_ok: "request \<Longrightarrow> inputOk limits r \<Longrightarrow> tr s r = Inr r' \<Longrightarrow>
      inputOk limits r' \<and>
      (ir_Phase r' = InputPending \<longrightarrow> ir_Phase r = InputPending \<or>
         pendingInputs (elems (sr_Inputs s)) \<noteq> MaxPendingInputsPerSession limits)"
    and tr_unambiguous: "request \<Longrightarrow> \<not> ambiguous \<Longrightarrow> tr s r = Inr r' \<Longrightarrow> unambiguousPhase (ir_Phase r) \<Longrightarrow>
      unambiguousPhase (ir_Phase r')"
begin

lemma boundary_kept:
  assumes "request" and "boundaryOk (sr_Recovery s) r" and "tr s r = Inr r'"
    and "r \<in> set (elems (sr_Inputs s))" and "\<not> (ambiguous \<and> attachedInput (ir_MessageID r) s)"
  shows "boundaryOk (sr_Recovery s) r'"
proof (cases "sr_Recovery s")
  case None
  then show ?thesis by (simp add: boundaryOk_def)
next
  case (Some v)
  have "unambiguousPhase (ir_Phase r')"
    if "rr_Phase v = inputRecoveryAttached" "ir_Sequence r \<le> rr_ThroughSequence v"
  proof -
    have "attachedInput (ir_MessageID r) s"
      using that assms(4) Some by (auto simp: attachedInput_def list_ex_iff)
    then show ?thesis
      using tr_unambiguous [OF assms(1) _ assms(3)] that assms(2,5) Some by (simp add: boundaryOk_def)
  qed
  then show ?thesis
    using tr_keeps [OF assms(3)] assms(2) Some by (simp add: boundaryOk_def)
qed

lemma update_le: "updateInput sid mid tr s = (res, Inr s') \<Longrightarrow> record_le s s'"
  by (erule updateInput_Inr)
    (auto simp: record_le_def input_le_def dest!: tr_keeps intro!: lane_le_refl lane_le_update)

lemma update_ok:
  assumes "validateLimits limits = Inr ()" and "sessionOk limits s" and "request"
    and "\<not> (ambiguous \<and> attachedInput mid s)" and "updateInput sid mid tr s = (res, Inr s')"
  shows "sessionOk limits s'"
proof -
  from assms(2,1) obtain ins outs where v: "sessionValid limits s ins outs" by (rule sessionOkE)
  then have io: "sr_Inputs s = Some ins" by (simp add: sessionValid_def)
  obtain i r' where i: "i < length ins" "ir_MessageID (ins ! i) = mid" "tr s (ins ! i) = Inr r'"
      "s' = s\<lparr>sr_Inputs := Some (ins[i := r'])\<rparr>"
    by (rule updateInput_Inr [OF assms(5), unfolded io elems_simps])
  have old: "\<forall>r\<in>set ins. inputOk limits r \<and> boundaryOk (sr_Recovery s) r"
    and bounds: "pendingInputs ins \<le> MaxPendingInputsPerSession limits"
      "recoveryOk limits (sr_NextSequence s) (sr_Recovery s)"
    using v by (simp_all add: sessionValid_def inputs.validate_iff)
  note ok = tr_ok [OF assms(3) _ i(3)]
  have bd: "boundaryOk (sr_Recovery s) r'"
    using i(1,2) old io assms(4) by (intro boundary_kept [OF assms(3) _ i(3)]) auto
  have "sessionValid limits (s\<lparr>sr_Inputs := Some (ins[i := r']), sr_Recovery := sr_Recovery s\<rparr>)
          (ins[i := r']) outs"
  proof (rule sessionValid_editInputs [OF v])
    show "list_all2 (\<lambda>r r'. ir_MessageID r' = ir_MessageID r \<and> ir_Sequence r' = ir_Sequence r)
        ins (ins[i := r'])"
      using tr_keeps [OF i(3)] i(1) by (simp add: list_all2_conv_all_nth nth_list_update)
    show "\<forall>r\<in>set (ins[i := r']). inputOk limits r \<and> boundaryOk (sr_Recovery s) r"
      using ok bd old i(1) by (auto dest!: set_update_subset_insert [THEN subsetD])
    show "pendingInputs (ins[i := r']) \<le> MaxPendingInputsPerSession limits"
      using ok old i(1) bounds(1) io by (auto simp: pendingInputs_update)
  qed (fact bounds(2))
  then show ?thesis using assms(1) i(4) by (auto intro: sessionOkI)
qed

end

sublocale input_transition \<subseteq> session_closure limits
  "\<lambda>s. request \<and> \<not> (ambiguous \<and> attachedInput mid s)" "updateInput sid mid tr" for sid mid
  by unfold_locales (use update_le update_ok in blast)+

lemmas transition_defs = acceptTransition_def replacePayloadTransition_def releaseTransition_def
  deliveryTransition_def outcomeTransition_def retryTransition_def ownerCheck_def
  settledPhase_def unambiguousPhase_def

lemma inputOk_phase:
  "inputOk limits r \<Longrightarrow> ir_Phase r \<noteq> InputPending \<Longrightarrow> ir_Lease r = noLease"
  by (auto simp: inputOk_def validateInputPhase_def result_simps split: InputPhase.splits)

lemma inputOk_settle:
  assumes "inputOk limits r" and "phase \<noteq> InputPending" and "\<And>x. phase \<noteq> InputPhaseOther x"
  shows "inputOk limits (r\<lparr>ir_Phase := phase, ir_Lease := noLease\<rparr>)"
  using assms by (cases phase) (auto simp: inputOk_def validateInputPhase_def result_simps)

lemma inputOk_pending:
  "inputOk limits r \<Longrightarrow> inputOk limits (r\<lparr>ir_Phase := InputPending, ir_Lease := noLease\<rparr>)"
  by (simp add: inputOk_def validateInputPhase_def validateLease_def)

lemma inputOk_release:
  "inputOk limits r \<Longrightarrow> ir_Phase r = InputPending \<Longrightarrow> inputOk limits (r\<lparr>ir_Lease := noLease\<rparr>)"
  by (simp add: inputOk_def validateInputPhase_def validateLease_def)

lemma inputOk_payload:
  "inputOk limits r \<Longrightarrow> len payload \<le> MaxPayloadBytes limits \<Longrightarrow> inputOk limits (r\<lparr>ir_Payload := payload\<rparr>)"
  by (cases "ir_Phase r") (simp_all add: inputOk_def validateInputPhase_def)

lemma inputOk_outcome:
  assumes "inputOk limits r" and "ir_Phase r \<noteq> InputPending"
    and "phase \<noteq> InputPending" and "\<And>x. phase \<noteq> InputPhaseOther x"
  shows "inputOk limits (r\<lparr>ir_Phase := phase\<rparr>)"
proof -
  have "r\<lparr>ir_Phase := phase, ir_Lease := noLease\<rparr> = r\<lparr>ir_Phase := phase\<rparr>"
    using inputOk_phase [OF assms(1,2)] by (cases r) simp
  with inputOk_settle [OF assms(1,3,4)] show ?thesis by simp
qed

interpretation accept: input_transition limits True False "acceptTransition owner" for limits owner
  by unfold_locales
    (auto simp: transition_defs result_simps intro: inputOk_settle)

interpretation replace_payload: input_transition limits "len payload \<le> MaxPayloadBytes limits" False
  "\<lambda>_. replacePayloadTransition owner sequence payload" for limits owner sequence payload
  by unfold_locales
    (auto simp: transition_defs result_simps intro: inputOk_payload)

interpretation release: input_transition limits True False "\<lambda>_. releaseTransition owner" for limits owner
  by unfold_locales
    (auto simp: transition_defs result_simps intro: inputOk_release)

interpretation delivery: input_transition limits "phase \<in> {InputFailed, InputUnknown}" True
  "\<lambda>_. deliveryTransition phase owner" for limits phase owner
  by unfold_locales
    (auto simp: transition_defs result_simps intro: inputOk_settle)

interpretation outcome_accepted: input_transition limits
  "outcome \<in> {InputCompleted, InputFailed, InputUnknown, InputTerminalFailed}" "outcome = InputFailed"
  "\<lambda>_. outcomeTransition sequence outcome InputAccepted" for limits sequence outcome
  by unfold_locales
    (auto simp: transition_defs result_simps intro: inputOk_outcome)

interpretation outcome_unknown: input_transition limits
  "outcome \<in> {InputCompleted, InputFailed, InputTerminalFailed}" False
  "\<lambda>_. outcomeTransition sequence outcome InputUnknown" for limits sequence outcome
  by unfold_locales
    (auto simp: transition_defs result_simps intro: inputOk_outcome)

interpretation retry: input_transition limits True False "retryTransition limits" for limits
  by unfold_locales
    (auto simp: transition_defs result_simps intro: inputOk_pending)

subsection \<open>Leasing\<close>

text \<open>
  The lane is first in, first out: the leased input is the first one that is neither accepted
  nor settled, and no failed or unknown input lies before it.
\<close>

definition passedPhase :: "InputPhase \<Rightarrow> bool" where
  "passedPhase phase \<longleftrightarrow> phase = InputAccepted \<or> settledPhase phase"

definition leasable :: "time \<Rightarrow> leaseRecord \<Rightarrow> bool" where
  "leasable now lease \<longleftrightarrow> lr_Owner lease = [] \<or> lr_UntilUnix lease \<le> UnixNano now"

lemma leaseNextInput_Inr:
  assumes "leaseNextInput sid owner now duration xs = (res, Inr ys)"
  shows "\<exists>i r. i < length xs \<and> ir_Phase (xs ! i) = InputPending \<and>
    (\<forall>j<i. passedPhase (ir_Phase (xs ! j))) \<and> leasable now (ir_Lease (xs ! i)) \<and>
    r = (xs ! i)\<lparr>ir_Lease := \<lparr>lr_Owner = owner, lr_UntilUnix = UnixNano (now + duration)\<rparr>\<rparr> \<and>
    ys = xs[i := r] \<and> res = inputFromRecord sid r"
  using assms
proof (induction xs arbitrary: ys)
  case Nil
  then show ?case by simp
next
  case (Cons x xs)
  show ?case
  proof (cases "passedPhase (ir_Phase x)")
    case True
    then obtain zs where zs: "leaseNextInput sid owner now duration xs = (res, Inr zs)" "ys = x # zs"
      using Cons.prems
      by (cases "ir_Phase x")
        (auto simp: passedPhase_def settledPhase_def Let_def split: prod.splits sum.splits)
    from Cons.IH [OF zs(1)] obtain i r where i: "i < length xs" "ir_Phase (xs ! i) = InputPending"
      "\<forall>j<i. passedPhase (ir_Phase (xs ! j))" "leasable now (ir_Lease (xs ! i))"
      "r = (xs ! i)\<lparr>ir_Lease := \<lparr>lr_Owner = owner, lr_UntilUnix = UnixNano (now + duration)\<rparr>\<rparr>"
      "zs = xs[i := r]" "res = inputFromRecord sid r"
      by blast
    then show ?thesis
      using True zs(2) by (intro exI [of _ "Suc i"]) (auto simp: less_Suc_eq_0_disj)
  next
    case False
    then show ?thesis
      using Cons.prems
      by (cases "ir_Phase x")
        (auto simp: passedPhase_def settledPhase_def leasable_def Let_def split: if_splits
          intro!: exI [of _ 0])
  qed
qed

lemma leaseInput_Inr:
  assumes "leaseInput sid owner now duration s = (res, Inr s')"
  obtains i r where "\<not> recoveryOpen s" "i < length (elems (sr_Inputs s))"
    "ir_Phase (elems (sr_Inputs s) ! i) = InputPending"
    "\<forall>j<i. passedPhase (ir_Phase (elems (sr_Inputs s) ! j))"
    "leasable now (ir_Lease (elems (sr_Inputs s) ! i))"
    "r = (elems (sr_Inputs s) ! i)\<lparr>ir_Lease := \<lparr>lr_Owner = owner,
           lr_UntilUnix = UnixNano (now + duration)\<rparr>\<rparr>"
    "s' = s\<lparr>sr_Inputs := Some ((elems (sr_Inputs s))[i := r])\<rparr>" "res = inputFromRecord sid r"
  using assms
  by (auto simp: leaseInput_def split: if_splits prod.splits sum.splits dest!: leaseNextInput_Inr)

lemma validateLeaseRequest_Inr:
  "validateLeaseRequest limits poll sid owner now duration = Inr () \<longleftrightarrow>
     poll = None \<and> validID limits sid \<and> validID limits owner \<and> \<not> IsZero now \<and> 0 < duration \<and>
     duration \<le> MaxLeaseDuration limits \<and> 0 < UnixNano (now + duration)"
  by (auto simp: validateLeaseRequest_def result_simps not_le not_less split: option.splits)

lemma validateLease_new:
  "validID limits owner \<Longrightarrow> 0 < until \<Longrightarrow>
     validateLease \<lparr>lr_Owner = owner, lr_UntilUnix = until\<rparr> limits = Inr ()"
  by (simp add: validateLease_def result_simps)

interpretation lease_input: session_closure limits
  "\<lambda>_. validateLeaseRequest limits None sid owner now duration = Inr ()"
  "leaseInput sid owner now duration" for limits sid owner now duration
proof unfold_locales
  fix s r s'
  assume f: "leaseInput sid owner now duration s = (r, Inr s')"
  then show "record_le s s'"
    by (elim leaseInput_Inr)
      (auto simp: record_le_def input_le_def settledPhase_def intro!: lane_le_refl lane_le_update)
  assume lim: "validateLimits limits = Inr ()" and ok: "sessionOk limits s"
    and req: "validateLeaseRequest limits None sid owner now duration = Inr ()"
  from ok lim obtain ins outs where v: "sessionValid limits s ins outs" by (rule sessionOkE)
  then have io: "sr_Inputs s = Some ins" by (simp add: sessionValid_def)
  define lease where "lease = \<lparr>lr_Owner = owner, lr_UntilUnix = UnixNano (now + duration)\<rparr>"
  obtain i where i: "i < length ins" "ir_Phase (ins ! i) = InputPending"
      "s' = s\<lparr>sr_Inputs := Some (ins[i := (ins ! i)\<lparr>ir_Lease := lease\<rparr>])\<rparr>"
    using leaseInput_Inr [OF f, unfolded io elems_simps] unfolding lease_def by blast
  let ?ins = "ins[i := (ins ! i)\<lparr>ir_Lease := lease\<rparr>]"
  have old: "\<forall>r\<in>set ins. inputOk limits r \<and> boundaryOk (sr_Recovery s) r"
    using v by (simp add: sessionValid_def inputs.validate_iff)
  have cur: "inputOk limits (ins ! i)" "boundaryOk (sr_Recovery s) (ins ! i)"
    using old nth_mem [OF i(1)] by blast+
  have "validateLease lease limits = Inr ()"
    using req by (simp add: validateLeaseRequest_Inr validateLease_new lease_def)
  then have new: "inputOk limits ((ins ! i)\<lparr>ir_Lease := lease\<rparr>)"
    "boundaryOk (sr_Recovery s) ((ins ! i)\<lparr>ir_Lease := lease\<rparr>)"
    using cur i(2)
    by (auto simp: inputOk_def validateInputPhase_def boundaryOk_def split: option.splits)
  have "sessionValid limits (s\<lparr>sr_Inputs := Some ?ins, sr_Recovery := sr_Recovery s\<rparr>) ?ins outs"
  proof (rule sessionValid_editInputs [OF v])
    show "list_all2 (\<lambda>r r'. ir_MessageID r' = ir_MessageID r \<and> ir_Sequence r' = ir_Sequence r) ins ?ins"
      using i(1) by (simp add: list_all2_conv_all_nth nth_list_update)
    show "\<forall>r\<in>set ?ins. inputOk limits r \<and> boundaryOk (sr_Recovery s) r"
      using new old i(1) by (auto dest!: set_update_subset_insert [THEN subsetD])
  qed (use v i in \<open>simp_all add: sessionValid_def pendingInputs_update\<close>)
  then show "sessionOk limits s'" using lim i(3) by (auto intro: sessionOkI)
qed

subsection \<open>Recovery\<close>

definition skippedInput :: "inputRecord \<Rightarrow> inputRecord" where
  "skippedInput r = r\<lparr>ir_Phase := InputSkipped, ir_Lease := noLease\<rparr>"

definition ambiguousInput :: "inputRecord \<Rightarrow> bool" where
  "ambiguousInput r \<longleftrightarrow>
     ir_Phase r = InputPending \<and> lr_Owner (ir_Lease r) \<noteq> [] \<or> ir_Phase r \<in> {InputFailed, InputUnknown}"

lemma beyond_boundary:
  assumes "through < ir_Sequence r" and "sorted_wrt (<) (map ir_Sequence (r # rs))"
  shows "\<forall>x\<in>set (r # rs). \<not> ir_Sequence x \<le> through"
  using assms by (auto simp: not_le intro: less_trans)

lemma skipInputs_Inr:
  assumes "skipInputs through xs = Inr ys" and "sorted_wrt (<) (map ir_Sequence xs)"
  shows "ys = map (\<lambda>r. if ir_Sequence r \<le> through \<and> unresolvedPhase (ir_Phase r)
                       then skippedInput r else r) xs"
  using assms
proof (induction xs arbitrary: ys)
  case Nil
  then show ?case by simp
next
  case (Cons r rs)
  show ?case
  proof (cases "through < ir_Sequence r")
    case True
    then have "ys = map (\<lambda>r. r) (r # rs)" using Cons.prems(1) by simp
    also have "\<dots> = map (\<lambda>r. if ir_Sequence r \<le> through \<and> unresolvedPhase (ir_Phase r)
                              then skippedInput r else r) (r # rs)"
      using beyond_boundary [OF True Cons.prems(2)] by (intro map_cong) auto
    finally show ?thesis .
  next
    case False
    with Cons show ?thesis
      by (cases "ir_Phase r") (auto simp: bindE_Inr unresolvedPhase_def skippedInput_def not_less)
  qed
qed

lemma attachInputs_Inr:
  assumes "attachInputs through xs = Inr ys" and "sorted_wrt (<) (map ir_Sequence xs)"
  shows "ys = map (\<lambda>r. if ir_Sequence r \<le> through \<and> ambiguousInput r then skippedInput r else r) xs"
  using assms
proof (induction xs arbitrary: ys)
  case Nil
  then show ?case by simp
next
  case (Cons r rs)
  show ?case
  proof (cases "through < ir_Sequence r")
    case True
    then have "ys = map (\<lambda>r. r) (r # rs)" using Cons.prems(1) by simp
    also have "\<dots> = map (\<lambda>r. if ir_Sequence r \<le> through \<and> ambiguousInput r
                              then skippedInput r else r) (r # rs)"
      using beyond_boundary [OF True Cons.prems(2)] by (intro map_cong) auto
    finally show ?thesis .
  next
    case False
    with Cons show ?thesis
      by (cases "ir_Phase r") (auto simp: bindE_Inr ambiguousInput_def skippedInput_def not_less)
  qed
qed

text \<open>
  The contract of a commit: it settles the inputs up to the boundary that it selects and
  leaves only inputs that the new phase allows.
\<close>

locale recovery_commit =
  fixes limits :: Limits
    and phase :: inputRecoveryPhase
    and settle :: "u64 \<Rightarrow> inputRecord list \<Rightarrow> journal_error + inputRecord list"
    and selects :: "inputRecord \<Rightarrow> bool"
  assumes phase_closed: "phase = inputRecoveryCommitted \<or> phase = inputRecoveryAttached"
    and settle_map: "settle through xs = Inr ys \<Longrightarrow> sorted_wrt (<) (map ir_Sequence xs) \<Longrightarrow>
      ys = map (\<lambda>r. if ir_Sequence r \<le> through \<and> selects r then skippedInput r else r) xs"
    and selects_open: "selects r \<Longrightarrow> \<not> settledPhase (ir_Phase r)"
    and left_ok: "inputOk limits r \<Longrightarrow> \<not> selects r \<Longrightarrow>
      (phase = inputRecoveryCommitted \<longrightarrow> settledPhase (ir_Phase r)) \<and>
      (phase = inputRecoveryAttached \<longrightarrow> unambiguousPhase (ir_Phase r))"
begin

lemma commit_Inr:
  assumes "commitRecovery phase settle token s = (u, Inr s')"
    and "sorted_wrt (<) (map ir_Sequence (elems (sr_Inputs s)))"
  obtains v where "sr_Recovery s = Some v" "rr_Token v = token" "rr_Phase v = inputRecoveryOpen"
    "s' = s\<lparr>sr_Inputs := Some (map (\<lambda>r. if ir_Sequence r \<le> rr_ThroughSequence v \<and> selects r
                                        then skippedInput r else r) (elems (sr_Inputs s))),
            sr_Recovery := Some (v\<lparr>rr_Phase := phase\<rparr>)\<rparr>"
  using assms
  by (auto simp: commitRecovery_def result_simps split: option.splits dest!: settle_map)

lemma commit_le:
  assumes "sorted_wrt (<) (map ir_Sequence (elems (sr_Inputs s)))"
    and "commitRecovery phase settle token s = (u, Inr s')"
  shows "record_le s s'"
  by (rule commit_Inr [OF assms(2,1)])
    (auto simp: record_le_def recovery_le_def input_le_def skippedInput_def list_all2_conv_all_nth
      dest: selects_open intro!: lane_le_refl lane_le_all2)

lemma commit_ok:
  assumes "validateLimits limits = Inr ()" and "sessionOk limits s"
    and "commitRecovery phase settle token s = (u, Inr s')"
  shows "sessionOk limits s'"
proof -
  from assms(2,1) obtain ins outs where v: "sessionValid limits s ins outs" by (rule sessionOkE)
  then have io: "sr_Inputs s = Some ins" "sorted_wrt (<) (map ir_Sequence ins)"
    and old: "\<forall>r\<in>set ins. inputOk limits r"
    and rest: "pendingInputs ins \<le> MaxPendingInputsPerSession limits"
      "recoveryOk limits (sr_NextSequence s) (sr_Recovery s)"
    by (simp_all add: sessionValid_def inputs.validate_iff)
  obtain w where w: "sr_Recovery s = Some w" "rr_Token w = token"
    "s' = s\<lparr>sr_Inputs := Some (map (\<lambda>r. if ir_Sequence r \<le> rr_ThroughSequence w \<and> selects r
                                        then skippedInput r else r) ins),
            sr_Recovery := Some (w\<lparr>rr_Phase := phase\<rparr>)\<rparr>"
    using commit_Inr [OF assms(3), unfolded io elems_simps, OF io(2)] by blast
  let ?g = "\<lambda>r. if ir_Sequence r \<le> rr_ThroughSequence w \<and> selects r then skippedInput r else r"
  have "sessionValid limits s' (map ?g ins) outs"
    unfolding w(3)
  proof (rule sessionValid_editInputs [OF v])
    show "list_all2 (\<lambda>r r'. ir_MessageID r' = ir_MessageID r \<and> ir_Sequence r' = ir_Sequence r)
        ins (map ?g ins)"
      by (simp add: list_all2_conv_all_nth skippedInput_def)
    show "\<forall>r\<in>set (map ?g ins). inputOk limits r \<and> boundaryOk (Some (w\<lparr>rr_Phase := phase\<rparr>)) r"
      using old left_ok
      by (auto simp: boundaryOk_def skippedInput_def settledPhase_def unambiguousPhase_def
          intro: inputOk_settle)
    have "pendingInputs (map ?g ins) \<le> pendingInputs ins"
      by (induction ins) (auto simp: pendingInputs_def skippedInput_def)
    then show "pendingInputs (map ?g ins) \<le> MaxPendingInputsPerSession limits" using rest(1) by simp
    show "recoveryOk limits (sr_NextSequence s) (Some (w\<lparr>rr_Phase := phase\<rparr>))"
      using rest(2) w(1) phase_closed by (auto simp: recoveryOk_def)
  qed
  with assms(1) show ?thesis by (rule sessionOkI)
qed

end

lemma validateSession_sorted:
  "sessionOk limits s \<Longrightarrow> sorted_wrt (<) (map ir_Sequence (elems (sr_Inputs s)))"
  by (auto simp: sessionOk_def validateSession_def bindE_Inr inputs.validate_iff)

sublocale recovery_commit \<subseteq> session_closure limits "\<lambda>_. True" "commitRecovery phase settle token" for token
  by unfold_locales (use commit_le validateSession_sorted commit_ok in blast)+

lemma inputOk_known: "inputOk limits r \<Longrightarrow> ir_Phase r \<noteq> InputPhaseOther x"
  by (auto simp: inputOk_def validateInputPhase_def)

interpretation commit_skip: recovery_commit limits inputRecoveryCommitted skipInputs
  "\<lambda>r. unresolvedPhase (ir_Phase r)" for limits
proof unfold_locales
  fix r
  assume "inputOk limits r" and "\<not> unresolvedPhase (ir_Phase r)"
  then show "(inputRecoveryCommitted = inputRecoveryCommitted \<longrightarrow> settledPhase (ir_Phase r)) \<and>
      (inputRecoveryCommitted = inputRecoveryAttached \<longrightarrow> unambiguousPhase (ir_Phase r))"
    using inputOk_known [of limits r]
    by (cases "ir_Phase r") (auto simp: unresolvedPhase_def settledPhase_def)
qed (auto simp: unresolvedPhase_def settledPhase_def dest: skipInputs_Inr)

interpretation commit_attach: recovery_commit limits inputRecoveryAttached attachInputs ambiguousInput
  for limits
proof unfold_locales
  fix r
  assume "inputOk limits r" and "\<not> ambiguousInput r"
  then show "(inputRecoveryAttached = inputRecoveryCommitted \<longrightarrow> settledPhase (ir_Phase r)) \<and>
      (inputRecoveryAttached = inputRecoveryAttached \<longrightarrow> unambiguousPhase (ir_Phase r))"
    using inputOk_known [of limits r]
    by (cases "ir_Phase r") (auto simp: ambiguousInput_def unambiguousPhase_def)
qed (auto simp: ambiguousInput_def settledPhase_def dest: attachInputs_Inr)

lemma beginRecovery_Inr:
  assumes "beginRecovery token legacy s = (active, Inr s')"
  shows "active \<and>
    ((\<exists>v. sr_Recovery s = Some v \<and> rr_Phase v = inputRecoveryOpen \<and> rr_Token v \<noteq> token \<and>
          s' = s\<lparr>sr_Recovery := Some (v\<lparr>rr_Token := token\<rparr>)\<rparr>) \<or>
     \<not> recoveryOpen s \<and> hasUnresolvedInputs (elems (sr_Inputs s)) \<and>
     s' = s\<lparr>sr_Recovery := Some \<lparr>rr_Token = token, rr_ThroughSequence = sr_NextSequence s,
              rr_Phase = inputRecoveryOpen\<rparr>\<rparr>)"
  using assms
  by (auto simp: beginRecovery_def openRecovery_def recoveryOpen_def Let_def
      split: option.splits if_splits sum.splits)

interpretation begin_recovery: session_closure limits
  "\<lambda>_. validateRecoveryRequest limits sid token = Inr ()" "beginRecovery token legacy"
  for limits sid token legacy
proof unfold_locales
  fix s r s'
  assume ok: "sessionOk limits s" and f: "beginRecovery token legacy s = (r, Inr s')"
  have rec: "recoveryOk limits (sr_NextSequence s) (sr_Recovery s)"
    using ok validateRecovery_Inr [OF validateSession_sorted [OF ok], of limits "()"]
    by (simp add: sessionOk_def validateSession_def bindE_Inr)
  have through: "rr_ThroughSequence v \<le> sr_NextSequence s" if "sr_Recovery s = Some v" for v
    using rec that by (simp add: recoveryOk_def)
  show "record_le s s'"
    using beginRecovery_Inr [OF f] through
    by (auto simp: record_le_def recovery_le_def intro!: lane_le_refl split: option.splits)
  assume lim: "validateLimits limits = Inr ()"
    and req: "validateRecoveryRequest limits sid token = Inr ()"
  from ok lim obtain ins outs where v: "sessionValid limits s ins outs" by (rule sessionOkE)
  then have io: "sr_Inputs s = Some ins" "\<forall>r\<in>set ins. inputOk limits r \<and> boundaryOk (sr_Recovery s) r"
    by (simp_all add: sessionValid_def inputs.validate_iff)
  have tok: "validID limits token" using req by (simp add: validateRecoveryRequest_def result_simps)
  have pos: "0 < sr_NextSequence s" if "hasUnresolvedInputs ins"
  proof -
    from that obtain r where "r \<in> set ins" by (auto simp: hasUnresolvedInputs_def list_ex_iff)
    then have "ir_Sequence r \<in> {0<..sr_NextSequence s}"
      using v unfolding sessionValid_def sequencesOk_def by blast
    then show ?thesis by auto
  qed
  have "\<exists>w. s' = s\<lparr>sr_Recovery := Some w\<rparr> \<and> recoveryOk limits (sr_NextSequence s) (Some w) \<and>
          rr_Phase w = inputRecoveryOpen"
    using beginRecovery_Inr [OF f] rec tok pos io(1) by (auto simp: recoveryOk_def)
  then obtain w where w: "s' = s\<lparr>sr_Recovery := Some w\<rparr>" "recoveryOk limits (sr_NextSequence s) (Some w)"
    "rr_Phase w = inputRecoveryOpen"
    by blast
  have "sessionValid limits (s\<lparr>sr_Inputs := Some ins, sr_Recovery := Some w\<rparr>) ins outs"
  proof (rule sessionValid_editInputs [OF v _ _ _ w(2)])
    show "\<forall>r\<in>set ins. inputOk limits r \<and> boundaryOk (Some w) r"
      using io(2) w(3) by (simp add: boundaryOk_def)
  qed (use v in \<open>simp_all add: sessionValid_def list_all2_same\<close>)
  moreover have "s\<lparr>sr_Inputs := Some ins, sr_Recovery := Some w\<rparr> = s'"
    using w(1) io(1) by simp
  ultimately show "sessionOk limits s'" using sessionOkI [OF lim] by metis
qed

section \<open>Output closures\<close>

lemma validateOutputValues_Inr:
  "validateOutputValues limits sid oid kind payload = Inr () \<longleftrightarrow>
     validID limits sid \<and> validID limits oid \<and> \<not> blank kind \<and> TrimSpace kind = kind \<and>
     len kind \<le> MaxKindBytes limits \<and> len payload \<le> MaxPayloadBytes limits"
  by (auto simp: validateOutputValues_def result_simps not_less)

lemma enqueueOutput_Inr:
  "enqueueOutput limits sid oid kind payload s = (res, Inr s') \<longleftrightarrow>
     (\<forall>r\<in>set (elems (sr_Outputs s)). or_OperationID r \<noteq> oid) \<and>
     len (elems (sr_Outputs s)) \<noteq> MaxOutputsPerSession limits \<and> sr_NextSequence s \<noteq> maxUint64 \<and>
     (\<exists>r. r = \<lparr>or_OperationID = oid, or_Sequence = sr_NextSequence s + 1, or_Kind = kind,
           or_Payload = payload, or_Phase = OutputPending, or_Receipt = [], or_Lease = noLease\<rparr> \<and>
         res = (outputFromRecord sid r, True) \<and>
         s' = s\<lparr>sr_NextSequence := sr_NextSequence s + 1, sr_Outputs := Some (elems (sr_Outputs s) @ [r])\<rparr>)"
proof (cases "indexOf (\<lambda>r. or_OperationID r = oid) (elems (sr_Outputs s))")
  case None
  then have "\<forall>r\<in>set (elems (sr_Outputs s)). or_OperationID r \<noteq> oid" by (simp add: indexOf_None)
  with None show ?thesis by (auto simp: enqueueOutput_def Let_def)
next
  case (Some i)
  then have "\<exists>r\<in>set (elems (sr_Outputs s)). or_OperationID r = oid"
    by (auto simp: indexOf_Some)
  with Some show ?thesis by (auto simp: enqueueOutput_def Let_def)
qed

interpretation enqueue_output: session_closure limits
  "\<lambda>_. validateOutputValues limits sid oid kind payload = Inr ()"
  "enqueueOutput limits sid oid kind payload" for limits sid oid kind payload
proof unfold_locales
  fix s r s'
  assume f: "enqueueOutput limits sid oid kind payload s = (r, Inr s')"
  then have "sr_NextSequence s \<le> sr_NextSequence s + 1"
    using next_sequence_range(2) [of "sr_NextSequence s"] by (simp add: enqueueOutput_Inr)
  with f show "record_le s s'"
    by (auto simp: enqueueOutput_Inr record_le_def intro: lane_le_append lane_le_refl)
  assume lim: "validateLimits limits = Inr ()" and ok: "sessionOk limits s"
    and req: "validateOutputValues limits sid oid kind payload = Inr ()"
  from ok lim obtain ins outs where v: "sessionValid limits s ins outs" by (rule sessionOkE)
  then have io: "sr_Outputs s = Some outs" "len outs \<le> MaxOutputsPerSession limits"
    by (simp_all add: sessionValid_def)
  define q where "q = \<lparr>or_OperationID = oid, or_Sequence = sr_NextSequence s + 1, or_Kind = kind,
    or_Payload = payload, or_Phase = OutputPending, or_Receipt = [], or_Lease = noLease\<rparr>"
  have q: "outputOk limits q" "or_Sequence q = sr_NextSequence s + 1" "or_OperationID q = oid"
      "s' = s\<lparr>sr_NextSequence := sr_NextSequence s + 1, sr_Outputs := Some (outs @ [q])\<rparr>"
    using f req io
    by (simp_all add: enqueueOutput_Inr outputOk_def validateOutputValues_Inr validateOutputPhase_def
        validateLease_def q_def)
  show "sessionOk limits s'"
    unfolding q(4)
    by (rule sessionOkI [OF lim], rule sessionValid_appendOutput [OF v])
      (use f q io in \<open>auto simp: enqueueOutput_Inr\<close>)
qed

text \<open>A change of the outputs that keeps their identities and leaves them well formed.\<close>

lemma editOutputs_ok:
  assumes "validateLimits limits = Inr ()" and "sessionOk limits s"
    and "list_all2 output_le (elems (sr_Outputs s)) outs'"
    and "\<forall>r\<in>set outs'. outputOk limits r"
  shows "sessionOk limits (s\<lparr>sr_Outputs := Some outs'\<rparr>)"
proof -
  from assms(2,1) obtain ins outs where v: "sessionValid limits s ins outs" by (rule sessionOkE)
  then have "sr_Outputs s = Some outs" by (simp add: sessionValid_def)
  with assms(3) have "list_all2 (\<lambda>r r'. or_OperationID r' = or_OperationID r \<and> or_Sequence r' = or_Sequence r)
      outs outs'"
    by (auto simp: output_le_def elim: list_all2_mono)
  from sessionOkI [OF assms(1) sessionValid_editOutputs [OF v this assms(4)]] show ?thesis .
qed

lemma editOutputs_le:
  "list_all2 output_le (elems (sr_Outputs s)) outs' \<Longrightarrow> record_le s (s\<lparr>sr_Outputs := Some outs'\<rparr>)"
  by (simp add: record_le_def lane_le_refl lane_le_all2)

lemma sessionOk_outputs: "sessionOk limits s \<Longrightarrow> r \<in> set (elems (sr_Outputs s)) \<Longrightarrow> outputOk limits r"
  by (auto simp: sessionOk_def validateSession_def bindE_Inr outputs.validate_iff)

lemma list_all2_output_update:
  "i < length xs \<Longrightarrow> output_le (xs ! i) r \<Longrightarrow> list_all2 output_le xs (xs[i := r])"
  by (simp add: list_all2_conv_all_nth nth_list_update)

subsection \<open>Leasing\<close>

text \<open>Failed, unknown and superseded outputs do not block the ones behind them.\<close>

definition finishedPhase :: "OutputPhase \<Rightarrow> bool" where
  "finishedPhase phase \<longleftrightarrow> phase \<in> {OutputConfirmed, OutputFailed, OutputUnknown, OutputSuperseded}"

lemma leaseNextOutput_Inr:
  assumes "leaseNextOutput sid owner now duration xs = Inr (Some (res, ys))"
  shows "\<exists>i r. i < length xs \<and> or_Phase (xs ! i) = OutputPending \<and>
    (\<forall>j<i. finishedPhase (or_Phase (xs ! j))) \<and> leasable now (or_Lease (xs ! i)) \<and>
    r = (xs ! i)\<lparr>or_Lease := \<lparr>lr_Owner = owner, lr_UntilUnix = UnixNano (now + duration)\<rparr>\<rparr> \<and>
    ys = xs[i := r] \<and> res = outputFromRecord sid r"
  using assms
proof (induction xs arbitrary: ys)
  case Nil
  then show ?case by simp
next
  case (Cons x xs)
  show ?case
  proof (cases "finishedPhase (or_Phase x)")
    case True
    then obtain zs where zs: "leaseNextOutput sid owner now duration xs = Inr (Some (res, zs))" "ys = x # zs"
      using Cons.prems
      by (cases "or_Phase x") (auto simp: finishedPhase_def Let_def bindE_Inr)
    from Cons.IH [OF zs(1)] obtain i r where i: "i < length xs" "or_Phase (xs ! i) = OutputPending"
      "\<forall>j<i. finishedPhase (or_Phase (xs ! j))" "leasable now (or_Lease (xs ! i))"
      "r = (xs ! i)\<lparr>or_Lease := \<lparr>lr_Owner = owner, lr_UntilUnix = UnixNano (now + duration)\<rparr>\<rparr>"
      "zs = xs[i := r]" "res = outputFromRecord sid r"
      by blast
    then show ?thesis
      using True zs(2) by (intro exI [of _ "Suc i"]) (auto simp: less_Suc_eq_0_disj)
  next
    case False
    then show ?thesis
      using Cons.prems
      by (cases "or_Phase x")
        (auto simp: finishedPhase_def leasable_def Let_def split: if_splits intro!: exI [of _ 0])
  qed
qed

text \<open>The part of \<open>leaseOutputs\<close> for one session as a closure.\<close>

definition leaseOutput ::
  "string \<Rightarrow> string \<Rightarrow> time \<Rightarrow> duration \<Rightarrow> sessionRecord \<Rightarrow> Output \<times> (journal_error + sessionRecord)" where
  "leaseOutput sid owner now duration s =
     (case leaseNextOutput sid owner now duration (elems (sr_Outputs s)) of
        Inl e \<Rightarrow> (zeroOutput, Inl e)
      | Inr None \<Rightarrow> (zeroOutput, Inl ErrNoAvailable)
      | Inr (Some (result, records)) \<Rightarrow> (result, Inr (s\<lparr>sr_Outputs := Some records\<rparr>)))"

lemma sessionAt_keep: "sessionAt d sid False limits = Inr (d1, i) \<Longrightarrow> d1 = d"
  by (auto simp: sessionAt_def split: option.splits)

lemma leaseOutputs_Inr:
  assumes "leaseOutputs limits owner now duration sids d = (res, Inr d')"
  shows "\<exists>sid\<in>set sids. onSession d sid False limits zeroOutput id (leaseOutput sid owner now duration) =
           (res, Inr d')"
  using assms
proof (induction sids)
  case Nil
  then show ?case by simp
next
  case (Cons sid sids)
  show ?case
  proof (cases "sessionAt d sid False limits")
    case (Inl e)
    with Cons show ?thesis by (auto split: if_splits)
  next
    case (Inr x)
    then obtain i where x: "sessionAt d sid False limits = Inr (d, i)"
      using sessionAt_keep by (cases x) fastforce
    show ?thesis
    proof (cases "leaseNextOutput sid owner now duration (elems (sr_Outputs (sessionRef d i)))")
      case (Inl e)
      with Cons.prems x show ?thesis by (simp add: Let_def)
    next
      case (Inr y)
      with Cons x show ?thesis
        by (cases y) (auto simp: Let_def onSession_def leaseOutput_def)
    qed
  qed
qed

interpretation lease_output: session_closure limits
  "\<lambda>_. validID limits owner \<and> 0 < UnixNano (now + duration)"
  "leaseOutput sid owner now duration" for limits sid owner now duration
proof unfold_locales
  fix s r s'
  assume "leaseOutput sid owner now duration s = (r, Inr s')"
  then obtain i where i: "i < length (elems (sr_Outputs s))"
      "or_Phase (elems (sr_Outputs s) ! i) = OutputPending"
      "s' = s\<lparr>sr_Outputs := Some ((elems (sr_Outputs s))[i := (elems (sr_Outputs s) ! i)\<lparr>or_Lease :=
              \<lparr>lr_Owner = owner, lr_UntilUnix = UnixNano (now + duration)\<rparr>\<rparr>])\<rparr>"
    by (auto simp: leaseOutput_def split: sum.splits option.splits dest!: leaseNextOutput_Inr)
  let ?r = "(elems (sr_Outputs s) ! i)\<lparr>or_Lease := \<lparr>lr_Owner = owner, lr_UntilUnix = UnixNano (now + duration)\<rparr>\<rparr>"
  have all: "list_all2 output_le (elems (sr_Outputs s)) ((elems (sr_Outputs s))[i := ?r])"
    using i(1,2) by (intro list_all2_output_update) (simp_all add: output_le_def)
  then show "record_le s s'" unfolding i(3) by (rule editOutputs_le)
  assume lim: "validateLimits limits = Inr ()" and ok: "sessionOk limits s"
    and req: "validID limits owner \<and> 0 < UnixNano (now + duration)"
  have "outputOk limits ?r"
    using sessionOk_outputs [OF ok nth_mem [OF i(1)]] i(2) req
    by (auto simp: outputOk_def validateOutputPhase_def validateLease_new result_simps)
  then show "sessionOk limits s'"
    unfolding i(3) using sessionOk_outputs [OF ok]
    by (intro editOutputs_ok [OF lim ok all]) (auto dest!: set_update_subset_insert [THEN subsetD])
qed

subsection \<open>Superseding\<close>

interpretation supersede: session_closure limits "\<lambda>_. True" "supersedeOutputs sid keep kinds"
  for limits sid keep kinds
proof unfold_locales
  fix s r s'
  assume "supersedeOutputs sid keep kinds s = (r, Inr s')"
  then obtain hit where s': "s' = s\<lparr>sr_Outputs := Some (map (\<lambda>r. if hit r
        then r\<lparr>or_Phase := OutputSuperseded\<rparr> else r) (elems (sr_Outputs s)))\<rparr>"
    and hit: "\<And>r. hit r \<Longrightarrow> or_Phase r = OutputPending \<and> lr_Owner (or_Lease r) = []"
    by (auto simp: supersedeOutputs_def superseded_def Let_def split: if_splits)
  let ?outs = "map (\<lambda>r. if hit r then r\<lparr>or_Phase := OutputSuperseded\<rparr> else r) (elems (sr_Outputs s))"
  have all: "list_all2 output_le (elems (sr_Outputs s)) ?outs"
    using hit by (auto simp: list_all2_conv_all_nth output_le_def)
  then show "record_le s s'" unfolding s' by (rule editOutputs_le)
  assume lim: "validateLimits limits = Inr ()" and ok: "sessionOk limits s"
  have "outputOk limits (r\<lparr>or_Phase := OutputSuperseded\<rparr>)" if "outputOk limits r" "hit r" for r
    using that(1) hit [OF that(2)]
    by (auto simp: outputOk_def validateOutputPhase_def validateLease_def validID_def result_simps
        split: if_splits)
  then show "sessionOk limits s'"
    unfolding s' using sessionOk_outputs [OF ok] by (intro editOutputs_ok [OF lim ok all]) auto
qed

subsection \<open>Transitions of one output\<close>

lemma updateOutput_Inr:
  assumes "updateOutput sid oid tr s = (res, Inr s')"
  obtains i r' where "i < length (elems (sr_Outputs s))" "or_OperationID (elems (sr_Outputs s) ! i) = oid"
    "tr (elems (sr_Outputs s) ! i) = Inr r'" "res = outputFromRecord sid r'"
    "s' = s\<lparr>sr_Outputs := Some ((elems (sr_Outputs s))[i := r'])\<rparr>"
  using assms
  by (auto simp: updateOutput_def Let_def indexOf_Some split: option.splits sum.splits)

locale output_transition =
  fixes limits :: Limits
    and request :: bool
    and tr :: "outputRecord \<Rightarrow> journal_error + outputRecord"
  assumes tr_le: "tr r = Inr r' \<Longrightarrow> output_le r r'"
    and tr_ok: "request \<Longrightarrow> outputOk limits r \<Longrightarrow> tr r = Inr r' \<Longrightarrow> outputOk limits r'"
begin

lemma update_le:
  assumes "updateOutput sid oid tr s = (res, Inr s')"
  shows "record_le s s'"
  by (rule updateOutput_Inr [OF assms])
    (auto intro!: editOutputs_le list_all2_output_update tr_le)

lemma update_ok:
  assumes "validateLimits limits = Inr ()" and "sessionOk limits s" and "request"
    and "updateOutput sid oid tr s = (res, Inr s')"
  shows "sessionOk limits s'"
proof -
  obtain i r' where i: "i < length (elems (sr_Outputs s))" "tr (elems (sr_Outputs s) ! i) = Inr r'"
    "s' = s\<lparr>sr_Outputs := Some ((elems (sr_Outputs s))[i := r'])\<rparr>"
    by (rule updateOutput_Inr [OF assms(4)])
  have "outputOk limits r'"
    by (rule tr_ok [OF assms(3) _ i(2)], rule sessionOk_outputs [OF assms(2) nth_mem [OF i(1)]])
  then show ?thesis
    unfolding i(3) using sessionOk_outputs [OF assms(2)] i(1)
    by (intro editOutputs_ok [OF assms(1,2)] list_all2_output_update tr_le [OF i(2)])
      (auto dest!: set_update_subset_insert [THEN subsetD])
qed

end

sublocale output_transition \<subseteq> session_closure limits "\<lambda>_. request" "updateOutput sid oid tr" for sid oid
  by unfold_locales (use update_le update_ok in blast)+

lemmas output_transition_defs = confirmTransition_def finishTransition_def retryOutputTransition_def
  ownerCheck_def output_le_def outputOk_def validateOutputPhase_def

interpretation confirm: output_transition limits
  "\<not> blank receipt \<and> len receipt \<le> MaxReceiptBytes limits" "confirmTransition owner receipt"
  for limits owner receipt
  by unfold_locales (auto simp: output_transition_defs result_simps split: if_splits)

interpretation finish: output_transition limits "phase \<in> {OutputFailed, OutputUnknown}"
  "finishTransition phase owner" for limits phase owner
  by unfold_locales (auto simp: output_transition_defs result_simps)

interpretation retry_output: output_transition limits True retryOutputTransition for limits
  by unfold_locales (auto simp: output_transition_defs validateLease_def result_simps)

end
