(* ===== verification/Journal_Machine.thy ===== *)
theory Journal_Machine
  imports Journal_History
begin

text \<open>
  The journal as a machine: one event per operation, the change of the document it makes, the
  invariant and the order of its runs, and the refinement of the document by the disk.
\<close>

section \<open>Events\<close>

text \<open>
  One event per operation that can change the journal, with the values its caller passes; the
  request check made before the file is read; and the change of the document.
\<close>

datatype journal_event =
    EvEnqueueInput string string string "AttachmentRef list"
  | EvLeaseInput string string time duration
  | EvAccept string string string
  | EvReplacePayload string string string u64 string
  | EvRelease string string string
  | EvDeliveryFailed string string string
  | EvDeliveryUnknown string string string
  | EvComplete string string
  | EvFail string string
  | EvUnknown string string
  | EvRetryInput string string
  | EvResolveUnknown string string u64 InputPhase
  | EvResolveAccepted string string u64 InputPhase
  | EvEnqueueOutput string string string string
  | EvLeaseOutput "string list" string time duration
  | EvSupersede string string "string list"
  | EvConfirm string string string string
  | EvOutputFailed string string string
  | EvOutputUnknown string string string
  | EvRetryOutput string string
  | EvBeginRecovery string string bool
  | EvCommitSkip string string
  | EvCommitAttach string string

fun journal_request :: "Limits \<Rightarrow> journal_event \<Rightarrow> journal_error + unit" where
  "journal_request limits (EvEnqueueInput sid mid payload atts) = validateInputValues limits sid mid payload atts"
| "journal_request limits (EvLeaseInput sid owner now dur) = validateLeaseRequest limits None sid owner now dur"
| "journal_request limits (EvAccept sid mid owner) = validateInputIdentity limits sid mid"
| "journal_request limits (EvReplacePayload sid mid owner seq payload) =
     bindE (failIf (len payload > MaxPayloadBytes limits) (JournalError ''input payload exceeds limit'')) (\<lambda>_.
     validateInputIdentity limits sid mid)"
| "journal_request limits (EvRelease sid mid owner) = validateInputIdentity limits sid mid"
| "journal_request limits (EvDeliveryFailed sid mid owner) = validateInputIdentity limits sid mid"
| "journal_request limits (EvDeliveryUnknown sid mid owner) = validateInputIdentity limits sid mid"
| "journal_request limits (EvComplete sid mid) = validateInputIdentity limits sid mid"
| "journal_request limits (EvFail sid mid) = validateInputIdentity limits sid mid"
| "journal_request limits (EvUnknown sid mid) = validateInputIdentity limits sid mid"
| "journal_request limits (EvRetryInput sid mid) = validateInputIdentity limits sid mid"
| "journal_request limits (EvResolveUnknown sid mid seq outcome) =
     bindE (failIf (seq = 0 \<or> outcome \<noteq> InputCompleted \<and> outcome \<noteq> InputFailed \<and>
                    outcome \<noteq> InputTerminalFailed) ErrInvalidTransition) (\<lambda>_.
     validateInputIdentity limits sid mid)"
| "journal_request limits (EvResolveAccepted sid mid seq outcome) =
     bindE (failIf (seq = 0 \<or> outcome \<noteq> InputCompleted \<and> outcome \<noteq> InputFailed \<and>
                    outcome \<noteq> InputUnknown \<and> outcome \<noteq> InputTerminalFailed) ErrInvalidTransition) (\<lambda>_.
     validateInputIdentity limits sid mid)"
| "journal_request limits (EvEnqueueOutput sid oid kind payload) = validateOutputValues limits sid oid kind payload"
| "journal_request limits (EvLeaseOutput sids owner now dur) = validateLeaseOutputsRequest limits None sids owner now dur"
| "journal_request limits (EvSupersede sid keep kinds) = validateSupersedeRequest limits sid keep kinds"
| "journal_request limits (EvConfirm sid oid owner receipt) =
     bindE (failIf (blank receipt \<or> len receipt > MaxReceiptBytes limits)
              (JournalError ''output receipt is invalid'')) (\<lambda>_.
     validateOutputIdentity limits sid oid)"
| "journal_request limits (EvOutputFailed sid oid owner) = validateOutputIdentity limits sid oid"
| "journal_request limits (EvOutputUnknown sid oid owner) = validateOutputIdentity limits sid oid"
| "journal_request limits (EvRetryOutput sid oid) = validateOutputIdentity limits sid oid"
| "journal_request limits (EvBeginRecovery sid token legacy) = validateRecoveryRequest limits sid token"
| "journal_request limits (EvCommitSkip sid token) = validateRecoveryRequest limits sid token"
| "journal_request limits (EvCommitAttach sid token) = validateRecoveryRequest limits sid token"

text \<open>The change of an input by its message id, and of an output by its operation id.\<close>

definition inputChange :: "Limits \<Rightarrow> string \<Rightarrow> string \<Rightarrow> inputTransition \<Rightarrow> Input change" where
  "inputChange limits sid mid tr d =
     onSession d sid False limits zeroInput (\<lambda>_. ErrNotFound) (updateInput sid mid tr)"

definition outputChange ::
  "Limits \<Rightarrow> string \<Rightarrow> string \<Rightarrow> (outputRecord \<Rightarrow> journal_error + outputRecord) \<Rightarrow> Output change" where
  "outputChange limits sid oid tr d =
     onSession d sid False limits zeroOutput (\<lambda>_. ErrNotFound) (updateOutput sid oid tr)"

fun journal_change :: "Limits \<Rightarrow> journal_event \<Rightarrow> document \<Rightarrow> journal_error + document" where
  "journal_change limits (EvEnqueueInput sid mid payload atts) d =
     snd (onSession d sid True limits (zeroInput, False) id (enqueueInput limits sid mid payload atts))"
| "journal_change limits (EvLeaseInput sid owner now dur) d =
     snd (onSession d sid False limits zeroInput (\<lambda>_. ErrNoAvailable) (leaseInput sid owner now dur))"
| "journal_change limits (EvAccept sid mid owner) d = snd (inputChange limits sid mid (acceptTransition owner) d)"
| "journal_change limits (EvReplacePayload sid mid owner seq payload) d =
     snd (inputChange limits sid mid (\<lambda>_. replacePayloadTransition owner seq payload) d)"
| "journal_change limits (EvRelease sid mid owner) d = snd (inputChange limits sid mid (\<lambda>_. releaseTransition owner) d)"
| "journal_change limits (EvDeliveryFailed sid mid owner) d =
     snd (inputChange limits sid mid (\<lambda>_. deliveryTransition InputFailed owner) d)"
| "journal_change limits (EvDeliveryUnknown sid mid owner) d =
     snd (inputChange limits sid mid (\<lambda>_. deliveryTransition InputUnknown owner) d)"
| "journal_change limits (EvComplete sid mid) d =
     snd (inputChange limits sid mid (\<lambda>_. outcomeTransition 0 InputCompleted InputAccepted) d)"
| "journal_change limits (EvFail sid mid) d =
     snd (inputChange limits sid mid (\<lambda>_. outcomeTransition 0 InputFailed InputAccepted) d)"
| "journal_change limits (EvUnknown sid mid) d =
     snd (inputChange limits sid mid (\<lambda>_. outcomeTransition 0 InputUnknown InputAccepted) d)"
| "journal_change limits (EvRetryInput sid mid) d = snd (inputChange limits sid mid (retryTransition limits) d)"
| "journal_change limits (EvResolveUnknown sid mid seq outcome) d =
     snd (inputChange limits sid mid (\<lambda>_. outcomeTransition seq outcome InputUnknown) d)"
| "journal_change limits (EvResolveAccepted sid mid seq outcome) d =
     snd (inputChange limits sid mid (\<lambda>_. outcomeTransition seq outcome InputAccepted) d)"
| "journal_change limits (EvEnqueueOutput sid oid kind payload) d =
     snd (onSession d sid True limits (zeroOutput, False) id (enqueueOutput limits sid oid kind payload))"
| "journal_change limits (EvLeaseOutput sids owner now dur) d = snd (leaseOutputs limits owner now dur sids d)"
| "journal_change limits (EvSupersede sid keep kinds) d =
     (if kinds = [] then Inl errNoMutation
      else snd (onSession d sid False limits [] id (supersedeOutputs sid keep kinds)))"
| "journal_change limits (EvConfirm sid oid owner receipt) d = snd (outputChange limits sid oid (confirmTransition owner receipt) d)"
| "journal_change limits (EvOutputFailed sid oid owner) d = snd (outputChange limits sid oid (finishTransition OutputFailed owner) d)"
| "journal_change limits (EvOutputUnknown sid oid owner) d = snd (outputChange limits sid oid (finishTransition OutputUnknown owner) d)"
| "journal_change limits (EvRetryOutput sid oid) d = snd (outputChange limits sid oid retryOutputTransition d)"
| "journal_change limits (EvBeginRecovery sid token legacy) d =
     snd (onSession d sid False limits False
       (\<lambda>e. if errorIs e ErrNotFound then errNoMutation else e) (beginRecovery token legacy))"
| "journal_change limits (EvCommitSkip sid token) d =
     snd (onSession d sid False limits () (\<lambda>_. ErrNotFound)
       (commitRecovery inputRecoveryCommitted skipInputs token))"
| "journal_change limits (EvCommitAttach sid token) d =
     snd (onSession d sid False limits () (\<lambda>_. ErrNotFound)
       (commitRecovery inputRecoveryAttached attachInputs token))"

text \<open>A step of the journal is a change that validation accepts.\<close>

definition journal_step :: "Limits \<Rightarrow> document \<Rightarrow> journal_event \<Rightarrow> document \<Rightarrow> bool" where
  "journal_step limits d ev d' \<longleftrightarrow>
     journal_request limits ev = Inr () \<and> journal_change limits ev d = Inr d' \<and>
     validateDocument d' limits = Inr ()"

text \<open>The operation of an event, on the disk, without the record it returns.\<close>

definition erase :: "('r \<times> journal_error option) \<times> disk \<Rightarrow> journal_error option \<times> disk" where
  "erase outcome = (snd (fst outcome), snd outcome)"

fun journal_op ::
  "Journal \<Rightarrow> system_calls \<Rightarrow> ctx \<Rightarrow> journal_event \<Rightarrow> disk \<Rightarrow> journal_error option \<times> disk" where
  "journal_op j sys ctx (EvEnqueueInput sid mid payload atts) disk =
     erase (EnqueueInputWithAttachments j sys ctx sid mid payload atts disk)"
| "journal_op j sys ctx (EvLeaseInput sid owner now dur) disk = erase (LeaseNextInput j sys ctx sid owner now dur disk)"
| "journal_op j sys ctx (EvAccept sid mid owner) disk = erase (MarkInputAccepted j sys ctx sid mid owner disk)"
| "journal_op j sys ctx (EvReplacePayload sid mid owner seq payload) disk =
     erase (ReplaceLeasedInputPayload j sys ctx sid mid owner seq payload disk)"
| "journal_op j sys ctx (EvRelease sid mid owner) disk = erase (ReleaseInputLease j sys ctx sid mid owner disk)"
| "journal_op j sys ctx (EvDeliveryFailed sid mid owner) disk = erase (MarkInputDeliveryFailed j sys ctx sid mid owner disk)"
| "journal_op j sys ctx (EvDeliveryUnknown sid mid owner) disk = erase (MarkInputDeliveryUnknown j sys ctx sid mid owner disk)"
| "journal_op j sys ctx (EvComplete sid mid) disk = erase (CompleteInput j sys ctx sid mid disk)"
| "journal_op j sys ctx (EvFail sid mid) disk = erase (FailInput j sys ctx sid mid disk)"
| "journal_op j sys ctx (EvUnknown sid mid) disk = erase (MarkInputUnknown j sys ctx sid mid disk)"
| "journal_op j sys ctx (EvRetryInput sid mid) disk = erase (RetryInput j sys ctx sid mid disk)"
| "journal_op j sys ctx (EvResolveUnknown sid mid seq outcome) disk =
     erase (ResolveUnknownInput j sys ctx sid mid seq outcome disk)"
| "journal_op j sys ctx (EvResolveAccepted sid mid seq outcome) disk =
     erase (ResolveAcceptedInput j sys ctx sid mid seq outcome disk)"
| "journal_op j sys ctx (EvEnqueueOutput sid oid kind payload) disk = erase (EnqueueOutput j sys ctx sid oid kind payload disk)"
| "journal_op j sys ctx (EvLeaseOutput sids owner now dur) disk =
     erase (LeaseNextOutputForSessions j sys ctx sids owner now dur disk)"
| "journal_op j sys ctx (EvSupersede sid keep kinds) disk = erase (SupersedePendingOutputs j sys ctx sid keep kinds disk)"
| "journal_op j sys ctx (EvConfirm sid oid owner receipt) disk = erase (ConfirmOutput j sys ctx sid oid owner receipt disk)"
| "journal_op j sys ctx (EvOutputFailed sid oid owner) disk = erase (MarkOutputFailed j sys ctx sid oid owner disk)"
| "journal_op j sys ctx (EvOutputUnknown sid oid owner) disk = erase (MarkOutputUnknown j sys ctx sid oid owner disk)"
| "journal_op j sys ctx (EvRetryOutput sid oid) disk = erase (RetryOutput j sys ctx sid oid disk)"
| "journal_op j sys ctx (EvBeginRecovery sid token legacy) disk = erase (BeginInputRecovery j sys ctx sid token legacy disk)"
| "journal_op j sys ctx (EvCommitSkip sid token) disk = erase (CommitInputRecoverySkip j sys ctx sid token disk)"
| "journal_op j sys ctx (EvCommitAttach sid token) disk = erase (CommitInputRecoveryAttach j sys ctx sid token disk)"

section \<open>The document machine\<close>

text \<open>The one exception to validity: an ambiguous outcome inside an attached boundary.\<close>

definition attachedTo :: "document \<Rightarrow> string \<Rightarrow> string \<Rightarrow> bool" where
  "attachedTo d sid mid \<longleftrightarrow>
     (case findSession d sid of None \<Rightarrow> False | Some s \<Rightarrow> attachedInput mid s)"

fun ambiguous_event :: "document \<Rightarrow> journal_event \<Rightarrow> bool" where
  "ambiguous_event d (EvDeliveryFailed sid mid owner) = attachedTo d sid mid"
| "ambiguous_event d (EvDeliveryUnknown sid mid owner) = attachedTo d sid mid"
| "ambiguous_event d (EvFail sid mid) = attachedTo d sid mid"
| "ambiguous_event d (EvResolveAccepted sid mid seq outcome) = (outcome = InputFailed \<and> attachedTo d sid mid)"
| "ambiguous_event d _ = False"

lemma emptySession_not_attached: "\<not> attachedInput mid (emptySession sid)"
  by (simp add: attachedInput_def emptySession_def)

lemma not_attachedTo:
  "\<not> attachedTo d sid mid \<Longrightarrow> findSession d sid = Some s \<or> findSession d sid = None \<and> s = emptySession sid
     \<Longrightarrow> \<not> attachedInput mid s"
  by (auto simp: attachedTo_def emptySession_not_attached)

lemmas change_defs = inputChange_def outputChange_def

lemma leaseOutputs_snd:
  assumes "snd (leaseOutputs limits owner now duration sids d) = Inr d'"
  obtains sid where "sid \<in> set sids"
    "snd (onSession d sid False limits zeroOutput id (leaseOutput sid owner now duration)) = Inr d'"
  using assms leaseOutputs_Inr [of limits owner now duration sids d] by (metis prod.collapse snd_conv)

lemma step_le:
  assumes "validateLimits limits = Inr ()" and "validateDocument d limits = Inr ()"
    and "journal_request limits ev = Inr ()" and "journal_change limits ev d = Inr d'"
  shows "document_le d d'"
proof (cases ev)
  case (EvEnqueueInput sid mid payload atts)
  with assms have "sessionOk limits (emptySession sid)"
    by (intro emptySession_ok) (simp_all add: validateInputValues_Inr)
  with assms EvEnqueueInput show ?thesis by (auto intro: enqueue_input.on_le)
next
  case (EvEnqueueOutput sid oid kind payload)
  with assms have "sessionOk limits (emptySession sid)"
    by (intro emptySession_ok) (simp_all add: validateOutputValues_Inr)
  with assms EvEnqueueOutput show ?thesis by (auto intro: enqueue_output.on_le)
next
  case (EvLeaseOutput sids owner now dur)
  with assms(4) obtain sid where
    "snd (onSession d sid False limits zeroOutput id (leaseOutput sid owner now dur)) = Inr d'"
    by (auto elim: leaseOutputs_snd)
  from lease_output.on_le [OF this assms(2)] show ?thesis by simp
qed (use assms in \<open>auto simp: change_defs split: if_splits
      dest: lease_input.on_le accept.on_le replace_payload.on_le release.on_le delivery.on_le
        outcome_accepted.on_le outcome_unknown.on_le retry.on_le supersede.on_le confirm.on_le
        finish.on_le retry_output.on_le begin_recovery.on_le commit_skip.on_le commit_attach.on_le\<close>)

lemma step_ok:
  assumes "validateLimits limits = Inr ()" and "validateDocument d limits = Inr ()"
    and "journal_request limits ev = Inr ()" and "journal_change limits ev d = Inr d'"
    and "\<not> ambiguous_event d ev"
  shows "validateDocument d' limits = Inr ()"
proof (cases ev)
  case (EvEnqueueInput sid mid payload atts)
  with assms have "sessionOk limits (emptySession sid)"
    by (intro emptySession_ok) (simp_all add: validateInputValues_Inr)
  with assms EvEnqueueInput show ?thesis by (auto intro: enqueue_input.on_ok)
next
  case (EvEnqueueOutput sid oid kind payload)
  with assms have "sessionOk limits (emptySession sid)"
    by (intro emptySession_ok) (simp_all add: validateOutputValues_Inr)
  with assms EvEnqueueOutput show ?thesis by (auto intro: enqueue_output.on_ok)
next
  case (EvLeaseOutput sids owner now dur)
  with assms(4) obtain sid where
    "snd (onSession d sid False limits zeroOutput id (leaseOutput sid owner now dur)) = Inr d'"
    by (auto elim: leaseOutputs_snd)
  moreover have "validID limits owner" "0 < UnixNano (now + dur)"
    using assms(3) EvLeaseOutput
    by (auto simp: validateLeaseOutputsRequest_def validateLeaseRequest_Inr bindE_Inr split: list.splits)
  ultimately show ?thesis using assms(1,2) by (auto intro: lease_output.on_ok)
next
  case (EvDeliveryFailed sid mid owner)
  with assms not_attachedTo [of d sid mid] show ?thesis
    by (auto simp: change_defs intro: delivery.on_ok)
next
  case (EvDeliveryUnknown sid mid owner)
  with assms not_attachedTo [of d sid mid] show ?thesis
    by (auto simp: change_defs intro: delivery.on_ok)
next
  case (EvFail sid mid)
  with assms not_attachedTo [of d sid mid] show ?thesis
    by (auto simp: change_defs intro: outcome_accepted.on_ok)
next
  case (EvResolveAccepted sid mid seq outcome)
  with assms have "outcome \<in> {InputCompleted, InputFailed, InputUnknown, InputTerminalFailed}"
    by (auto simp: result_simps)
  with EvResolveAccepted assms not_attachedTo [of d sid mid] show ?thesis
    by (auto simp: change_defs intro: outcome_accepted.on_ok)
next
  case (EvResolveUnknown sid mid seq outcome)
  with assms have "outcome \<in> {InputCompleted, InputFailed, InputTerminalFailed}"
    by (auto simp: result_simps)
  with EvResolveUnknown assms show ?thesis
    by (auto simp: change_defs intro: outcome_unknown.on_ok)
next
  case (EvLeaseInput sid owner now dur)
  with assms show ?thesis by (auto intro: lease_input.on_ok)
next
  case (EvReplacePayload sid mid owner seq payload)
  with assms show ?thesis by (auto simp: change_defs result_simps intro: replace_payload.on_ok)
next
  case (EvComplete sid mid)
  with assms show ?thesis by (auto simp: change_defs intro: outcome_accepted.on_ok)
next
  case (EvUnknown sid mid)
  with assms show ?thesis by (auto simp: change_defs intro: outcome_accepted.on_ok)
next
  case (EvConfirm sid oid owner receipt)
  with assms show ?thesis by (auto simp: change_defs result_simps intro: confirm.on_ok)
next
  case (EvOutputFailed sid oid owner)
  with assms show ?thesis by (auto simp: change_defs intro: finish.on_ok)
next
  case (EvOutputUnknown sid oid owner)
  with assms show ?thesis by (auto simp: change_defs intro: finish.on_ok)
next
  case (EvBeginRecovery sid token legacy)
  with assms show ?thesis by (auto intro: begin_recovery.on_ok)
next
  case (EvSupersede sid keep kinds)
  with assms show ?thesis by (auto split: if_splits intro: supersede.on_ok)
next
  case (EvAccept sid mid owner)
  with assms show ?thesis by (auto simp: change_defs intro: accept.on_ok)
next
  case (EvRelease sid mid owner)
  with assms show ?thesis by (auto simp: change_defs intro: release.on_ok)
next
  case (EvRetryInput sid mid)
  with assms show ?thesis by (auto simp: change_defs intro: retry.on_ok)
next
  case (EvRetryOutput sid oid)
  with assms show ?thesis by (auto simp: change_defs intro: retry_output.on_ok)
next
  case (EvCommitSkip sid token)
  with assms show ?thesis by (auto intro: commit_skip.on_ok)
next
  case (EvCommitAttach sid token)
  with assms show ?thesis by (auto intro: commit_attach.on_ok)
qed

text \<open>
  The document machine: its invariant is validity, together with usable limits, and its order
  the history order.
\<close>

interpretation journal: ordered_machine "journal_step limits"
  "\<lambda>d. validateLimits limits = Inr () \<and> validateDocument d limits = Inr ()" document_le for limits
  by unfold_locales
    (auto simp: journal_step_def document_le_refl intro: document_le_trans step_le)

section \<open>The disk refines the document\<close>

lemma syscall_cases [simp]:
  "syscall None failed rest = rest" "syscall (Some e) failed rest = failed e"
  by (simp_all add: syscall_def)

lemma withExclusiveFileLock_cases:
  "withExclusiveFileLock calls failed action = action \<or>
   (\<exists>e. withExclusiveFileLock calls failed action = failed e \<and> \<not> errorIs e errNoMutation)"
  by (auto simp: withExclusiveFileLock_def syscall_def split: option.split)

lemma atomicWrite_cases:
  "atomicWrite calls disk data = (None, Some \<lparr>f_regular = True, f_data = data\<rparr>) \<or>
   (\<exists>e. atomicWrite calls disk data = (Some (IOError e), disk) \<or>
        atomicWrite calls disk data = (Some (IOError e), Some \<lparr>f_regular = True, f_data = data\<rparr>))"
  by (auto simp: atomicWrite_def syscall_def Let_def split: option.split)

lemma journal_read_valid:
  assumes "journal_read j calls disk = Inr d" and "validateLimits (j_limits j) = Inr ()"
  shows "validateDocument d (j_limits j) = Inr ()"
proof (cases disk)
  case None
  have "0 < MaxSessions (j_limits j)" using assms(2) by (simp add: validateLimits_def result_simps)
  with None assms(1) show ?thesis
    by (auto simp: journal_read_def emptyDocument_def validateDocument_def result_simps)
next
  case (Some f)
  with assms(1) show ?thesis
    by (auto simp: journal_read_def syscall_def decodeDocument_def bindE_Inr Let_def
        split: option.splits if_splits sum.splits)
qed

lemma legacyCheck_error: "legacyCheck d = Inl e \<Longrightarrow> \<not> errorIs e errNoMutation"
  by (auto simp: legacyCheck_def bindE_Inl failIf_Inl split: if_splits dest!: forE_InlD)

lemma journal_read_error: "journal_read j calls disk = Inl e \<Longrightarrow> \<not> errorIs e errNoMutation"
  by (auto simp: journal_read_def syscall_def decodeDocument_def Let_def bindE_Inl failIf_Inl
      split: option.splits if_splits sum.splits dest: legacyCheck_error)

lemma validate_errors:
  "validateOpaqueID v n name = Inl e \<Longrightarrow> \<not> errorIs e errNoMutation"
  "validateLease l limits = Inl e \<Longrightarrow> \<not> errorIs e errNoMutation"
  "validateAttachmentRecord a limits = Inl e \<Longrightarrow> \<not> errorIs e errNoMutation"
proof -
  show ids: "validateOpaqueID v n name = Inl e \<Longrightarrow> \<not> errorIs e errNoMutation" for v n name
    by (auto simp: validateOpaqueID_def failIf_Inl)
  show "validateLease l limits = Inl e \<Longrightarrow> \<not> errorIs e errNoMutation"
    by (auto simp: validateLease_def bindE_Inl failIf_Inl split: if_splits dest: ids)
  show "validateAttachmentRecord a limits = Inl e \<Longrightarrow> \<not> errorIs e errNoMutation"
    by (auto simp: validateAttachmentRecord_def bindE_Inl failIf_Inl dest!: forE_InlD)
qed

lemma validateInputs_error: "validateInputs limits seen prev xs = Inl e \<Longrightarrow> \<not> errorIs e errNoMutation"
  by (induction limits seen prev xs rule: validateInputs.induct)
    (auto simp: bindE_Inl failIf_Inl validateInputPhase_def split: InputPhase.splits
      dest!: forE_InlD dest: validate_errors)

lemma validateOutputs_error: "validateOutputs limits seen prev xs = Inl e \<Longrightarrow> \<not> errorIs e errNoMutation"
  by (induction limits seen prev xs rule: validateOutputs.induct)
    (auto simp: bindE_Inl failIf_Inl validateOutputPhase_def split: OutputPhase.splits
      dest: validate_errors)

lemma validateRecovery_error: "validateRecovery s limits = Inl e \<Longrightarrow> \<not> errorIs e errNoMutation"
  by (auto simp: validateRecovery_def bindE_Inl failIf_Inl
      split: option.splits inputRecoveryPhase.splits dest!: forE_InlD dest: validate_errors)

lemma validateSession_error: "validateSession s limits = Inl e \<Longrightarrow> \<not> errorIs e errNoMutation"
  by (auto simp: validateSession_def validateSequences_def Let_def bindE_Inl failIf_Inl
      dest!: forE_InlD dest: validateInputs_error validateOutputs_error validateRecovery_error)

lemma validateDocument_error: "validateDocument d limits = Inl e \<Longrightarrow> \<not> errorIs e errNoMutation"
proof -
  have "validateSessions limits seen ss = Inl e \<Longrightarrow> \<not> errorIs e errNoMutation" for seen ss
    by (induction limits seen ss rule: validateSessions.induct)
      (auto simp: bindE_Inl failIf_Inl split: sum.splits dest: validate_errors validateSession_error)
  then show "validateDocument d limits = Inl e \<Longrightarrow> \<not> errorIs e errNoMutation"
    by (auto simp: validateDocument_def bindE_Inl failIf_Inl)
qed

text \<open>
  The outcomes of \<open>mutate\<close>: without an error the changed document is in the file; with one, the
  file is untouched or holds the complete changed document.
\<close>

definition written :: "Journal \<Rightarrow> document \<Rightarrow> disk \<Rightarrow> bool" where
  "written j d disk \<longleftrightarrow>
     (\<exists>data. c_Marshal (j_codec j) d = Inr data \<and> disk = Some \<lparr>f_regular = True, f_data = data\<rparr>)"

lemma persist_cases:
  assumes "persist j sys d disk = (err, disk')"
  shows "disk' = disk \<and> err \<noteq> None \<or> written j d disk'"
    and "err = None \<Longrightarrow> written j d disk' \<and> journal_read j (sys_reread sys) disk' = Inr d"
    and "err = Some e \<Longrightarrow> \<not> errorIs e errNoMutation"
proof -
  show "disk' = disk \<and> err \<noteq> None \<or> written j d disk'"
  proof (cases "c_Marshal (j_codec j) d")
    case (Inl e)
    with assms show ?thesis by (auto simp: persist_def)
  next
    case (Inr data)
    with assms atomicWrite_cases [of "sys_write sys" disk data] show ?thesis
      by (auto simp: persist_def written_def split: if_splits sum.splits)
  qed
  show "written j d disk' \<and> journal_read j (sys_reread sys) disk' = Inr d" if "err = None"
  proof (cases "c_Marshal (j_codec j) d")
    case (Inl e)
    with assms that show ?thesis by (auto simp: persist_def)
  next
    case (Inr data)
    with assms that atomicWrite_cases [of "sys_write sys" disk data] show ?thesis
      by (auto simp: persist_def written_def split: if_splits sum.splits)
  qed
  show "\<not> errorIs e errNoMutation" if "err = Some e"
  proof (cases "c_Marshal (j_codec j) d")
    case (Inl e)
    with assms that show ?thesis by (auto simp: persist_def)
  next
    case (Inr data)
    with assms that atomicWrite_cases [of "sys_write sys" disk data] show ?thesis
      by (auto simp: persist_def split: if_splits sum.splits dest!: journal_read_error)
  qed
qed

lemma mutate_ok:
  assumes "mutate j sys r0 change disk = ((r, None), disk')"
  obtains d d' where "journal_read j (sys_read sys) disk = Inr d" "change d = (r, Inr d')"
    "validateDocument d' (j_limits j) = Inr ()" "written j d' disk'"
    "journal_read j (sys_reread sys) disk' = Inr d'"
proof -
  have "mutateLocked j sys r0 change disk = ((r, None), disk')"
    using assms withExclusiveFileLock_cases [of "sys_lock sys" "\<lambda>e. ((r0, Some e), disk)"
        "mutateLocked j sys r0 change disk"]
    by (auto simp: mutate_def)
  then show thesis
    by (auto simp: mutateLocked_def split: sum.splits prod.splits
        dest: persist_cases(2) intro: that)
qed

lemma mutate_error:
  assumes "mutate j sys r0 change disk = ((r, Some e), disk')"
  shows "disk' = disk \<or>
      (\<exists>d d'. journal_read j (sys_read sys) disk = Inr d \<and> change d = (r, Inr d') \<and>
         validateDocument d' (j_limits j) = Inr () \<and> written j d' disk')"
    and "errorIs e errNoMutation \<Longrightarrow>
      disk' = disk \<and> (\<exists>d. journal_read j (sys_read sys) disk = Inr d \<and> change d = (r, Inl e))"
proof -
  consider "mutateLocked j sys r0 change disk = ((r, Some e), disk')"
    | "disk' = disk" "\<not> errorIs e errNoMutation"
    using assms withExclusiveFileLock_cases [of "sys_lock sys" "\<lambda>e. ((r0, Some e), disk)"
        "mutateLocked j sys r0 change disk"]
    by (auto simp: mutate_def)
  note cases = this
  show "disk' = disk \<or> (\<exists>d d'. journal_read j (sys_read sys) disk = Inr d \<and> change d = (r, Inr d') \<and>
      validateDocument d' (j_limits j) = Inr () \<and> written j d' disk')"
    by (rule cases)
      (auto simp: mutateLocked_def split: sum.splits prod.splits dest: persist_cases(1))
  show "disk' = disk \<and> (\<exists>d. journal_read j (sys_read sys) disk = Inr d \<and> change d = (r, Inl e))"
    if "errorIs e errNoMutation"
    by (rule cases)
      (use that in \<open>auto simp: mutateLocked_def split: sum.splits prod.splits
        dest!: persist_cases(3) journal_read_error validateDocument_error\<close>)
qed

text \<open>
  What an operation may do to the file: nothing, when it fails or finds the change already
  made; or one step of the document machine, completely written.
\<close>

definition refines ::
  "Journal \<Rightarrow> system_calls \<Rightarrow> (journal_error + unit) \<Rightarrow> (document \<Rightarrow> journal_error + document) \<Rightarrow>
   disk \<Rightarrow> journal_error option \<Rightarrow> disk \<Rightarrow> bool" where
  "refines j sys request change disk err disk' \<longleftrightarrow>
     disk' = disk \<and>
       (err = None \<longrightarrow> request = Inr () \<and>
          (\<forall>d. journal_read j (sys_read sys) disk = Inr d \<longrightarrow>
             (\<exists>e. change d = Inl e \<and> errorIs e errNoMutation))) \<or>
     request = Inr () \<and>
     (\<exists>d d'. journal_read j (sys_read sys) disk = Inr d \<and> change d = Inr d' \<and>
        validateDocument d' (j_limits j) = Inr () \<and> written j d' disk' \<and>
        (err = None \<longrightarrow> journal_read j (sys_reread sys) disk' = Inr d'))"

lemma polled_None [simp]: "polled None r change = change"
  by (simp add: polled_def fun_eq_iff)

lemma mutate_refines:
  assumes "mutate j sys r0 ch disk = outcome" and "request = Inr ()" and "\<And>d. change d = snd (ch d)"
  shows "refines j sys request change disk (fst (erase outcome)) (snd (erase outcome))"
proof -
  obtain r err disk' where out: "outcome = ((r, err), disk')" by (metis prod.collapse)
  show ?thesis
  proof (cases err)
    case None
    with assms(1) out have "mutate j sys r0 ch disk = ((r, None), disk')" by simp
    then show ?thesis
      by (rule mutate_ok) (use assms(2,3) out None in \<open>auto simp: refines_def erase_def\<close>)
  next
    case (Some e)
    with assms(1) out have "mutate j sys r0 ch disk = ((r, Some e), disk')" by simp
    from mutate_error(1) [OF this] show ?thesis
      using assms(2,3) out Some by (auto simp: refines_def erase_def)
  qed
qed

lemma noMutation_refines:
  assumes "mutate j sys r0 (polled p r0 ch) disk = outcome" and "request = Inr ()"
    and "\<And>d. change d = snd (ch d)"
  shows "refines j sys request change disk
           (fst (erase (noMutation outcome))) (snd (erase (noMutation outcome)))"
proof (cases p)
  case None
  obtain r err disk' where out: "outcome = ((r, err), disk')" by (metis prod.collapse)
  show ?thesis
  proof (cases "\<exists>e. err = Some e \<and> errorIs e errNoMutation")
    case True
    then obtain e where e: "err = Some e" "errorIs e errNoMutation" by blast
    with assms(1) out None have "mutate j sys r0 ch disk = ((r, Some e), disk')" by simp
    from mutate_error(2) [OF this e(2)] show ?thesis
      using assms(2,3) out e by (auto simp: refines_def erase_def noMutation_def)
  next
    case False
    then have "noMutation outcome = outcome" using out by (auto simp: noMutation_def split: option.split)
    moreover have "mutate j sys r0 ch disk = outcome" using assms(1) None by simp
    ultimately show ?thesis using mutate_refines [of j sys r0 ch disk outcome request change] assms(2,3) by simp
  qed
next
  case (Some c)
  obtain r err disk' where out: "outcome = ((r, err), disk')" by (metis prod.collapse)
  show ?thesis
  proof (cases err)
    case None
    with assms(1) out have "mutate j sys r0 (polled p r0 ch) disk = ((r, None), disk')" by simp
    then show ?thesis by (rule mutate_ok) (simp add: Some polled_def)
  next
    case (Some e)
    with assms(1) out have m: "mutate j sys r0 (polled p r0 ch) disk = ((r, Some e), disk')" by simp
    from mutate_error(1) [OF this] have "disk' = disk" by (auto simp: \<open>p = Some c\<close> polled_def)
    moreover have "\<not> errorIs e errNoMutation"
      using mutate_error(2) [OF m] by (auto simp: \<open>p = Some c\<close> polled_def)
    ultimately show ?thesis using out Some by (simp add: refines_def erase_def noMutation_def)
  qed
qed

lemma checked_refines:
  assumes "request = Inr () \<Longrightarrow> refines j sys request change disk (fst (erase rest)) (snd (erase rest))"
  shows "refines j sys request change disk (fst (erase (checked p request r0 disk rest)))
           (snd (erase (checked p request r0 disk rest)))"
  using assms
  by (cases p; cases request) (simp_all add: checked_def erase_def refines_def)

lemma transition_refines:
  assumes "\<And>d. change d = snd (inputChange (j_limits j) sid mid tr d)"
  shows "refines j sys (validateInputIdentity (j_limits j) sid mid) change disk
     (fst (erase (transitionInputWithSession j sys ctx sid mid tr disk)))
     (snd (erase (transitionInputWithSession j sys ctx sid mid tr disk)))"
  unfolding transitionInputWithSession_def Let_def
  by (rule checked_refines, rule noMutation_refines [where p = None])
    (simp_all add: assms inputChange_def)

lemma transitionOutput_refines:
  assumes "\<And>d. change d = snd (outputChange (j_limits j) sid oid tr d)"
  shows "refines j sys (validateOutputIdentity (j_limits j) sid oid) change disk
     (fst (erase (transitionOutput j sys ctx sid oid tr disk)))
     (snd (erase (transitionOutput j sys ctx sid oid tr disk)))"
  unfolding transitionOutput_def Let_def
  by (rule checked_refines, rule noMutation_refines [where p = None])
    (simp_all add: assms outputChange_def)

lemma commit_refines:
  assumes "\<And>d. change d = snd (onSession d sid False (j_limits j) () (\<lambda>_. ErrNotFound)
             (commitRecovery phase settle token))"
  shows "refines j sys (validateRecoveryRequest (j_limits j) sid token) change disk
     (fst (erase (commitInputRecovery phase settle j sys ctx sid token disk)))
     (snd (erase (commitInputRecovery phase settle j sys ctx sid token disk)))"
  unfolding commitInputRecovery_def Let_def
  by (rule checked_refines, rule noMutation_refines [where p = "ctx 1"]) (simp_all add: assms)

lemma guarded_refines:
  assumes "\<not> b \<Longrightarrow> refines j sys request change disk (fst (erase rest)) (snd (erase rest))"
  shows "refines j sys (bindE (failIf b e) (\<lambda>_. request)) change disk
    (fst (erase (if b then ((r, Some e'), disk) else rest)))
    (snd (erase (if b then ((r, Some e'), disk) else rest)))"
  using assms by (cases b) (simp_all add: refines_def erase_def)

lemma requested_refines:
  assumes "\<And>d. change d = snd (ch d)"
    and "op = (case request of Inl e \<Rightarrow> ((r0, Some e), disk) | Inr _ \<Rightarrow> mutate j sys r0 ch disk)"
  shows "refines j sys request change disk (fst (erase op)) (snd (erase op))"
proof (cases request)
  case (Inl e)
  with assms(2) show ?thesis by (simp add: refines_def erase_def)
next
  case (Inr u)
  with assms(2) have "mutate j sys r0 ch disk = op" by simp
  from mutate_refines [OF this _ assms(1)] Inr show ?thesis by simp
qed

lemmas input_op_defs = MarkInputAccepted_def ReleaseInputLease_def MarkInputDeliveryFailed_def
  MarkInputDeliveryUnknown_def CompleteInput_def FailInput_def MarkInputUnknown_def
  transitionInput_def transitionInputOutcome_def

lemmas output_op_defs = MarkOutputFailed_def MarkOutputUnknown_def RetryOutput_def finishOutput_def

text \<open>A poll that fails leaves the request unchecked; the operation then fails before it reads.\<close>

lemma lease_request_poll:
  "validateLeaseRequest limits (Some e) sid owner now dur = Inl (CtxError e)"
  by (simp add: validateLeaseRequest_def)

lemma op_refines:
  "refines j sys (journal_request (j_limits j) ev) (journal_change (j_limits j) ev) disk
     (fst (journal_op j sys ctx ev disk)) (snd (journal_op j sys ctx ev disk))"
proof (cases ev)
  case (EvEnqueueInput sid mid payload atts)
  show ?thesis
    unfolding EvEnqueueInput journal_op.simps journal_request.simps EnqueueInputWithAttachments_def Let_def
    by (rule checked_refines, rule noMutation_refines [where p = "ctx 1"]) simp_all
next
  case (EvEnqueueOutput sid oid kind payload)
  show ?thesis
    unfolding EvEnqueueOutput journal_op.simps journal_request.simps EnqueueOutput_def Let_def
    by (rule checked_refines, rule noMutation_refines [where p = "ctx 1"]) simp_all
next
  case (EvLeaseInput sid owner now dur)
  show ?thesis
  proof (cases "ctx 0")
    case None
    show ?thesis
      unfolding EvLeaseInput journal_op.simps journal_request.simps LeaseNextInput_def Let_def None
      by (rule requested_refines [OF _ refl]) simp
  next
    case (Some e)
    then show ?thesis
      by (simp add: EvLeaseInput LeaseNextInput_def lease_request_poll erase_def refines_def)
  qed
next
  case (EvLeaseOutput sids owner now dur)
  show ?thesis
  proof (cases "ctx 0")
    case None
    show ?thesis
      unfolding EvLeaseOutput journal_op.simps journal_request.simps LeaseNextOutputForSessions_def Let_def None
      by (rule requested_refines [OF _ refl]) simp
  next
    case (Some e)
    then show ?thesis
      by (cases sids)
        (simp_all add: EvLeaseOutput LeaseNextOutputForSessions_def validateLeaseOutputsRequest_def
          lease_request_poll erase_def refines_def)
  qed
next
  case (EvSupersede sid keep kinds)
  show ?thesis
    unfolding EvSupersede journal_op.simps journal_request.simps SupersedePendingOutputs_def Let_def
  proof (rule checked_refines)
    assume req: "validateSupersedeRequest (j_limits j) sid keep kinds = Inr ()"
    show "refines j sys (validateSupersedeRequest (j_limits j) sid keep kinds)
        (journal_change (j_limits j) (EvSupersede sid keep kinds)) disk
        (fst (erase (if kinds = [] then (([], None), disk) else noMutation (mutate j sys [] (\<lambda>loaded.
              onSession loaded sid False (j_limits j) [] id (supersedeOutputs sid keep kinds)) disk))))
        (snd (erase (if kinds = [] then (([], None), disk) else noMutation (mutate j sys [] (\<lambda>loaded.
              onSession loaded sid False (j_limits j) [] id (supersedeOutputs sid keep kinds)) disk))))"
    proof (cases "kinds = []")
      case True
      with req show ?thesis by (simp add: refines_def erase_def)
    next
      case False
      then show ?thesis
        by (simp only: if_False) (rule noMutation_refines [where p = None], simp_all add: req)
    qed
  qed
next
  case (EvReplacePayload sid mid owner seq payload)
  show ?thesis
    unfolding EvReplacePayload journal_op.simps journal_request.simps ReplaceLeasedInputPayload_def
      input_op_defs
    by (rule guarded_refines, rule transition_refines) simp
next
  case (EvResolveUnknown sid mid seq outcome)
  show ?thesis
    unfolding EvResolveUnknown journal_op.simps journal_request.simps ResolveUnknownInput_def input_op_defs
    by (rule guarded_refines, rule transition_refines) simp
next
  case (EvResolveAccepted sid mid seq outcome)
  show ?thesis
    unfolding EvResolveAccepted journal_op.simps journal_request.simps ResolveAcceptedInput_def input_op_defs
    by (rule guarded_refines, rule transition_refines) simp
next
  case (EvConfirm sid oid owner receipt)
  show ?thesis
    unfolding EvConfirm journal_op.simps journal_request.simps ConfirmOutput_def
    by (rule guarded_refines, rule transitionOutput_refines) simp
next
  case (EvRetryInput sid mid)
  show ?thesis
    unfolding EvRetryInput journal_op.simps journal_request.simps RetryInput_def Let_def
    by (rule checked_refines, rule noMutation_refines [where p = None]) (simp_all add: inputChange_def)
next
  case (EvBeginRecovery sid token legacy)
  show ?thesis
    unfolding EvBeginRecovery journal_op.simps journal_request.simps BeginInputRecovery_def Let_def
    by (rule checked_refines, rule noMutation_refines [where p = "ctx 1"]) simp_all
qed (simp only: journal_op.simps journal_request.simps input_op_defs output_op_defs
      CommitInputRecoverySkip_def CommitInputRecoveryAttach_def,
     rule transition_refines transitionOutput_refines commit_refines, simp)+

section \<open>Operations on a session that the document holds\<close>

definition sessionPos :: "document \<Rightarrow> string \<Rightarrow> nat" where
  "sessionPos d sid = the (indexOf (\<lambda>s. sr_SessionID s = sid) (elems (d_Sessions d)))"

lemma onSession_found:
  assumes "findSession d sid = Some s"
  shows "onSession d sid create limits r0 onError f =
    (case f s of (r, Inl e) \<Rightarrow> (r, Inl e) | (r, Inr s') \<Rightarrow> (r, Inr (putSession d (sessionPos d sid) s')))"
proof -
  from assms obtain i where "indexOf (\<lambda>s. sr_SessionID s = sid) (elems (d_Sessions d)) = Some i"
    "elems (d_Sessions d) ! i = s"
    by (auto simp: findSession_def find_indexOf)
  moreover from this(1) have "sessionPos d sid = i" by (simp add: sessionPos_def)
  ultimately show ?thesis
    by (simp add: onSession_def sessionAt_def sessionRef_def split: prod.split sum.split)
qed

lemma indexOf_id:
  assumes "distinct (map f xs)" and "x \<in> set xs"
  obtains i where "indexOf (\<lambda>y. f y = f x) xs = Some i" "xs ! i = x"
proof (cases "indexOf (\<lambda>y. f y = f x) xs")
  case None
  with assms(2) show ?thesis by (auto simp: indexOf_None)
next
  case (Some i)
  then have "i < length xs" "f (xs ! i) = f x" by (simp_all add: indexOf_Some)
  then have "xs ! i = x" using assms by (auto simp: distinct_map dest: inj_onD)
  with Some show ?thesis by (rule that)
qed

lemma sessionOk_input_ids:
  "sessionOk limits s \<Longrightarrow> distinct (map ir_MessageID (elems (sr_Inputs s)))"
  by (auto simp: sessionOk_def validateSession_def bindE_Inr inputs.validate_iff)

lemma updateInput_found:
  assumes "sessionOk limits s" and "r \<in> set (elems (sr_Inputs s))"
  shows "snd (updateInput sid (ir_MessageID r) tr s) =
    (case tr s r of Inl e \<Rightarrow> Inl e | Inr r' \<Rightarrow> Inr (s\<lparr>sr_Inputs := Some ((elems (sr_Inputs s))
       [the (indexOf (\<lambda>x. ir_MessageID x = ir_MessageID r) (elems (sr_Inputs s))) := r'])\<rparr>))"
proof -
  obtain i where "indexOf (\<lambda>x. ir_MessageID x = ir_MessageID r) (elems (sr_Inputs s)) = Some i"
    "elems (sr_Inputs s) ! i = r"
    by (rule indexOf_id [OF sessionOk_input_ids [OF assms(1)] assms(2)])
  then show ?thesis by (simp add: updateInput_def Let_def split: sum.split)
qed

section \<open>Operations without faults\<close>

definition lockable :: "system_calls \<Rightarrow> bool" where
  "lockable sys \<longleftrightarrow>
     k_OpenFile (sys_lock sys) = None \<and> k_Chmod (sys_lock sys) = None \<and> k_Flock (sys_lock sys) = None"

definition readable :: "read_calls \<Rightarrow> bool" where
  "readable calls \<longleftrightarrow> r_Open calls = None \<and> r_Stat calls = None \<and> r_ReadAll calls = None"

definition writable :: "write_calls \<Rightarrow> bool" where
  "writable calls \<longleftrightarrow>
     w_CreateTemp calls = None \<and> w_Chmod calls = None \<and> w_Write calls = None \<and> w_Sync calls = None \<and>
     w_Close calls = None \<and> w_Rename calls = None \<and> w_OpenDirectory calls = None \<and>
     w_SyncDirectory calls = None \<and> w_Remove calls = None"

definition faultless :: "system_calls \<Rightarrow> bool" where
  "faultless sys \<longleftrightarrow>
     lockable sys \<and> readable (sys_read sys) \<and> writable (sys_write sys) \<and> readable (sys_reread sys)"

lemma mutate_lockable: "lockable sys \<Longrightarrow> mutate j sys r0 change disk = mutateLocked j sys r0 change disk"
  by (simp add: mutate_def withExclusiveFileLock_def lockable_def)

lemma persist_faultless:
  assumes "faultless sys" and "validateDocument d (j_limits j) = Inr ()"
    and "c_Marshal (j_codec j) d = Inr data" and "c_Decode (j_codec j) data = Inr (d, True)"
    and "len data \<le> MaxFileBytes (j_limits j)"
  shows "persist j sys d disk = (None, Some \<lparr>f_regular = True, f_data = data\<rparr>)"
proof -
  have "d_Version d = 3"
    using assms(2) by (auto simp: validateDocument_def formatVersion_def result_simps)
  then have "journal_read j (sys_reread sys) (Some \<lparr>f_regular = True, f_data = data\<rparr>) = Inr d"
    using assms by (simp add: journal_read_def decodeDocument_def legacyCheck_def migrate_def
        faultless_def readable_def)
  then show ?thesis
    using assms by (simp add: persist_def atomicWrite_def Let_def faultless_def writable_def)
qed

lemma mutate_faultless:
  assumes "faultless sys" and "validateDocument d' (j_limits j) = Inr ()"
    and "c_Marshal (j_codec j) d' = Inr data" and "c_Decode (j_codec j) data = Inr (d', True)"
    and "len data \<le> MaxFileBytes (j_limits j)"
    and "journal_read j (sys_read sys) disk = Inr d" and "snd (ch d) = Inr d'"
  shows "erase (mutate j sys r0 ch disk) = (None, Some \<lparr>f_regular = True, f_data = data\<rparr>)"
    and "erase (noMutation (mutate j sys r0 ch disk)) = (None, Some \<lparr>f_regular = True, f_data = data\<rparr>)"
proof -
  from assms(7) obtain r where "ch d = (r, Inr d')" by (metis prod.collapse)
  moreover have "mutate j sys r0 ch disk = mutateLocked j sys r0 ch disk"
    using assms(1) by (intro mutate_lockable) (simp add: faultless_def)
  ultimately have "mutate j sys r0 ch disk = ((r, None), Some \<lparr>f_regular = True, f_data = data\<rparr>)"
    using persist_faultless [OF assms(1-5), of disk] assms(2,6) by (simp add: mutateLocked_def)
  then show "erase (mutate j sys r0 ch disk) = (None, Some \<lparr>f_regular = True, f_data = data\<rparr>)"
    and "erase (noMutation (mutate j sys r0 ch disk)) = (None, Some \<lparr>f_regular = True, f_data = data\<rparr>)"
    by (simp_all add: erase_def noMutation_def)
qed

lemma op_faultless:
  assumes "faultless sys" and "validateDocument d' (j_limits j) = Inr ()"
    and "c_Marshal (j_codec j) d' = Inr data" and "c_Decode (j_codec j) data = Inr (d', True)"
    and "len data \<le> MaxFileBytes (j_limits j)"
    and "journal_read j (sys_read sys) disk = Inr d"
    and "journal_request (j_limits j) ev = Inr ()" and "journal_change (j_limits j) ev d = Inr d'"
    and "\<And>n. ctx n = None"
  shows "journal_op j sys ctx ev disk = (None, Some \<lparr>f_regular = True, f_data = data\<rparr>)"
proof -
  note live = mutate_faultless [OF assms(1-6)]
  show ?thesis
    using assms(7,8)
    by (cases ev)
      (auto simp: input_op_defs output_op_defs EnqueueInputWithAttachments_def EnqueueOutput_def
        LeaseNextInput_def LeaseNextOutputForSessions_def SupersedePendingOutputs_def
        ReplaceLeasedInputPayload_def ResolveUnknownInput_def ResolveAcceptedInput_def
        ConfirmOutput_def RetryInput_def BeginInputRecovery_def CommitInputRecoverySkip_def
        CommitInputRecoveryAttach_def commitInputRecovery_def transitionInputWithSession_def
        transitionOutput_def change_defs checked_def Let_def assms(9) bindE_Inr failIf_Inr
        split: if_splits intro!: live)
qed

end
