(* ===== verification/Journal_Properties.thy ===== *)
theory Journal_Properties
  imports Journal_Machine
begin

text \<open>
  The properties of the message journal, with the sample documents of their witnesses.
\<close>

section \<open>Samples\<close>

text \<open>
  Documents, a coding of a list of documents by their positions, and system calls that all
  succeed, for the witnesses.
\<close>

definition sample_codec :: "document list \<Rightarrow> codec" where
  "sample_codec ds =
     \<lparr>c_Marshal = (\<lambda>d. case indexOf ((=) d) ds of
        None \<Rightarrow> Inl ''unknown'' | Some i \<Rightarrow> Inr (replicate i (CHR ''x''))),
      c_Decode = (\<lambda>data. if length data < length ds then Inr (ds ! length data, True)
        else Inl ''unknown'')\<rparr>"

definition sample_journal :: "document list \<Rightarrow> Journal" where
  "sample_journal ds = \<lparr>j_limits = DefaultLimits, j_codec = sample_codec ds\<rparr>"

definition calm :: system_calls where
  "calm =
     (let r = \<lparr>r_Open = None, r_Stat = None, r_ReadAll = None\<rparr> in
      \<lparr>sys_lock = \<lparr>k_OpenFile = None, k_Chmod = None, k_Flock = None\<rparr>, sys_read = r,
       sys_write = \<lparr>w_CreateTemp = None, w_Chmod = None, w_Write = None, w_Sync = None, w_Close = None,
         w_Rename = None, w_OpenDirectory = None, w_SyncDirectory = None, w_Remove = None\<rparr>,
       sys_reread = r\<rparr>)"

definition sample_file :: "nat \<Rightarrow> disk" where
  "sample_file i = Some \<lparr>f_regular = True, f_data = replicate i (CHR ''x'')\<rparr>"

definition sample_input :: "string \<Rightarrow> u64 \<Rightarrow> InputPhase \<Rightarrow> inputRecord" where
  "sample_input mid seq phase =
     \<lparr>ir_MessageID = mid, ir_Sequence = seq, ir_Payload = ''hi'', ir_Attachments = None,
      ir_Phase = phase, ir_Lease = noLease\<rparr>"

definition sample_output :: outputRecord where
  "sample_output =
     \<lparr>or_OperationID = ''o'', or_Sequence = 2, or_Kind = ''text'', or_Payload = ''out'',
      or_Phase = OutputConfirmed, or_Receipt = ''7'', or_Lease = noLease\<rparr>"

definition sample_document :: "inputRecord list \<Rightarrow> inputRecoveryRecord option \<Rightarrow> document" where
  "sample_document ins recovery =
     \<lparr>d_Version = 3, d_Sessions = Some
       [\<lparr>sr_SessionID = ''s'', sr_NextSequence = 3, sr_Inputs = Some ins,
         sr_Outputs = Some [sample_output], sr_Recovery = recovery\<rparr>]\<rparr>"

definition sample_recovery :: "inputRecoveryPhase \<Rightarrow> inputRecoveryRecord" where
  "sample_recovery phase = \<lparr>rr_Token = ''t'', rr_ThroughSequence = 3, rr_Phase = phase\<rparr>"

definition sample_waiting :: document where
  "sample_waiting =
     sample_document [sample_input ''a'' 1 InputAccepted, sample_input ''b'' 3 InputPending] None"

definition sample_fenced :: document where
  "sample_fenced =
     sample_document [sample_input ''a'' 1 InputAccepted, sample_input ''b'' 3 InputPending]
       (Some (sample_recovery inputRecoveryOpen))"

definition sample_skipped :: document where
  "sample_skipped =
     sample_document [sample_input ''a'' 1 InputSkipped, sample_input ''b'' 3 InputSkipped]
       (Some (sample_recovery inputRecoveryCommitted))"

definition sample_attached :: document where
  "sample_attached =
     sample_document [sample_input ''a'' 1 InputAccepted, sample_input ''b'' 3 InputPending]
       (Some (sample_recovery inputRecoveryAttached))"

definition sample_leased :: document where
  "sample_leased =
     sample_document [sample_input ''a'' 1 InputAccepted,
       (sample_input ''b'' 3 InputPending)\<lparr>ir_Lease := \<lparr>lr_Owner = ''w'', lr_UntilUnix = 150\<rparr>\<rparr>] None"

definition sample_enqueued :: document where
  "sample_enqueued =
     \<lparr>d_Version = 3, d_Sessions = Some
       [\<lparr>sr_SessionID = ''s'', sr_NextSequence = 4,
         sr_Inputs = Some [sample_input ''a'' 1 InputAccepted, sample_input ''b'' 3 InputPending,
                           sample_input ''c'' 4 InputPending],
         sr_Outputs = Some [sample_output], sr_Recovery = None\<rparr>]\<rparr>"

lemma sample_valid:
  "validateDocument sample_waiting DefaultLimits = Inr ()"
  "validateDocument sample_fenced DefaultLimits = Inr ()"
  "validateDocument sample_skipped DefaultLimits = Inr ()"
  "validateDocument sample_attached DefaultLimits = Inr ()"
  "validateDocument sample_leased DefaultLimits = Inr ()"
  by code_simp+

lemma sample_limits: "validateLimits DefaultLimits = Inr ()"
  by code_simp

lemma sample_changes:
  "journal_change DefaultLimits (EvLeaseInput ''s'' ''w'' 100 50) sample_waiting = Inr sample_leased"
  "journal_change DefaultLimits (EvCommitSkip ''s'' ''t'') sample_fenced = Inr sample_skipped"
  "journal_change DefaultLimits (EvBeginRecovery ''s'' ''t'' False) sample_waiting = Inr sample_fenced"
  by code_simp+

section \<open>Properties\<close>

text \<open>
  C1. The disk refines the document machine: whatever system calls fail, an operation leaves the
  file as it was or replaces it by the complete encoding of one valid step; when it returns no
  error and changed the file, rereading the file gives exactly the document of that step.
\<close>

theorem journal_op_atomic:
  assumes "journal_op j sys ctx ev disk = (err, disk')"
  shows "disk' = disk \<or>
    (\<exists>d d' data. journal_read j (sys_read sys) disk = Inr d \<and> journal_step (j_limits j) d ev d' \<and>
       c_Marshal (j_codec j) d' = Inr data \<and> disk' = Some \<lparr>f_regular = True, f_data = data\<rparr> \<and>
       (err = None \<longrightarrow> journal_read j (sys_reread sys) disk' = Inr d'))"
  using op_refines [of j sys ev disk ctx] assms
  by (auto simp: refines_def journal_step_def written_def)

theorem journal_op_atomic_witness:
  "\<exists>d'. journal_op (sample_journal [sample_waiting, sample_leased]) calm (\<lambda>_. None)
         (EvLeaseInput ''s'' ''w'' 100 50) (sample_file 0) = (None, sample_file 1) \<and>
       journal_step DefaultLimits sample_waiting (EvLeaseInput ''s'' ''w'' 100 50) d' \<and>
       journal_read (sample_journal [sample_waiting, sample_leased]) (sys_reread calm) (sample_file 1) = Inr d'"
proof -
  let ?j = "sample_journal [sample_waiting, sample_leased]"
  have op: "journal_op ?j calm (\<lambda>_. None) (EvLeaseInput ''s'' ''w'' 100 50) (sample_file 0) = (None, sample_file 1)"
    and rd: "journal_read ?j (sys_read calm) (sample_file 0) = Inr sample_waiting"
    and ne: "sample_file 1 \<noteq> sample_file 0"
    by code_simp+
  have "j_limits ?j = DefaultLimits" by (simp add: sample_journal_def)
  with journal_op_atomic [OF op] rd ne op show ?thesis by auto
qed

text \<open>
  C8. Operations do complete: when no system call fails and the coding decodes what it encodes, an
  operation whose change validation accepts returns no error and its result is in the file.
\<close>

theorem journal_op_completes:
  assumes "faultless sys" and "\<And>n. ctx n = None"
    and "c_Marshal (j_codec j) d' = Inr data" and "c_Decode (j_codec j) data = Inr (d', True)"
    and "len data \<le> MaxFileBytes (j_limits j)"
    and "journal_read j (sys_read sys) disk = Inr d" and "journal_step (j_limits j) d ev d'"
  shows "journal_op j sys ctx ev disk = (None, Some \<lparr>f_regular = True, f_data = data\<rparr>)"
  using op_faultless [of sys d' j data disk d ev ctx] assms by (simp add: journal_step_def)

theorem journal_op_completes_witness:
  "journal_op (sample_journal [sample_fenced, sample_skipped]) calm (\<lambda>_. None) (EvCommitSkip ''s'' ''t'')
     (sample_file 0) = (None, Some \<lparr>f_regular = True, f_data = ''x''\<rparr>)"
proof (rule journal_op_completes)
  let ?j = "sample_journal [sample_fenced, sample_skipped]"
  show "faultless calm" by code_simp
  show "c_Marshal (j_codec ?j) sample_skipped = Inr ''x''" by code_simp
  show "c_Decode (j_codec ?j) ''x'' = Inr (sample_skipped, True)" by code_simp
  show "journal_read ?j (sys_read calm) (sample_file 0) = Inr sample_fenced" by code_simp
  show "len ''x'' \<le> MaxFileBytes (j_limits ?j)" by code_simp
  show "journal_step (j_limits ?j) sample_fenced (EvCommitSkip ''s'' ''t'') sample_skipped" by code_simp
qed simp

text \<open>
  C2. Validation never gets in the way: the change of a checked request on a valid document is a
  valid document, so the operation cannot fail its own validation, except for an ambiguous outcome
  of an input inside an attached recovery boundary.
\<close>

theorem journal_change_valid:
  assumes "validateLimits limits = Inr ()" and "validateDocument d limits = Inr ()"
    and "journal_request limits ev = Inr ()" and "journal_change limits ev d = Inr d'"
    and "\<not> ambiguous_event d ev"
  shows "validateDocument d' limits = Inr ()"
  by (rule step_ok [OF assms])

theorem journal_change_valid_witness:
  "journal_change DefaultLimits (EvLeaseInput ''s'' ''w'' 100 50) sample_waiting = Inr sample_leased \<and>
   validateDocument sample_leased DefaultLimits = Inr ()"
proof -
  have "journal_request DefaultLimits (EvLeaseInput ''s'' ''w'' 100 50) = Inr ()" by code_simp
  from journal_change_valid [OF sample_limits sample_valid(1) this sample_changes(1)] sample_changes(1)
  show ?thesis by simp
qed

lemma attached_failure_invalid:
  assumes "validateDocument d limits = Inr ()" and "findSession d sid = Some s"
    and "sr_Recovery s = Some v" and "rr_Phase v = inputRecoveryAttached"
    and "r \<in> set (elems (sr_Inputs s))" and "ir_Sequence r \<le> rr_ThroughSequence v"
    and "ir_Phase r = InputAccepted"
    and "inputChange limits sid (ir_MessageID r) (\<lambda>_. outcomeTransition (ir_Sequence r) InputFailed InputAccepted) d
           = (res, Inr d')"
  shows "\<exists>e. validateDocument d' limits = Inl e"
proof (rule ccontr)
  assume "\<nexists>e. validateDocument d' limits = Inl e"
  then have ok': "validateDocument d' limits = Inr ()" by (cases "validateDocument d' limits") auto
  let ?tr = "\<lambda>_. outcomeTransition (ir_Sequence r) InputFailed InputAccepted"
  have ok: "sessionOk limits s" by (rule findSession_ok [OF assms(1,2)])
  from onSession_Inr [OF assms(8) [unfolded inputChange_def] assms(1)] assms(2) obtain s'
    where up: "updateInput sid (ir_MessageID r) ?tr s = (res, Inr s')"
      and fs: "sr_SessionID s' = sid \<Longrightarrow> findSession d' = (findSession d)(sid \<mapsto> s')"
    by (metis (no_types, lifting) option.inject option.distinct(1))
  have le: "record_le s s'" using outcome_accepted.update_le [OF up] .
  then have "findSession d' sid = Some s'"
    using fs findSession_id [OF assms(2)] by (simp add: record_le_def)
  then have ok2: "sessionOk limits s'" by (rule findSession_ok [OF ok'])
  obtain i where i: "indexOf (\<lambda>x. ir_MessageID x = ir_MessageID r) (elems (sr_Inputs s)) = Some i"
    "elems (sr_Inputs s) ! i = r" "i < length (elems (sr_Inputs s))"
    using indexOf_id [OF sessionOk_input_ids [OF ok] assms(5)] by (metis indexOf_Some)
  have s': "s' = s\<lparr>sr_Inputs := Some ((elems (sr_Inputs s))[i := r\<lparr>ir_Phase := InputFailed\<rparr>])\<rparr>"
    using up i assms(7) by (auto simp: updateInput_def Let_def outcomeTransition_def)
  then have "r\<lparr>ir_Phase := InputFailed\<rparr> \<in> set (elems (sr_Inputs s'))"
    using i(3) by (simp add: set_update_memI)
  moreover have "\<forall>x\<in>set (elems (sr_Inputs s')). boundaryOk (Some v) x"
    using ok2 validateRecovery_Inr [OF validateSession_sorted [OF ok2], of limits "()"] s' assms(3)
    by (simp add: sessionOk_def validateSession_def bindE_Inr)
  ultimately have "boundaryOk (Some v) (r\<lparr>ir_Phase := InputFailed\<rparr>)" by blast
  with assms(4,6) show False by (simp add: boundaryOk_def unambiguousPhase_def)
qed

text \<open>
  C35. The exception is real: after a recovery was committed by attaching, the failure of an input
  that was accepted before the boundary can never be recorded. The operation reports a validation
  error and leaves the file alone, whatever the state of the rest of the journal.
\<close>

theorem attached_failure_unrecordable:
  assumes "lockable sys" and "ctx 0 = None" and "validateInputIdentity (j_limits j) sid (ir_MessageID r) = Inr ()"
    and "journal_read j (sys_read sys) disk = Inr d" and "validateDocument d (j_limits j) = Inr ()"
    and "findSession d sid = Some s" and "sr_Recovery s = Some v" and "rr_Phase v = inputRecoveryAttached"
    and "r \<in> set (elems (sr_Inputs s))" and "ir_Sequence r \<le> rr_ThroughSequence v"
    and "ir_Phase r = InputAccepted" and "ir_Sequence r \<noteq> 0"
  shows "\<exists>res e. ResolveAcceptedInput j sys ctx sid (ir_MessageID r) (ir_Sequence r) InputFailed disk =
           ((res, Some (Context ''validate message journal mutation'' e)), disk)"
proof -
  let ?tr = "\<lambda>_. outcomeTransition (ir_Sequence r) InputFailed InputAccepted"
  let ?i = "sessionPos d sid"
  have "\<exists>s'. snd (updateInput sid (ir_MessageID r) ?tr s) = Inr s'"
    using updateInput_found [OF findSession_ok [OF assms(5,6)] assms(9), of sid ?tr] assms(11)
    by (simp add: outcomeTransition_def)
  then obtain res s' where "updateInput sid (ir_MessageID r) ?tr s = (res, Inr s')"
    by (metis prod.collapse)
  then have ch: "inputChange (j_limits j) sid (ir_MessageID r) ?tr d = (res, Inr (putSession d ?i s'))"
    by (simp add: inputChange_def onSession_found [OF assms(6)])
  from attached_failure_invalid [OF assms(5-11) ch] obtain e
    where "validateDocument (putSession d ?i s') (j_limits j) = Inl e" by blast
  then have "mutate j sys zeroInput (inputChange (j_limits j) sid (ir_MessageID r) ?tr) disk =
      ((res, Some (Context ''validate message journal mutation'' e)), disk)"
    using assms(4) ch by (simp add: mutate_lockable [OF assms(1)] mutateLocked_def)
  moreover have "\<not> errorIs e errNoMutation"
    using \<open>validateDocument (putSession d ?i s') (j_limits j) = Inl e\<close> by (rule validateDocument_error)
  ultimately show ?thesis
    using assms(2,3,12)
    by (auto simp: ResolveAcceptedInput_def transitionInputOutcome_def transitionInput_def
        transitionInputWithSession_def checked_def noMutation_def inputChange_def [abs_def] Let_def)
qed

theorem attached_failure_unrecordable_witness:
  "\<exists>res e. ResolveAcceptedInput (sample_journal [sample_attached]) calm (\<lambda>_. None) ''s'' ''a'' 1 InputFailed
     (sample_file 0) = ((res, Some (Context ''validate message journal mutation'' e)), sample_file 0)"
proof -
  let ?j = "sample_journal [sample_attached]" and ?r = "sample_input ''a'' 1 InputAccepted"
  have "\<exists>res e. ResolveAcceptedInput ?j calm (\<lambda>_. None) ''s'' (ir_MessageID ?r) (ir_Sequence ?r) InputFailed
     (sample_file 0) = ((res, Some (Context ''validate message journal mutation'' e)), sample_file 0)"
  proof (rule attached_failure_unrecordable)
    show "lockable calm" by code_simp
    show "validateInputIdentity (j_limits ?j) ''s'' (ir_MessageID ?r) = Inr ()" by code_simp
    show "journal_read ?j (sys_read calm) (sample_file 0) = Inr sample_attached" by code_simp
    show "validateDocument sample_attached (j_limits ?j) = Inr ()" by code_simp
    show "findSession sample_attached ''s'' = Some (hd (elems (d_Sessions sample_attached)))" by code_simp
    show "sr_Recovery (hd (elems (d_Sessions sample_attached))) = Some (sample_recovery inputRecoveryAttached)"
      by code_simp
    show "rr_Phase (sample_recovery inputRecoveryAttached) = inputRecoveryAttached" by code_simp
    show "?r \<in> set (elems (sr_Inputs (hd (elems (d_Sessions sample_attached)))))" by code_simp
    show "ir_Sequence ?r \<le> rr_ThroughSequence (sample_recovery inputRecoveryAttached)" by code_simp
    show "ir_Phase ?r = InputAccepted" by code_simp
    show "ir_Sequence ?r \<noteq> 0" by code_simp
  qed simp
  then show ?thesis by (simp add: sample_input_def)
qed

text \<open>
  C3. The journal is a history: over any sequence of operations the sessions stay, their sequence
  counter does not go back, every record keeps its place, identity and sequence, a completed,
  finally failed or skipped input and a confirmed or superseded output never change again.
\<close>

theorem journal_history:
  assumes "validateLimits limits = Inr ()" and "validateDocument d limits = Inr ()"
    and "run (journal_step limits) d evs d'" and "findSession d sid = Some s"
  shows "\<exists>s'. findSession d' sid = Some s' \<and> sr_NextSequence s \<le> sr_NextSequence s' \<and>
    length (elems (sr_Inputs s)) \<le> length (elems (sr_Inputs s')) \<and>
    (\<forall>i<length (elems (sr_Inputs s)).
       let r = elems (sr_Inputs s) ! i; r' = elems (sr_Inputs s') ! i in
       ir_MessageID r' = ir_MessageID r \<and> ir_Sequence r' = ir_Sequence r \<and>
       ir_Attachments r' = ir_Attachments r \<and>
       (ir_Phase r \<in> {InputCompleted, InputTerminalFailed, InputSkipped} \<longrightarrow> r' = r)) \<and>
    length (elems (sr_Outputs s)) \<le> length (elems (sr_Outputs s')) \<and>
    (\<forall>i<length (elems (sr_Outputs s)).
       let r = elems (sr_Outputs s) ! i; r' = elems (sr_Outputs s') ! i in
       or_OperationID r' = or_OperationID r \<and> or_Sequence r' = or_Sequence r \<and>
       or_Kind r' = or_Kind r \<and> or_Payload r' = or_Payload r \<and>
       (or_Phase r \<in> {OutputConfirmed, OutputSuperseded} \<longrightarrow> r' = r))"
proof -
  have "document_le d d'" using journal.run_ord [OF assms(3)] assms(1,2) by blast
  with assms(4) obtain s' where "findSession d' sid = Some s'" "record_le s s'"
    by (auto simp: document_le_def)
  then show ?thesis
    by (auto simp: record_le_def lane_le_def input_le_def output_le_def settledPhase_def Let_def)
qed

theorem journal_history_witness:
  "\<exists>s'. findSession sample_skipped ''s'' = Some s' \<and> elems (sr_Outputs s') ! 0 = sample_output \<and>
     ir_MessageID (elems (sr_Inputs s') ! 1) = ''b''"
proof -
  let ?s = "hd (elems (d_Sessions sample_waiting))"
  have st: "journal_step DefaultLimits sample_waiting (EvBeginRecovery ''s'' ''t'' False) sample_fenced"
    "journal_step DefaultLimits sample_fenced (EvCommitSkip ''s'' ''t'') sample_skipped"
    by code_simp+
  have steps: "run (journal_step DefaultLimits) sample_waiting
      [EvBeginRecovery ''s'' ''t'' False, EvCommitSkip ''s'' ''t''] sample_skipped"
    using st
      run_Cons [of "journal_step DefaultLimits" sample_fenced "EvCommitSkip ''s'' ''t''" sample_skipped "[]"]
      run_Cons [of "journal_step DefaultLimits" sample_waiting "EvBeginRecovery ''s'' ''t'' False" sample_fenced]
    by blast
  have "findSession sample_waiting ''s'' = Some ?s" by code_simp
  from journal_history [OF sample_limits sample_valid(1) steps this] obtain s' where "findSession sample_skipped ''s'' = Some s'"
    "\<forall>i<length (elems (sr_Inputs ?s)). ir_MessageID (elems (sr_Inputs s') ! i) = ir_MessageID (elems (sr_Inputs ?s) ! i)"
    "\<forall>i<length (elems (sr_Outputs ?s)). or_Phase (elems (sr_Outputs ?s) ! i) \<in> {OutputConfirmed, OutputSuperseded} \<longrightarrow>
       elems (sr_Outputs s') ! i = elems (sr_Outputs ?s) ! i"
    by (auto simp: Let_def)
  then show ?thesis
    by (auto simp: sample_waiting_def sample_document_def sample_output_def sample_input_def)
qed

text \<open>
  C4. Inputs are handed out first in, first out: the input that \<open>LeaseNextInput\<close> returns is pending
  and free or expired, every input with a smaller sequence is accepted or settled, and no recovery
  boundary is open.
\<close>

theorem lease_next_input_fifo:
  assumes "validateLimits (j_limits j) = Inr ()"
    and "LeaseNextInput j sys ctx sid owner now dur disk = ((inp, None), disk')"
  shows "\<exists>d s r. journal_read j (sys_read sys) disk = Inr d \<and> findSession d sid = Some s \<and>
    r \<in> set (elems (sr_Inputs s)) \<and> ir_Phase r = InputPending \<and> in_Sequence inp = ir_Sequence r \<and>
    (lr_Owner (ir_Lease r) = [] \<or> lr_UntilUnix (ir_Lease r) \<le> UnixNano now) \<and>
    l_Owner (in_Lease inp) = owner \<and>
    (\<forall>q\<in>set (elems (sr_Inputs s)). ir_Sequence q < in_Sequence inp \<longrightarrow>
       ir_Phase q \<in> {InputAccepted, InputCompleted, InputTerminalFailed, InputSkipped}) \<and>
    (\<forall>v. sr_Recovery s = Some v \<longrightarrow> rr_Phase v \<noteq> inputRecoveryOpen)"
proof -
  have req: "validateLeaseRequest (j_limits j) (ctx 0) sid owner now dur = Inr ()"
    using assms(2) by (auto simp: LeaseNextInput_def Let_def split: sum.splits)
  with assms(2) have "mutate j sys zeroInput (\<lambda>d. onSession d sid False (j_limits j) zeroInput
      (\<lambda>_. ErrNoAvailable) (leaseInput sid owner now dur)) disk = ((inp, None), disk')"
    by (simp add: LeaseNextInput_def Let_def)
  then obtain d d' where rd: "journal_read j (sys_read sys) disk = Inr d"
    and ch: "onSession d sid False (j_limits j) zeroInput (\<lambda>_. ErrNoAvailable)
      (leaseInput sid owner now dur) = (inp, Inr d')"
    by (rule mutate_ok)
  have ok: "validateDocument d (j_limits j) = Inr ()" by (rule journal_read_valid [OF rd assms(1)])
  obtain s s' where s: "findSession d sid = Some s" "leaseInput sid owner now dur s = (inp, Inr s')"
    by (rule onSession_Inr [OF ch ok]) auto
  have sorted: "sorted_wrt (<) (map ir_Sequence (elems (sr_Inputs s)))"
    by (rule validateSession_sorted [OF findSession_ok [OF ok s(1)]])
  obtain i r where i: "\<not> recoveryOpen s" "i < length (elems (sr_Inputs s))"
    "ir_Phase (elems (sr_Inputs s) ! i) = InputPending"
    "\<forall>j<i. passedPhase (ir_Phase (elems (sr_Inputs s) ! j))"
    "leasable now (ir_Lease (elems (sr_Inputs s) ! i))"
    "r = (elems (sr_Inputs s) ! i)\<lparr>ir_Lease := \<lparr>lr_Owner = owner, lr_UntilUnix = UnixNano (now + dur)\<rparr>\<rparr>"
    "inp = inputFromRecord sid r"
    by (rule leaseInput_Inr [OF s(2)])
  have "passedPhase (ir_Phase q)"
    if q: "q \<in> set (elems (sr_Inputs s))" "ir_Sequence q < ir_Sequence (elems (sr_Inputs s) ! i)" for q
  proof -
    from q(1) obtain k where k: "k < length (elems (sr_Inputs s))" "q = elems (sr_Inputs s) ! k"
      by (metis in_set_conv_nth)
    have "\<not> i \<le> k"
    proof
      assume "i \<le> k"
      then have "ir_Sequence (elems (sr_Inputs s) ! i) \<le> ir_Sequence (elems (sr_Inputs s) ! k)"
        using sorted k(1) by (cases "i = k") (auto simp: sorted_wrt_iff_nth_less intro: less_imp_le)
      with q(2) k(2) show False by simp
    qed
    with i(4) k(2) show ?thesis by simp
  qed
  moreover have "owner \<noteq> []"
    using req by (cases "ctx 0") (auto simp: validateLeaseRequest_Inr lease_request_poll validID_def)
  ultimately show ?thesis
    using rd s(1) i nth_mem [OF i(2)]
    by (intro exI [of _ d] exI [of _ s] exI [of _ "elems (sr_Inputs s) ! i"])
      (auto simp: inputFromRecord_def leaseFromRecord_def noLease_def leasable_def passedPhase_def
        settledPhase_def recoveryOpen_def)
qed

theorem lease_next_input_fifo_witness:
  "\<exists>inp. LeaseNextInput (sample_journal [sample_waiting, sample_leased]) calm (\<lambda>_. None) ''s'' ''w'' 100 50
           (sample_file 0) = ((inp, None), sample_file 1) \<and> l_Owner (in_Lease inp) = ''w''"
proof -
  let ?j = "sample_journal [sample_waiting, sample_leased]"
    and ?i = "inputFromRecord ''s'' ((sample_input ''b'' 3 InputPending)
        \<lparr>ir_Lease := \<lparr>lr_Owner = ''w'', lr_UntilUnix = 150\<rparr>\<rparr>)"
  have "LeaseNextInput ?j calm (\<lambda>_. None) ''s'' ''w'' 100 50 (sample_file 0) = ((?i, None), sample_file 1)"
    by code_simp
  with lease_next_input_fifo [OF _ this] sample_limits show ?thesis
    by (auto simp: sample_journal_def)
qed

text \<open>
  C6. An open recovery boundary is a fence: no input of the session can be leased, and no input up
  to the boundary can be marked accepted.
\<close>

theorem recovery_fence:
  assumes "validateDocument d limits = Inr ()" and "findSession d sid = Some s"
    and "sr_Recovery s = Some v" and "rr_Phase v = inputRecoveryOpen"
  shows "journal_change limits (EvLeaseInput sid owner now dur) d = Inl ErrNoAvailable \<and>
    (\<forall>r\<in>set (elems (sr_Inputs s)). ir_Sequence r \<le> rr_ThroughSequence v \<longrightarrow>
       journal_change limits (EvAccept sid (ir_MessageID r) owner') d = Inl ErrInputSkipped)"
proof (intro conjI ballI impI)
  show "journal_change limits (EvLeaseInput sid owner now dur) d = Inl ErrNoAvailable"
    using assms(3,4) by (simp add: onSession_found [OF assms(2)] leaseInput_def recoveryOpen_def)
  fix r
  assume r: "r \<in> set (elems (sr_Inputs s))" "ir_Sequence r \<le> rr_ThroughSequence v"
  have "acceptTransition owner' s r = Inl ErrInputSkipped"
    using assms(3,4) r(2) by (simp add: acceptTransition_def)
  then have "snd (updateInput sid (ir_MessageID r) (acceptTransition owner') s) = Inl ErrInputSkipped"
    using updateInput_found [OF findSession_ok [OF assms(1,2)] r(1)] by simp
  then show "journal_change limits (EvAccept sid (ir_MessageID r) owner') d = Inl ErrInputSkipped"
    by (cases "updateInput sid (ir_MessageID r) (acceptTransition owner') s")
      (simp add: change_defs onSession_found [OF assms(2)])
qed

theorem recovery_fence_witness:
  "journal_change DefaultLimits (EvLeaseInput ''s'' ''w'' 100 50) sample_fenced = Inl ErrNoAvailable \<and>
   journal_change DefaultLimits (EvAccept ''s'' ''b'' ''w'') sample_fenced = Inl ErrInputSkipped"
proof -
  let ?s = "hd (elems (d_Sessions sample_fenced))"
  have s: "findSession sample_fenced ''s'' = Some ?s"
    "sr_Recovery ?s = Some (sample_recovery inputRecoveryOpen)"
    "rr_Phase (sample_recovery inputRecoveryOpen) = inputRecoveryOpen"
    by code_simp+
  have "sample_input ''b'' 3 InputPending \<in> set (elems (sr_Inputs ?s))"
    "ir_Sequence (sample_input ''b'' 3 InputPending) \<le> rr_ThroughSequence (sample_recovery inputRecoveryOpen)"
    "ir_MessageID (sample_input ''b'' 3 InputPending) = ''b''"
    by code_simp+
  with recovery_fence [OF sample_valid(2) s, of "''w''" 100 50 "''w''"] show ?thesis by fastforce
qed

text \<open>
  C5. Committing a recovery by skipping has exactly this effect: every input up to the boundary that
  was pending, accepted, failed or unknown becomes skipped and loses its lease, every other input,
  every output and every other session is as before, and the boundary is committed.
\<close>

theorem recovery_skip_exact:
  assumes "validateDocument d limits = Inr ()"
    and "journal_change limits (EvCommitSkip sid token) d = Inr d'"
  shows "\<exists>s v. findSession d sid = Some s \<and> sr_Recovery s = Some v \<and> rr_Token v = token \<and>
    rr_Phase v = inputRecoveryOpen \<and>
    findSession d' = (findSession d)(sid \<mapsto> s\<lparr>
      sr_Inputs := Some (map (\<lambda>r. if ir_Sequence r \<le> rr_ThroughSequence v \<and>
           ir_Phase r \<in> {InputPending, InputAccepted, InputFailed, InputUnknown}
         then r\<lparr>ir_Phase := InputSkipped, ir_Lease := noLease\<rparr> else r) (elems (sr_Inputs s))),
      sr_Recovery := Some (v\<lparr>rr_Phase := inputRecoveryCommitted\<rparr>)\<rparr>)"
proof -
  from assms(2) obtain u where "onSession d sid False limits () (\<lambda>_. ErrNotFound)
      (commitRecovery inputRecoveryCommitted skipInputs token) = (u, Inr d')"
    by (metis journal_change.simps(22) prod.collapse)
  from onSession_Inr [OF this assms(1)] obtain s s' where
    s: "commitRecovery inputRecoveryCommitted skipInputs token s = (u, Inr s')" "findSession d sid = Some s"
      "sr_SessionID s' = sid \<Longrightarrow> findSession d' = (findSession d)(sid \<mapsto> s')"
    by metis
  have sorted: "sorted_wrt (<) (map ir_Sequence (elems (sr_Inputs s)))"
    by (rule validateSession_sorted [OF findSession_ok [OF assms(1) s(2)]])
  obtain v where v: "sr_Recovery s = Some v" "rr_Token v = token"
    "rr_Phase v = inputRecoveryOpen"
    "s' = s\<lparr>sr_Inputs := Some (map (\<lambda>r. if ir_Sequence r \<le> rr_ThroughSequence v \<and> unresolvedPhase (ir_Phase r)
         then skippedInput r else r) (elems (sr_Inputs s))),
       sr_Recovery := Some (v\<lparr>rr_Phase := inputRecoveryCommitted\<rparr>)\<rparr>"
    by (rule commit_skip.commit_Inr [OF s(1) sorted])
  have "sr_SessionID s' = sid" using v(4) findSession_id [OF s(2)] by simp
  with s v(1-3) show ?thesis
    unfolding v(4) skippedInput_def unresolvedPhase_def by blast
qed

theorem recovery_skip_exact_witness:
  "journal_change DefaultLimits (EvCommitSkip ''s'' ''t'') sample_fenced = Inr sample_skipped \<and>
   (\<exists>s. findSession sample_fenced ''s'' = Some s \<and>
        findSession sample_skipped = (findSession sample_fenced)(''s'' \<mapsto>
          the (findSession sample_skipped ''s'')) \<and> sr_NextSequence s = 3)"
proof -
  have "\<exists>s v. findSession sample_fenced ''s'' = Some s \<and>
      findSession sample_skipped = (findSession sample_fenced)(''s'' \<mapsto> v)"
    using recovery_skip_exact [OF sample_valid(2) sample_changes(2)] by blast
  then obtain s v where s: "findSession sample_fenced ''s'' = Some s"
    "findSession sample_skipped = (findSession sample_fenced)(''s'' \<mapsto> v)" by blast
  moreover have "findSession sample_fenced ''s'' = Some (hd (elems (d_Sessions sample_fenced)))"
    by code_simp
  ultimately show ?thesis
    using sample_changes(2) by (simp add: sample_fenced_def sample_document_def)
qed

lemma findSession_enqueued:
  assumes "validateDocument d limits = Inr ()"
    and "onSession d sid True limits r0 id (enqueueInput limits sid mid payload atts) = (res, Inr d')"
    and "validateDocument d' limits = Inr ()"
  shows "onSession d' sid True limits r0 id (enqueueInput limits sid mid payload atts) =
           ((fst res, False), Inl errNoMutation)"
proof -
  from onSession_Inr [OF assms(2,1)] obtain s s' where
    s: "enqueueInput limits sid mid payload atts s = (res, Inr s')" "sr_SessionID s = sid"
      "sr_SessionID s' = sid \<Longrightarrow> findSession d' = (findSession d)(sid \<mapsto> s')"
    by metis
  then obtain q where q: "q = \<lparr>ir_MessageID = mid, ir_Sequence = sr_NextSequence s + 1, ir_Payload = payload,
      ir_Attachments = attachmentRecords atts, ir_Phase = InputPending, ir_Lease = noLease\<rparr>"
    "res = (inputFromRecord sid q, True)"
    "s' = s\<lparr>sr_NextSequence := sr_NextSequence s + 1, sr_Inputs := Some (elems (sr_Inputs s) @ [q])\<rparr>"
    unfolding enqueueInput_Inr by blast
  have f: "findSession d' sid = Some s'" using s(2,3) q(3) by simp
  have mem: "q \<in> set (elems (sr_Inputs s'))" using q(3) by simp
  obtain i where "indexOf (\<lambda>x. ir_MessageID x = ir_MessageID q) (elems (sr_Inputs s')) = Some i"
    "elems (sr_Inputs s') ! i = q"
    by (rule indexOf_id [OF sessionOk_input_ids [OF findSession_ok [OF assms(3) f]] mem])
  then have "enqueueInput limits sid mid payload atts s' = ((fst res, False), Inl errNoMutation)"
    using q(1,2) by (simp add: enqueueInput_def equalAttachments_def Let_def)
  then show ?thesis by (simp add: onSession_found [OF f])
qed

text \<open>
  C7. Enqueueing is idempotent across retries: after an input was inserted, the same request on the
  file it left returns the same input, says that nothing was inserted and leaves the file alone.
\<close>

theorem enqueue_input_idempotent:
  assumes "validateLimits (j_limits j) = Inr ()"
    and "EnqueueInputWithAttachments j sys ctx sid mid payload atts disk = (((inp, True), None), disk')"
    and "lockable sys'" and "sys_read sys' = sys_reread sys" and "ctx' 0 = None" and "ctx' 1 = None"
  shows "EnqueueInputWithAttachments j sys' ctx' sid mid payload atts disk' = (((inp, False), None), disk')"
proof -
  let ?ch = "\<lambda>d. onSession d sid True (j_limits j) (zeroInput, False) id
      (enqueueInput (j_limits j) sid mid payload atts)"
  let ?m = "mutate j sys (zeroInput, False) (polled (ctx 1) (zeroInput, False) ?ch) disk"
  have req: "validateInputValues (j_limits j) sid mid payload atts = Inr ()"
    and out: "noMutation ?m = (((inp, True), None), disk')"
    using assms(2) by (auto simp: EnqueueInputWithAttachments_def checked_def Let_def
        split: option.splits sum.splits)
  have "?m = (((inp, True), None), disk')"
  proof (rule ccontr)
    assume "?m \<noteq> (((inp, True), None), disk')"
    with out obtain e where m: "?m = (((inp, True), Some e), disk')" "errorIs e errNoMutation"
      by (auto simp: noMutation_def split: prod.splits option.splits if_splits)
    from mutate_error(2) [OF this] obtain d where "polled (ctx 1) (zeroInput, False) ?ch d = ((inp, True), Inl e)"
      by blast
    then show False
      by (auto simp: polled_def onSession_def enqueueInput_def Let_def split: option.splits sum.splits
          prod.splits if_splits)
  qed
  then obtain d d' where d: "journal_read j (sys_read sys) disk = Inr d"
    "polled (ctx 1) (zeroInput, False) ?ch d = ((inp, True), Inr d')"
    "validateDocument d' (j_limits j) = Inr ()" "journal_read j (sys_reread sys) disk' = Inr d'"
    by (rule mutate_ok)
  have "validateDocument d (j_limits j) = Inr ()" by (rule journal_read_valid [OF d(1) assms(1)])
  moreover have "?ch d = ((inp, True), Inr d')" using d(2) by (auto simp: polled_def split: option.splits)
  ultimately have "?ch d' = ((inp, False), Inl errNoMutation)"
    using findSession_enqueued [of d "j_limits j" sid _ mid payload atts "(inp, True)" d'] d(3) by simp
  then show ?thesis
    using req assms(3-6) d(4)
    by (simp add: EnqueueInputWithAttachments_def checked_def mutate_lockable mutateLocked_def
        noMutation_def Let_def)
qed

theorem enqueue_input_idempotent_witness:
  "EnqueueInputWithAttachments (sample_journal [sample_waiting, sample_enqueued]) calm (\<lambda>_. None)
     ''s'' ''c'' ''hi'' [] (sample_file 0) =
     (((inputFromRecord ''s'' (sample_input ''c'' 4 InputPending), True), None), sample_file 1) \<and>
   EnqueueInputWithAttachments (sample_journal [sample_waiting, sample_enqueued]) calm (\<lambda>_. None)
     ''s'' ''c'' ''hi'' [] (sample_file 1) =
     (((inputFromRecord ''s'' (sample_input ''c'' 4 InputPending), False), None), sample_file 1)"
proof -
  let ?j = "sample_journal [sample_waiting, sample_enqueued]"
  have first: "EnqueueInputWithAttachments ?j calm (\<lambda>_. None) ''s'' ''c'' ''hi'' [] (sample_file 0) =
     (((inputFromRecord ''s'' (sample_input ''c'' 4 InputPending), True), None), sample_file 1)"
    by code_simp
  have lim: "validateLimits (j_limits ?j) = Inr ()" and calm: "lockable calm" "sys_read calm = sys_reread calm"
    by code_simp+
  from enqueue_input_idempotent [OF lim first calm, of "\<lambda>_. None"] first show ?thesis by simp
qed

end
