(* ===== verification/Go_Maps.thy ===== *)
theory Go_Maps
  imports Prelude "HOL-Library.Finite_Map" "HOL-Library.Char_ord" "HOL-Library.List_Lexorder"
begin

text \<open>
  Go maps, for the components that keep their state in maps. A \<^verbatim>\<open>map[K]V\<close> is a finite map
  \<open>('k, 'v) fmap\<close>: reading a missing key is \<open>fmlookup\<close> returning \<open>None\<close>, assignment \<open>fmupd\<close>,
  \<open>delete\<close> is \<open>fmdrop\<close>. A \<open>range\<close> loop sees the bindings in some order that the language leaves
  open; the model takes the ascending order of the keys, which is also the order in which
  \<^verbatim>\<open>encoding/json\<close> writes a map. Strings are ordered by their bytes, as in Go. A map that the code
  compares with \<open>nil\<close> is an optional map.
\<close>

definition entries :: "('k::linorder, 'v) fmap \<Rightarrow> ('k \<times> 'v) list" where
  "entries m = sorted_list_of_fmap m"

definition mapKeys :: "('k::linorder, 'v) fmap \<Rightarrow> 'k list" where
  "mapKeys m = map fst (entries m)"

text \<open>The value of \<^verbatim>\<open>m[k]\<close>: the zero value of the element type when the key is missing.\<close>

definition valueOr :: "'v \<Rightarrow> ('k, 'v) fmap \<Rightarrow> 'k \<Rightarrow> 'v" where
  "valueOr zero m k = (case fmlookup m k of None \<Rightarrow> zero | Some v \<Rightarrow> v)"

lemma set_entries: "(k, v) \<in> set (entries m) \<longleftrightarrow> fmlookup m k = Some v"
  by (auto simp: entries_def sorted_list_of_fmap_def fmlookup_dom_iff)

lemma mapKeys_eq: "mapKeys m = sorted_list_of_fset (fmdom m)"
  by (simp add: mapKeys_def entries_def sorted_list_of_fmap_def comp_def)

lemma mapKeys_sorted [simp]: "sorted (mapKeys m)" "distinct (mapKeys m)"
  by (simp_all add: mapKeys_eq sorted_list_of_fset.rep_eq)

lemma set_mapKeys [simp]: "set (mapKeys m) = fset (fmdom m)"
  by (simp add: mapKeys_eq)

lemma map_of_entries [simp]: "map_of (entries m) = fmlookup m"
  by (simp add: entries_def)

lemma fmap_of_entries [simp]: "fmap_of_list (entries m) = m"
  by (simp add: fmap_ext fmlookup_of_list)

lemma entries_empty [simp]: "entries fmempty = []"
  by (simp add: entries_def sorted_list_of_fmap_def sorted_list_of_fset.rep_eq)

lemma entries_single [simp]: "entries (fmupd k v fmempty) = [(k, v)]"
  by (simp add: entries_def sorted_list_of_fmap_def sorted_list_of_fset.rep_eq)

lemma entries_of_list:
  assumes "sorted (map fst xs)" and "distinct (map fst xs)"
  shows "entries (fmap_of_list xs) = xs"
proof -
  have "sorted_list_of_fset (fmdom (fmap_of_list xs)) = map fst xs"
    using assms by (simp add: sorted_list_of_fset.rep_eq fset_of_list.rep_eq fmdom_of_list
        sorted_list_of_set.idem_if_sorted_distinct image_set del: set_map)
  moreover have "map (\<lambda>k. (k, the (map_of xs k))) (map fst xs) = xs"
    using assms(2) by (auto intro!: map_idI simp: comp_def)
  ultimately show ?thesis
    by (simp add: entries_def sorted_list_of_fmap_def fmlookup_of_list)
qed

lemma valueOr_simps [simp]:
  "valueOr z fmempty k = z"
  "valueOr z (fmupd k v m) k' = (if k' = k then v else valueOr z m k')"
  "valueOr z (fmdrop k m) k' = (if k' = k then z else valueOr z m k')"
  by (simp_all add: valueOr_def)

text \<open>A loop over a map that returns at the first error passes when every binding passes.\<close>

lemma forE_entries [result_simps]:
  "forE f (entries m) = Inr u \<longleftrightarrow> (\<forall>k v. fmlookup m k = Some v \<longrightarrow> f (k, v) = Inr ())"
  by (auto simp: forE_Inr set_entries)

end
