(* ===== verification/Telegram_State.thy ===== *)
theory Telegram_State
  imports Session Go_Maps
begin

text \<open>
  The durable state of the Telegram user interface, package
  \<^verbatim>\<open>src/internal/telegramstate\<close>: one card per session with its history and the message that
  carries it, the selected node and the active sessions. \<open>Validate\<close> is the invariant of the
  stored state; \<open>SetCard\<close> replaces one card and advances the revision that fences delayed edits.
\<close>

section \<open>Data\<close>

definition FormatVersion :: int where
  "FormatVersion = 1"

definition maxPages :: int where
  "maxPages = 512"

definition maxAnchor :: int where
  "maxAnchor = 1024"

definition maxNodeID :: int where
  "maxNodeID = 256"

record Carrier =
  ChatID :: int
  MessageID :: int

record Page =
  p_Current :: int
  p_Total :: int
  p_Anchor :: string
  p_FollowLatest :: bool

text \<open>
  The four columns of the history are slices: \<open>nil\<close> and empty are told apart by the fingerprint
  of the card. Everything else reads their \<open>elems\<close>.
\<close>

record Card =
  c_EmptyCloseEligible :: bool
  c_SessionID :: SessionID
  c_Carrier :: Carrier
  c_CarrierRevision :: u64
  c_CarrierOperation :: string
  c_LastPresentationOperation :: string
  c_LastEventUnixNano :: int
  c_Page :: Page
  c_OptionsExpanded :: bool
  c_History :: "string slice"
  c_HistoryKeys :: "string slice"
  c_HistoryTurnKeys :: "string slice"
  c_HistoryKinds :: "string slice"
  c_PendingFinalOperations :: "string slice"

record State =
  u_Version :: int
  u_SelectedNode :: ComputerID
  u_ActiveSession :: SessionID
  u_ActiveSessions :: "(ComputerID, SessionID) fmap"
  u_RecentSessions :: "(ComputerID, SessionID list) fmap"
  u_ScreenEnabled :: bool
  u_Cards :: "(SessionID, Card) fmap option"

definition zeroCarrier :: Carrier where
  "zeroCarrier = \<lparr>ChatID = 0, MessageID = 0\<rparr>"

definition zeroPage :: Page where
  "zeroPage = \<lparr>p_Current = 0, p_Total = 0, p_Anchor = [], p_FollowLatest = False\<rparr>"

definition zeroCard :: Card where
  "zeroCard =
     \<lparr>c_EmptyCloseEligible = False, c_SessionID = [], c_Carrier = zeroCarrier, c_CarrierRevision = 0,
      c_CarrierOperation = [], c_LastPresentationOperation = [], c_LastEventUnixNano = 0,
      c_Page = zeroPage, c_OptionsExpanded = False, c_History = None, c_HistoryKeys = None,
      c_HistoryTurnKeys = None, c_HistoryKinds = None, c_PendingFinalOperations = None\<rparr>"

definition cardsOf :: "State \<Rightarrow> (SessionID, Card) fmap" where
  "cardsOf s = (case u_Cards s of None \<Rightarrow> fmempty | Some m \<Rightarrow> m)"

lemma cardsOf_simps [simp]:
  "cardsOf (s\<lparr>u_Cards := Some m\<rparr>) = m"
  "cardsOf (s\<lparr>u_Version := v\<rparr>) = cardsOf s"
  "cardsOf (s\<lparr>u_SelectedNode := n\<rparr>) = cardsOf s"
  "cardsOf (s\<lparr>u_ActiveSession := a\<rparr>) = cardsOf s"
  "cardsOf (s\<lparr>u_ActiveSessions := as\<rparr>) = cardsOf s"
  "cardsOf (s\<lparr>u_RecentSessions := rs\<rparr>) = cardsOf s"
  by (simp_all add: cardsOf_def)

section \<open>Cards\<close>

definition CarrierOwner :: "Card \<Rightarrow> string" where
  "CarrierOwner c =
     (if c_CarrierOperation c \<noteq> [] then c_CarrierOperation c else c_LastPresentationOperation c)"

definition TouchEvent :: "time \<Rightarrow> Card \<Rightarrow> Card" where
  "TouchEvent at c =
     (let next = UnixNano at in
      if next \<le> c_LastEventUnixNano c then
        if c_LastEventUnixNano c = maxInt64 then c
        else c\<lparr>c_LastEventUnixNano := c_LastEventUnixNano c + 1\<rparr>
      else c\<lparr>c_LastEventUnixNano := next\<rparr>)"

text \<open>\<^verbatim>\<open>append([]T(nil), xs...)\<close>: a copy, \<open>nil\<close> when there is nothing to copy.\<close>

definition copySlice :: "'a slice \<Rightarrow> 'a slice" where
  "copySlice xs = (if elems xs = [] then None else xs)"

lemma elems_copySlice [simp]: "elems (copySlice xs) = elems xs"
  by (simp add: copySlice_def)

definition PendingFinalsAfter :: "Card \<Rightarrow> string \<Rightarrow> string slice" where
  "PendingFinalsAfter c operationID =
     (let pending = copySlice (c_PendingFinalOperations c) in
      if operationID = [] then pending
      else let kept = filter (\<lambda>operation. operation \<noteq> operationID) (elems pending) in
           if kept = [] then None else Some kept)"

section \<open>Validation\<close>

definition Page_validate :: "Page \<Rightarrow> string + unit" where
  "Page_validate p =
     bindE (failIf (p_Current p < 1 \<or> p_Total p < 1 \<or> p_Current p > p_Total p \<or> p_Total p > maxPages)
              ''page must be within 1..512'') (\<lambda>_.
     failIf (len (p_Anchor p) > maxAnchor \<or> \<not> ValidString (p_Anchor p)) ''anchor is invalid'')"

definition Carrier_validate :: "Carrier \<Rightarrow> string + unit" where
  "Carrier_validate c =
     (if ChatID c = 0 \<and> MessageID c = 0 then Inr ()
      else failIf (ChatID c \<le> 0 \<or> MessageID c \<le> 0)
             ''chat and message IDs must be both zero or positive'')"

definition containsBreak :: "string \<Rightarrow> bool" where
  "containsBreak s = list_ex (\<lambda>c. c \<in> {CHR 0x00, CHR 0x0D, CHR 0x0A}) s"

definition validateOperation :: "string \<Rightarrow> string + unit" where
  "validateOperation operation =
     failIf (TrimSpace operation \<noteq> operation \<or> len operation > maxAnchor + 6 \<or>
             \<not> ValidString operation \<or> containsBreak operation) ''presentation operation is invalid''"

fun validatePendingFinals :: "string set \<Rightarrow> string list \<Rightarrow> string + unit" where
  "validatePendingFinals seen [] = Inr ()"
| "validatePendingFinals seen (operation # rest) =
     bindE (failIf (operation = [] \<or> TrimSpace operation \<noteq> operation \<or>
                    len operation > maxAnchor + 6 \<or> \<not> ValidString operation)
              ''pending final operation is invalid'') (\<lambda>_.
     bindE (failIf (operation \<in> seen) ''pending final operation is duplicated'') (\<lambda>_.
     validatePendingFinals (insert operation seen) rest))"

fun validateHistoryKeys :: "string set \<Rightarrow> string list \<Rightarrow> string + unit" where
  "validateHistoryKeys seen [] = Inr ()"
| "validateHistoryKeys seen (key # rest) =
     (if key = [] then validateHistoryKeys seen rest
      else
        bindE (failIf (TrimSpace key \<noteq> key \<or> len key > maxAnchor \<or> \<not> ValidString key)
                 ''history key is invalid'') (\<lambda>_.
        bindE (failIf (key \<in> seen) ''history key is duplicated'') (\<lambda>_.
        validateHistoryKeys (insert key seen) rest)))"

definition historyKinds :: "string list" where
  "historyKinds = [[], ''tool'', ''thinking'', ''final'', ''prompt'', ''commentary'', ''question'']"

definition validateCard :: "SessionID \<times> Card \<Rightarrow> string + unit" where
  "validateCard entry =
     (let (ident, c) = entry; history = elems (c_History c) in
      bindE (failIf (blank ident \<or> c_SessionID c \<noteq> ident) ''card session identity is invalid'') (\<lambda>_.
      bindE (Page_validate (c_Page c)) (\<lambda>_.
      bindE (Carrier_validate (c_Carrier c)) (\<lambda>_.
      bindE (forE validateOperation [c_CarrierOperation c, c_LastPresentationOperation c]) (\<lambda>_.
      bindE (failIf (c_LastEventUnixNano c < 0) ''last card event time is invalid'') (\<lambda>_.
      bindE (failIf (len history > 512) ''history is too long'') (\<lambda>_.
      bindE (failIf (len (elems (c_PendingFinalOperations c)) > 512)
               ''pending final operations exceed capacity'') (\<lambda>_.
      bindE (validatePendingFinals {} (elems (c_PendingFinalOperations c))) (\<lambda>_.
      bindE (failIf (elems (c_HistoryKeys c) \<noteq> [] \<and>
                     len (elems (c_HistoryKeys c)) \<noteq> len history)
               ''history keys are not aligned'') (\<lambda>_.
      bindE (failIf (elems (c_HistoryKinds c) \<noteq> [] \<and>
                     len (elems (c_HistoryKinds c)) \<noteq> len history)
               ''history kinds are not aligned'') (\<lambda>_.
      bindE (failIf (elems (c_HistoryTurnKeys c) \<noteq> [] \<and>
                     len (elems (c_HistoryTurnKeys c)) \<noteq> len history)
               ''history turn keys are not aligned'') (\<lambda>_.
      bindE (validateHistoryKeys {} (elems (c_HistoryKeys c))) (\<lambda>_.
      bindE (forE (\<lambda>item. failIf (item = [] \<or> \<not> ValidString item \<or> len item > 16384)
                             ''history item is invalid'') history) (\<lambda>_.
      forE (\<lambda>kind. failIf (kind \<notin> set historyKinds) ''history kind is invalid'')
        (elems (c_HistoryKinds c))))))))))))))))"

definition validateActiveSession ::
  "(SessionID, Card) fmap \<Rightarrow> ComputerID \<times> SessionID \<Rightarrow> string + unit" where
  "validateActiveSession cards entry =
     (let (nodeID, sessionID) = entry in
      bindE (failIf (TrimSpace nodeID \<noteq> nodeID \<or> nodeID = [] \<or> len nodeID > maxNodeID \<or>
                     \<not> ValidString nodeID) ''active-session node identity is invalid'') (\<lambda>_.
      bindE (failIf (blank sessionID) ''active session for node is invalid'') (\<lambda>_.
      failIf (fmlookup cards sessionID = None) ''active session for node has no card'')))"

fun validateRecentList ::
  "(SessionID, Card) fmap \<Rightarrow> SessionID set \<Rightarrow> SessionID list \<Rightarrow> string + unit" where
  "validateRecentList cards seen [] = Inr ()"
| "validateRecentList cards seen (sessionID # rest) =
     bindE (failIf (blank sessionID) ''recent session identity is invalid'') (\<lambda>_.
     bindE (failIf (sessionID \<in> seen) ''recent session identity is duplicated'') (\<lambda>_.
     bindE (failIf (fmlookup cards sessionID = None) ''recent session for node has no card'') (\<lambda>_.
     validateRecentList cards (insert sessionID seen) rest)))"

definition validateRecentSessions ::
  "(SessionID, Card) fmap \<Rightarrow> ComputerID \<times> SessionID list \<Rightarrow> string + unit" where
  "validateRecentSessions cards entry =
     (let (nodeID, sessions) = entry in
      bindE (failIf (TrimSpace nodeID \<noteq> nodeID \<or> nodeID = [] \<or> len nodeID > maxNodeID \<or>
                     len sessions > 512) ''recent-session node identity or history is invalid'') (\<lambda>_.
      validateRecentList cards {} sessions))"

definition validateSelection :: "State \<Rightarrow> string + unit" where
  "validateSelection s =
     (if u_SelectedNode s \<noteq> [] then
        bindE (failIf (TrimSpace (u_SelectedNode s) \<noteq> u_SelectedNode s \<or>
                       len (u_SelectedNode s) > maxNodeID \<or> \<not> ValidString (u_SelectedNode s))
                 ''selected node identity is invalid'') (\<lambda>_.
        failIf (valueOr [] (u_ActiveSessions s) (u_SelectedNode s) \<noteq> u_ActiveSession s)
          ''selected node active session does not match global projection'')
      else Inr ())"

definition Validate :: "State \<Rightarrow> string + unit" where
  "Validate s =
     bindE (failIf (u_Version s \<noteq> FormatVersion) ''unsupported Telegram UI state version'') (\<lambda>_.
     bindE (failIf (u_Cards s = None) ''cards map is required'') (\<lambda>_.
     bindE (forE (validateActiveSession (cardsOf s)) (entries (u_ActiveSessions s))) (\<lambda>_.
     bindE (forE (validateRecentSessions (cardsOf s)) (entries (u_RecentSessions s))) (\<lambda>_.
     bindE (validateSelection s) (\<lambda>_.
     bindE (forE validateCard (entries (cardsOf s))) (\<lambda>_.
     failIf (u_ActiveSession s \<noteq> [] \<and> fmlookup (cardsOf s) (u_ActiveSession s) = None)
       ''active session has no card''))))))"

section \<open>Operations\<close>

definition New :: State where
  "New = \<lparr>u_Version = FormatVersion, u_SelectedNode = [], u_ActiveSession = [],
          u_ActiveSessions = fmempty, u_RecentSessions = fmempty, u_ScreenEnabled = False,
          u_Cards = Some fmempty\<rparr>"

definition cloneCard :: "Card \<Rightarrow> Card" where
  "cloneCard c =
     c\<lparr>c_History := copySlice (c_History c),
          c_HistoryKeys := copySlice (c_HistoryKeys c),
          c_HistoryTurnKeys := copySlice (c_HistoryTurnKeys c),
          c_HistoryKinds := copySlice (c_HistoryKinds c),
          c_PendingFinalOperations := PendingFinalsAfter c []\<rparr>"

definition Clone :: "State \<Rightarrow> State" where
  "Clone s = s\<lparr>u_Cards := Some (fmmap cloneCard (cardsOf s))\<rparr>"

definition State_Card :: "State \<Rightarrow> SessionID \<Rightarrow> Card \<times> bool" where
  "State_Card s ident =
     (let c = valueOr zeroCard (cardsOf s) ident in
      (c\<lparr>c_PendingFinalOperations := PendingFinalsAfter c []\<rparr>,
       fmlookup (cardsOf s) ident \<noteq> None))"

definition SetCard :: "Card \<Rightarrow> State \<Rightarrow> string + State" where
  "SetCard c s =
     bindE (failIf (blank (c_SessionID c)) ''card session id is required'') (\<lambda>_.
     let previous = valueOr zeroCard (cardsOf s) (c_SessionID c);
         c = c\<lparr>c_CarrierRevision := c_CarrierRevision previous\<rparr>
     in
     bindE (if c_Carrier previous \<noteq> c_Carrier c then
              bindE (failIf (c_CarrierRevision c = maxUint64) ''card carrier revision exhausted'') (\<lambda>_.
              Inr (c\<lparr>c_CarrierRevision := c_CarrierRevision c + 1\<rparr>))
            else if c_CarrierOperation previous \<noteq> []
            then Inr (c\<lparr>c_CarrierOperation := c_CarrierOperation previous\<rparr>)
            else Inr c) (\<lambda>c.
     bindE (Validate \<lparr>u_Version = u_Version s, u_SelectedNode = [], u_ActiveSession = [],
                      u_ActiveSessions = fmempty, u_RecentSessions = fmempty,
                      u_ScreenEnabled = False,
                      u_Cards = Some (fmupd (c_SessionID c) c fmempty)\<rparr>) (\<lambda>_.
     let c = c\<lparr>c_PendingFinalOperations := PendingFinalsAfter c []\<rparr> in
     Inr (s\<lparr>u_Cards := Some (fmupd (c_SessionID c) c (cardsOf s))\<rparr>))))"

definition CommitNativeCarrier :: "SessionID \<Rightarrow> Carrier \<Rightarrow> string \<Rightarrow> State \<Rightarrow> string + State" where
  "CommitNativeCarrier ident carrier operation state =
     bindE (failIf (ChatID carrier \<le> 0 \<or> MessageID carrier \<le> 0)
              ''native carrier receipt must be confirmed'') (\<lambda>_.
     let (c, ok) = State_Card state ident in
     bindE (failIf (\<not> ok) ''native carrier session no longer exists'') (\<lambda>_.
     SetCard (if c_Carrier c \<noteq> carrier
              then c\<lparr>c_CarrierOperation := operation, c_Carrier := carrier\<rparr> else c) state))"

text \<open>
  The in-memory store. \<open>Update\<close> works on a copy, so that an update that fails or leaves an
  invalid state changes nothing; its \<open>next\<close> and the state it keeps on success are the result.
\<close>

definition MemoryStore_Load :: "string option \<Rightarrow> State \<Rightarrow> string + State" where
  "MemoryStore_Load ctx state = (case ctx of Some e \<Rightarrow> Inl e | None \<Rightarrow> Inr (Clone state))"

definition MemoryStore_Update ::
  "string option \<Rightarrow> (State \<Rightarrow> string + State) \<Rightarrow> State \<Rightarrow> string option \<times> State" where
  "MemoryStore_Update ctx fn state =
     (case ctx of
        Some e \<Rightarrow> (Some e, state)
      | None \<Rightarrow>
          (case fn (Clone state) of
             Inl e \<Rightarrow> (Some e, state)
           | Inr next \<Rightarrow>
               (case Validate next of
                  Inl e \<Rightarrow> (Some (''validate UI state: '' @ e), state)
                | Inr _ \<Rightarrow> (None, next))))"

section \<open>Validation, characterised\<close>

definition finalOperation_ok :: "string \<Rightarrow> bool" where
  "finalOperation_ok operation \<longleftrightarrow>
     operation \<noteq> [] \<and> TrimSpace operation = operation \<and> len operation \<le> maxAnchor + 6 \<and>
     ValidString operation"

definition historyKey_ok :: "string \<Rightarrow> bool" where
  "historyKey_ok key \<longleftrightarrow> TrimSpace key = key \<and> len key \<le> maxAnchor \<and> ValidString key"

lemma validatePendingFinals_iff [result_simps]:
  "validatePendingFinals seen xs = Inr u \<longleftrightarrow>
     distinct xs \<and> set xs \<inter> seen = {} \<and> (\<forall>x\<in>set xs. finalOperation_ok x)"
  by (induction seen xs rule: validatePendingFinals.induct)
     (auto simp: result_simps finalOperation_ok_def not_less)

lemma validateHistoryKeys_iff [result_simps]:
  "validateHistoryKeys seen xs = Inr u \<longleftrightarrow>
     distinct (filter (\<lambda>x. x \<noteq> []) xs) \<and> (\<forall>x\<in>set xs. x \<noteq> [] \<longrightarrow> x \<notin> seen \<and> historyKey_ok x)"
  by (induction seen xs rule: validateHistoryKeys.induct)
     (auto simp: result_simps historyKey_ok_def not_less)

lemma validateRecentList_iff [result_simps]:
  "validateRecentList cards seen xs = Inr u \<longleftrightarrow>
     distinct xs \<and> set xs \<inter> seen = {} \<and>
     (\<forall>x\<in>set xs. \<not> blank x \<and> fmlookup cards x \<noteq> None)"
  by (induction cards seen xs rule: validateRecentList.induct) (auto simp: result_simps)

definition column_ok :: "'a slice \<Rightarrow> nat \<Rightarrow> bool" where
  "column_ok xs n \<longleftrightarrow> elems xs = [] \<or> length (elems xs) = n"

definition historyItem_ok :: "string \<Rightarrow> bool" where
  "historyItem_ok item \<longleftrightarrow> item \<noteq> [] \<and> ValidString item \<and> len item \<le> 16384"

text \<open>The part of a valid card that the history operations change.\<close>

definition history_ok :: "Card \<Rightarrow> bool" where
  "history_ok c \<longleftrightarrow>
     length (elems (c_History c)) \<le> 512 \<and>
     column_ok (c_HistoryKeys c) (length (elems (c_History c))) \<and>
     column_ok (c_HistoryKinds c) (length (elems (c_History c))) \<and>
     column_ok (c_HistoryTurnKeys c) (length (elems (c_History c))) \<and>
     distinct (filter (\<lambda>x. x \<noteq> []) (elems (c_HistoryKeys c))) \<and>
     (\<forall>key\<in>set (elems (c_HistoryKeys c)). key \<noteq> [] \<longrightarrow> historyKey_ok key) \<and>
     (\<forall>item\<in>set (elems (c_History c)). historyItem_ok item) \<and>
     (\<forall>kind\<in>set (elems (c_HistoryKinds c)). kind \<in> set historyKinds)"

definition finals_ok :: "Card \<Rightarrow> bool" where
  "finals_ok c \<longleftrightarrow>
     length (elems (c_PendingFinalOperations c)) \<le> 512 \<and>
     distinct (elems (c_PendingFinalOperations c)) \<and>
     (\<forall>operation\<in>set (elems (c_PendingFinalOperations c)). finalOperation_ok operation)"

definition card_ok :: "SessionID \<Rightarrow> Card \<Rightarrow> bool" where
  "card_ok ident c \<longleftrightarrow>
     \<not> blank ident \<and> c_SessionID c = ident \<and> Page_validate (c_Page c) = Inr () \<and>
     Carrier_validate (c_Carrier c) = Inr () \<and> validateOperation (c_CarrierOperation c) = Inr () \<and>
     validateOperation (c_LastPresentationOperation c) = Inr () \<and> 0 \<le> c_LastEventUnixNano c \<and>
     finals_ok c \<and> history_ok c"

lemma validateCard_iff [result_simps]: "validateCard (ident, c) = Inr u \<longleftrightarrow> card_ok ident c"
  by (simp add: validateCard_def card_ok_def history_ok_def finals_ok_def column_ok_def Let_def
        historyItem_ok_def result_simps len_def not_less) blast

definition selection_ok :: "State \<Rightarrow> bool" where
  "selection_ok s \<longleftrightarrow>
     (\<forall>n a. fmlookup (u_ActiveSessions s) n = Some a \<longrightarrow>
        validateActiveSession (cardsOf s) (n, a) = Inr ()) \<and>
     (\<forall>n xs. fmlookup (u_RecentSessions s) n = Some xs \<longrightarrow>
        validateRecentSessions (cardsOf s) (n, xs) = Inr ()) \<and>
     validateSelection s = Inr () \<and>
     (u_ActiveSession s \<noteq> [] \<longrightarrow> fmlookup (cardsOf s) (u_ActiveSession s) \<noteq> None)"

lemma Validate_iff:
  "Validate s = Inr u \<longleftrightarrow>
     u_Version s = FormatVersion \<and> u_Cards s \<noteq> None \<and> selection_ok s \<and>
     (\<forall>ident c. fmlookup (cardsOf s) ident = Some c \<longrightarrow> card_ok ident c)"
  unfolding Validate_def selection_ok_def
  by (simp add: bindE_Inr failIf_Inr forE_entries validateCard_iff) blast

lemma Validate_New: "Validate New = Inr ()"
  by (simp add: Validate_iff selection_ok_def validateSelection_def New_def cardsOf_def)

text \<open>More cards keep a valid selection valid.\<close>

lemma selection_ok_mono:
  assumes "selection_ok s"
    and "\<And>i. fmlookup (cardsOf s) i \<noteq> None \<Longrightarrow> fmlookup cards i \<noteq> None"
  shows "selection_ok (s\<lparr>u_Cards := Some cards\<rparr>)"
  using assms
  by (auto simp: selection_ok_def validateActiveSession_def validateRecentSessions_def
        validateSelection_def result_simps)

section \<open>Replacing a card\<close>

text \<open>
  What \<open>SetCard\<close> stores: the new card with the revision and the owner it derives from the
  previous one.
\<close>

lemma SetCard_Inr:
  assumes "SetCard c s = Inr s'"
  defines "previous \<equiv> valueOr zeroCard (cardsOf s) (c_SessionID c)"
  obtains stored where
    "s' = s\<lparr>u_Cards := Some (fmupd (c_SessionID c) stored (cardsOf s))\<rparr>"
    and "card_ok (c_SessionID c) stored" and "u_Version s = FormatVersion"
    and "c_Carrier stored = c_Carrier c"
    and "c_History stored = c_History c" and "c_HistoryKeys stored = c_HistoryKeys c"
    and "c_HistoryKinds stored = c_HistoryKinds c" and "c_HistoryTurnKeys stored = c_HistoryTurnKeys c"
    and "c_EmptyCloseEligible stored = c_EmptyCloseEligible c"
    and "c_LastEventUnixNano stored = c_LastEventUnixNano c"
    and "c_Page stored = c_Page c"
    and "elems (c_PendingFinalOperations stored) = elems (c_PendingFinalOperations c)"
    and "c_Carrier previous \<noteq> c_Carrier c \<Longrightarrow>
           c_CarrierRevision previous \<noteq> maxUint64 \<and>
           c_CarrierRevision stored = c_CarrierRevision previous + 1 \<and>
           c_CarrierOperation stored = c_CarrierOperation c"
    and "c_Carrier previous = c_Carrier c \<Longrightarrow>
           c_CarrierRevision stored = c_CarrierRevision previous \<and>
           c_CarrierOperation stored =
             (if c_CarrierOperation previous \<noteq> [] then c_CarrierOperation previous
              else c_CarrierOperation c)"
proof -
  define fenced where "fenced =
    (if c_Carrier previous \<noteq> c_Carrier c
     then c\<lparr>c_CarrierRevision := c_CarrierRevision previous + 1\<rparr>
     else if c_CarrierOperation previous \<noteq> []
     then c\<lparr>c_CarrierRevision := c_CarrierRevision previous,
            c_CarrierOperation := c_CarrierOperation previous\<rparr>
     else c\<lparr>c_CarrierRevision := c_CarrierRevision previous\<rparr>)"
  define stored where "stored =
    fenced\<lparr>c_PendingFinalOperations := PendingFinalsAfter fenced []\<rparr>"
  have id: "c_SessionID fenced = c_SessionID c" by (simp add: fenced_def)
  from assms(1) have s': "s' = s\<lparr>u_Cards := Some (fmupd (c_SessionID c) stored (cardsOf s))\<rparr>"
    and v: "Validate \<lparr>u_Version = u_Version s, u_SelectedNode = [], u_ActiveSession = [],
              u_ActiveSessions = fmempty, u_RecentSessions = fmempty, u_ScreenEnabled = False,
              u_Cards = Some (fmupd (c_SessionID fenced) fenced fmempty)\<rparr> = Inr ()"
    and x: "c_Carrier previous \<noteq> c_Carrier c \<longrightarrow> c_CarrierRevision previous \<noteq> maxUint64"
    unfolding stored_def fenced_def previous_def SetCard_def Let_def
    by (auto simp: result_simps split: if_splits)
  have ok: "card_ok (c_SessionID c) fenced" "u_Version s = FormatVersion"
    using v id by (auto simp: Validate_iff cardsOf_def)
  have "card_ok (c_SessionID c) stored"
    using ok(1) by (simp add: stored_def card_ok_def finals_ok_def history_ok_def PendingFinalsAfter_def)
  with s' ok(2) x show ?thesis
    by (intro that [of stored]) (auto simp: stored_def fenced_def PendingFinalsAfter_def)
qed

lemma SetCard_valid:
  assumes "Validate s = Inr ()" and "SetCard c s = Inr s'"
  shows "Validate s' = Inr ()"
proof -
  from assms(2) obtain stored where
    s': "s' = s\<lparr>u_Cards := Some (fmupd (c_SessionID c) stored (cardsOf s))\<rparr>"
    and ok: "card_ok (c_SessionID c) stored"
    by (rule SetCard_Inr)
  show ?thesis
    using assms(1) ok unfolding s' Validate_iff
    by (auto intro!: selection_ok_mono)
qed

text \<open>The order that every replacement of a card follows: a revision belongs to one carrier.\<close>

definition carrier_le :: "State \<Rightarrow> State \<Rightarrow> bool" where
  "carrier_le s t \<longleftrightarrow>
     (\<forall>ident. let p = valueOr zeroCard (cardsOf s) ident; q = valueOr zeroCard (cardsOf t) ident in
        c_CarrierRevision p \<le> c_CarrierRevision q \<and>
        (c_CarrierRevision p = c_CarrierRevision q \<longrightarrow> c_Carrier p = c_Carrier q))"

definition setCard_step :: "State \<Rightarrow> Card \<Rightarrow> State \<Rightarrow> bool" where
  "setCard_step s c t \<longleftrightarrow> SetCard c s = Inr t"

lemma less_Suc_u64:
  fixes w :: u64
  assumes "w \<noteq> maxUint64"
  shows "w < w + 1"
  using unat_Suc_u64 [OF assms] by (simp add: word_less_nat_alt)

lemma SetCard_carrier_le:
  assumes "SetCard c s = Inr s'"
  shows "carrier_le s s'"
  using assms
proof (rule SetCard_Inr)
  fix stored
  assume s': "s' = s\<lparr>u_Cards := Some (fmupd (c_SessionID c) stored (cardsOf s))\<rparr>"
    and a: "c_Carrier stored = c_Carrier c"
    and b: "c_Carrier (valueOr zeroCard (cardsOf s) (c_SessionID c)) \<noteq> c_Carrier c \<Longrightarrow>
           c_CarrierRevision (valueOr zeroCard (cardsOf s) (c_SessionID c)) \<noteq> maxUint64 \<and>
           c_CarrierRevision stored =
             c_CarrierRevision (valueOr zeroCard (cardsOf s) (c_SessionID c)) + 1 \<and>
           c_CarrierOperation stored = c_CarrierOperation c"
    and d: "c_Carrier (valueOr zeroCard (cardsOf s) (c_SessionID c)) = c_Carrier c \<Longrightarrow>
           c_CarrierRevision stored =
             c_CarrierRevision (valueOr zeroCard (cardsOf s) (c_SessionID c)) \<and>
           c_CarrierOperation stored =
             (if c_CarrierOperation (valueOr zeroCard (cardsOf s) (c_SessionID c)) \<noteq> []
              then c_CarrierOperation (valueOr zeroCard (cardsOf s) (c_SessionID c))
              else c_CarrierOperation c)"
  show ?thesis
  proof (cases "c_Carrier (valueOr zeroCard (cardsOf s) (c_SessionID c)) = c_Carrier c")
    case True
    from d [OF this] True a show ?thesis by (simp add: s' carrier_le_def)
  next
    case False
    define w where "w = c_CarrierRevision (valueOr zeroCard (cardsOf s) (c_SessionID c))"
    from b [OF False] have "w < w + 1" and stored: "c_CarrierRevision stored = w + 1"
      by (auto simp: w_def intro: less_Suc_u64)
    then have "w \<le> w + 1" "w \<noteq> w + 1" by (auto simp: order_less_imp_le)
    with stored show ?thesis by (simp add: s' carrier_le_def flip: w_def)
  qed
qed

interpretation cards: ordered_machine setCard_step "\<lambda>s. Validate s = Inr ()" carrier_le
proof
  show "Validate t = Inr ()" if "Validate s = Inr ()" "setCard_step s c t" for s c t
    using that by (auto simp: setCard_step_def intro: SetCard_valid)
  show "carrier_le s t" if "setCard_step s c t" for s c t
    using that by (auto simp: setCard_step_def intro: SetCard_carrier_le)
  show "carrier_le s s" for s
    by (simp add: carrier_le_def)
  show "carrier_le s u" if "carrier_le s t" "carrier_le t u" for s t u
    unfolding carrier_le_def Let_def
  proof (intro allI conjI impI)
    fix ident
    define p q r where "p = valueOr zeroCard (cardsOf s) ident"
      and "q = valueOr zeroCard (cardsOf t) ident" and "r = valueOr zeroCard (cardsOf u) ident"
    have le: "c_CarrierRevision p \<le> c_CarrierRevision q" "c_CarrierRevision q \<le> c_CarrierRevision r"
      and eq: "c_CarrierRevision p = c_CarrierRevision q \<Longrightarrow> c_Carrier p = c_Carrier q"
        "c_CarrierRevision q = c_CarrierRevision r \<Longrightarrow> c_Carrier q = c_Carrier r"
      using that unfolding carrier_le_def Let_def p_def q_def r_def by blast+
    show "c_CarrierRevision (valueOr zeroCard (cardsOf s) ident) \<le>
          c_CarrierRevision (valueOr zeroCard (cardsOf u) ident)"
      using le by (fold p_def r_def) (rule order_trans)
    show "c_Carrier (valueOr zeroCard (cardsOf s) ident) = c_Carrier (valueOr zeroCard (cardsOf u) ident)"
      if "c_CarrierRevision (valueOr zeroCard (cardsOf s) ident) =
          c_CarrierRevision (valueOr zeroCard (cardsOf u) ident)"
      using that le eq by (fold p_def r_def) simp
  qed
qed

end
