(* ===== verification/Crypto.thy ===== *)
theory Crypto
  imports Prelude
begin

text \<open>
  The functions of the packages \<^verbatim>\<open>crypto/sha256\<close>, \<^verbatim>\<open>crypto/hmac\<close> and \<^verbatim>\<open>encoding/hex\<close> that the sources
  call, on byte strings. \<open>Sum256\<close> is the hash of FIPS 180-4: the message is padded to blocks of 64
  bytes, every block is expanded to 64 words and mixed into eight 32-bit words of state. The
  theorems about users of the hash need its length and the alphabet of its hexadecimal form.
\<close>

unbundle bit_operations_syntax

type_synonym u32 = "32 word"

section \<open>SHA-256\<close>

text \<open>
  The constants are fractional parts, cut to 32 bits, of cube roots of the first 64 primes and of
  square roots of the first eight. \<open>nthRoot\<close> finds the largest \<open>r\<close> with \<open>r ^ k \<le> n\<close> bit by bit.
\<close>

fun nthRoot :: "nat \<Rightarrow> nat \<Rightarrow> nat \<Rightarrow> nat \<Rightarrow> nat" where
  "nthRoot 0 k n r = r"
| "nthRoot (Suc b) k n r = nthRoot b k n (if (r + 2 ^ b) ^ k \<le> n then r + 2 ^ b else r)"

definition rootFraction :: "nat \<Rightarrow> nat \<Rightarrow> u32" where
  "rootFraction k p = word_of_nat (nthRoot 40 k (p * 2 ^ (32 * k)) 0)"

definition sha_primes :: "nat list" where
  "sha_primes = filter (\<lambda>n. list_all (\<lambda>d. n mod d \<noteq> 0) [2..<n]) [2..<312]"

definition sha_k :: "u32 list" where
  "sha_k = map (rootFraction 3) sha_primes"

datatype sha_state = Sha u32 u32 u32 u32 u32 u32 u32 u32

definition sha_init :: sha_state where
  "sha_init = (let f = rootFraction 2 in Sha (f 2) (f 3) (f 5) (f 7) (f 11) (f 13) (f 17) (f 19))"

definition rotate :: "nat \<Rightarrow> u32 \<Rightarrow> u32" where
  "rotate n w = (drop_bit n w) OR (push_bit (32 - n) w)"

text \<open>The message schedule: \<open>extend\<close> adds words computed from the last sixteen.\<close>

fun sha_extend :: "nat \<Rightarrow> u32 list \<Rightarrow> u32 list" where
  "sha_extend 0 w = w"
| "sha_extend (Suc n) w =
     (let i = length w; a = w ! (i - 15); b = w ! (i - 2);
          s0 = rotate 7 a XOR rotate 18 a XOR drop_bit 3 a;
          s1 = rotate 17 b XOR rotate 19 b XOR drop_bit 10 b
      in sha_extend n (w @ [w ! (i - 16) + s0 + w ! (i - 7) + s1]))"

fun sha_round :: "u32 \<times> u32 \<Rightarrow> sha_state \<Rightarrow> sha_state" where
  "sha_round (k, w) (Sha a b c d e f g h) =
     (let t1 = h + (rotate 6 e XOR rotate 11 e XOR rotate 25 e) + ((e AND f) XOR (NOT e AND g)) + k + w;
          t2 = (rotate 2 a XOR rotate 13 a XOR rotate 22 a) + ((a AND b) XOR (a AND c) XOR (b AND c))
      in Sha (t1 + t2) a b c (d + t1) e f g)"

fun sha_add :: "sha_state \<Rightarrow> sha_state \<Rightarrow> sha_state" where
  "sha_add (Sha a b c d e f g h) (Sha a' b' c' d' e' f' g' h') =
     Sha (a + a') (b + b') (c + c') (d + d') (e + e') (f + f') (g + g') (h + h')"

fun be_words :: "byte list \<Rightarrow> u32 list" where
  "be_words (a # b # c # d # rest) =
     (push_bit 24 (ucast a) OR push_bit 16 (ucast b) OR push_bit 8 (ucast c) OR ucast d) # be_words rest"
| "be_words _ = []"

definition sha_block :: "byte list \<Rightarrow> sha_state \<Rightarrow> sha_state" where
  "sha_block block s = sha_add s (fold sha_round (zip sha_k (sha_extend 48 (be_words block))) s)"

fun sha_blocks :: "nat \<Rightarrow> byte list \<Rightarrow> sha_state \<Rightarrow> sha_state" where
  "sha_blocks 0 m s = s"
| "sha_blocks (Suc n) m s = sha_blocks n (drop 64 m) (sha_block (take 64 m) s)"

definition be_bytes :: "nat \<Rightarrow> nat \<Rightarrow> byte list" where
  "be_bytes n x = map (\<lambda>i. word_of_nat (x div 256 ^ (n - Suc i))) [0..<n]"

definition sha_pad :: "byte list \<Rightarrow> byte list" where
  "sha_pad m =
     (let n = length m
      in m @ 0x80 # replicate ((119 - n mod 64) mod 64) 0 @ be_bytes 8 (8 * n))"

fun sha_digest :: "sha_state \<Rightarrow> byte list" where
  "sha_digest (Sha a b c d e f g h) =
     concat (map (\<lambda>w. be_bytes 4 (unat w)) [a, b, c, d, e, f, g, h])"

definition Sum256 :: "byte list \<Rightarrow> byte list" where
  "Sum256 m =
     (let p = sha_pad m in sha_digest (sha_blocks (length p div 64) p sha_init))"

section \<open>Bytes and strings\<close>

definition bytesOf :: "string \<Rightarrow> byte list" where
  "bytesOf s = map of_char s"

definition stringOf :: "byte list \<Rightarrow> string" where
  "stringOf bs = map (\<lambda>b. char_of (unat b)) bs"

definition hexDigits :: string where
  "hexDigits = ''0123456789abcdef''"

definition hex_EncodeToString :: "byte list \<Rightarrow> string" where
  "hex_EncodeToString bs =
     concat (map (\<lambda>b. [hexDigits ! (unat b div 16), hexDigits ! (unat b mod 16)]) bs)"

section \<open>HMAC\<close>

text \<open>A key longer than a block is hashed first, as in \<^verbatim>\<open>hmac.New\<close>.\<close>

definition hmac_key :: "byte list \<Rightarrow> byte list" where
  "hmac_key key =
     (let k = (if length key > 64 then Sum256 key else key) in k @ replicate (64 - length k) 0)"

definition hmac_sha256 :: "byte list \<Rightarrow> byte list \<Rightarrow> byte list" where
  "hmac_sha256 key m =
     Sum256 (map (\<lambda>b. b XOR 0x5c) (hmac_key key) @
             Sum256 (map (\<lambda>b. b XOR 0x36) (hmac_key key) @ m))"

section \<open>Lengths and alphabets\<close>

lemma length_be_bytes [simp]: "length (be_bytes n x) = n"
  by (simp add: be_bytes_def)

lemma length_Sum256 [simp]: "length (Sum256 m) = 32"
  by (cases "sha_blocks (length (sha_pad m) div 64) (sha_pad m) sha_init") (simp add: Sum256_def Let_def)

lemma length_hmac_sha256 [simp]: "length (hmac_sha256 key m) = 32"
  by (simp add: hmac_sha256_def)

lemma sha_pad_blocks: "length (sha_pad m) mod 64 = 0"
proof -
  obtain q r where m: "length m = 64 * q + r" and r: "r < 64"
    by (metis mod_less_divisor mult_div_mod_eq zero_less_numeral)
  have "length (sha_pad m) = 64 * q + (r + 9 + (119 - r) mod 64)"
    using m r by (simp add: sha_pad_def Let_def)
  moreover have "(r + 9 + (119 - r) mod 64) mod 64 = (r + 9 + (119 - r)) mod 64"
    by (simp only: mod_add_right_eq)
  ultimately show ?thesis using r by simp
qed

lemma length_hex [simp]: "length (hex_EncodeToString bs) = 2 * length bs"
  by (induction bs) (simp_all add: hex_EncodeToString_def)

lemma set_hex: "set (hex_EncodeToString bs) \<subseteq> set hexDigits"
proof -
  have "hexDigits ! (unat b div 16) \<in> set hexDigits" "hexDigits ! (unat b mod 16) \<in> set hexDigits" for b :: byte
  proof -
    have "unat b < 256" by (rule order_less_le_trans [OF unsigned_less]) simp
    then have "unat b div 16 < length hexDigits" "unat b mod 16 < length hexDigits"
      by (simp_all add: hexDigits_def)
    then show "hexDigits ! (unat b div 16) \<in> set hexDigits" "hexDigits ! (unat b mod 16) \<in> set hexDigits"
      by simp_all
  qed
  then show ?thesis by (auto simp: hex_EncodeToString_def)
qed

end
