(* ===== verification/Card_History.thy ===== *)
theory Card_History
  imports Telegram_State Crypto
begin

text \<open>
  The history of a card: packages \<^verbatim>\<open>src/internal/telegramhistory\<close> (append and ordered insert),
  \<^verbatim>\<open>telegramhistorylimit\<close> (eviction that keeps prompt anchors), \<^verbatim>\<open>cardeventhistory\<close> (events with an
  identity) and \<^verbatim>\<open>cardhistory\<close> (recovered final answers and the projection to blocks). A history
  has 512 entries at most, with three optional metadata columns of the same length. A run-time
  panic is the error \<open>panic\<close>.
\<close>

definition maxEntries :: nat where
  "maxEntries = 512"

definition panic :: string where
  "panic = ''panic: slice bounds out of range''"

definition ErrPromptAnchorUnavailable :: string where
  "ErrPromptAnchorUnavailable = ''prompt history anchor unavailable''"

text \<open>\<^verbatim>\<open>make([]string, n)\<close> and \<^verbatim>\<open>append(xs, x)\<close>.\<close>

definition makeStrings :: "nat \<Rightarrow> string slice" where
  "makeStrings n = Some (replicate n [])"

definition push :: "'a \<Rightarrow> 'a slice \<Rightarrow> 'a slice" where
  "push x xs = Some (elems xs @ [x])"

lemma elems_makeStrings [simp]: "elems (makeStrings n) = replicate n []"
  by (simp add: makeStrings_def)

lemma elems_push [simp]: "elems (push x xs) = elems xs @ [x]"
  by (simp add: push_def)

text \<open>A change of a column that has entries; an empty column stays as it is.\<close>

definition onColumn :: "('a slice \<Rightarrow> string + 'a slice) \<Rightarrow> 'a slice \<Rightarrow> string + 'a slice" where
  "onColumn f xs = (if elems xs \<noteq> [] then f xs else Inr xs)"

section \<open>Append\<close>

text \<open>\<^verbatim>\<open>append([]string(nil), xs[len(xs)-(maxEntries-1):]...)\<close>\<close>

definition keepLatest :: "string slice \<Rightarrow> string + string slice" where
  "keepLatest xs =
     (if length (elems xs) < maxEntries - 1 then Inl panic
      else Inr (Some (drop (length (elems xs) - (maxEntries - 1)) (elems xs))))"

definition evictOldest :: "Card \<Rightarrow> string + Card" where
  "evictOldest c =
     (if length (elems (c_History c)) \<ge> maxEntries then
        bindE (keepLatest (c_History c)) (\<lambda>history.
        bindE (onColumn keepLatest (c_HistoryKeys c)) (\<lambda>keys.
        bindE (onColumn keepLatest (c_HistoryKinds c)) (\<lambda>kinds.
        bindE (onColumn keepLatest (c_HistoryTurnKeys c)) (\<lambda>turns.
        Inr (c\<lparr>c_History := history, c_HistoryKeys := keys, c_HistoryKinds := kinds,
               c_HistoryTurnKeys := turns\<rparr>)))))
      else Inr c)"

definition history_Append :: "string \<Rightarrow> string \<Rightarrow> Card \<Rightarrow> string + Card" where
  "history_Append item kind c =
     bindE (evictOldest c) (\<lambda>c.
     let kinds = (if kind \<noteq> [] \<and> elems (c_HistoryKinds c) = []
                  then makeStrings (length (elems (c_History c))) else c_HistoryKinds c)
     in Inr (c\<lparr>c_History := push item (c_History c),
               c_HistoryKeys := (if elems (c_HistoryKeys c) \<noteq> []
                                 then push [] (c_HistoryKeys c) else c_HistoryKeys c),
               c_HistoryKinds := (if elems kinds \<noteq> [] then push kind kinds else kinds),
               c_HistoryTurnKeys := (if elems (c_HistoryTurnKeys c) \<noteq> []
                                     then push [] (c_HistoryTurnKeys c) else c_HistoryTurnKeys c)\<rparr>))"

section \<open>Ordered insert\<close>

fun lastIndexOf :: "('a \<Rightarrow> bool) \<Rightarrow> 'a list \<Rightarrow> nat option" where
  "lastIndexOf P [] = None"
| "lastIndexOf P (x # xs) =
     (case lastIndexOf P xs of
        Some i \<Rightarrow> Some (Suc i)
      | None \<Rightarrow> if P x then Some 0 else None)"

text \<open>
  \<^verbatim>\<open>xs = append(xs, ""); copy(xs[at+1:], xs[at:]); xs[at] = x\<close>
\<close>

definition insertAt :: "nat \<Rightarrow> 'a \<Rightarrow> 'a slice \<Rightarrow> string + 'a slice" where
  "insertAt at x xs =
     (if length (elems xs) < at then Inl panic
      else Inr (Some (take at (elems xs) @ x # drop at (elems xs))))"

definition promptIndex :: "Card \<Rightarrow> string \<Rightarrow> nat option" where
  "promptIndex c promptID =
     (case lastIndexOf (\<lambda>key. key = promptID) (elems (c_HistoryTurnKeys c)) of
        Some index \<Rightarrow> Some index
      | None \<Rightarrow> lastIndexOf (\<lambda>key. key = promptID) (elems (c_HistoryKeys c)))"

definition history_InsertAfterPrompt :: "string \<Rightarrow> string \<Rightarrow> string \<Rightarrow> Card \<Rightarrow> string + Card" where
  "history_InsertAfterPrompt promptID item kind c =
     (case promptIndex c promptID of
        None \<Rightarrow> Inl ErrPromptAnchorUnavailable
      | Some index \<Rightarrow>
          let at = Suc index; n = length (elems (c_History c)) in
          bindE (insertAt at item (c_History c)) (\<lambda>history.
          bindE (onColumn (insertAt at []) (c_HistoryKeys c)) (\<lambda>keys.
          bindE (if elems (c_HistoryKinds c) \<noteq> [] \<or> kind \<noteq> []
                 then insertAt at kind
                        (if elems (c_HistoryKinds c) = [] then makeStrings n else c_HistoryKinds c)
                 else Inr (c_HistoryKinds c)) (\<lambda>kinds.
          bindE (if elems (c_HistoryTurnKeys c) \<noteq> [] \<or> promptID \<noteq> []
                 then insertAt at promptID
                        (if elems (c_HistoryTurnKeys c) = [] then makeStrings n
                         else c_HistoryTurnKeys c)
                 else Inr (c_HistoryTurnKeys c)) (\<lambda>turns.
          Inr (c\<lparr>c_History := history, c_HistoryKeys := keys, c_HistoryKinds := kinds,
                 c_HistoryTurnKeys := turns\<rparr>))))))"

section \<open>Bounded insert\<close>

definition anchorIndex :: "Card \<Rightarrow> string \<Rightarrow> nat option" where
  "anchorIndex c promptID =
     (case indexOf (\<lambda>key. key = promptID) (elems (c_HistoryKeys c)) of
        Some index \<Rightarrow> Some index
      | None \<Rightarrow> lastIndexOf (\<lambda>turn. turn = promptID) (elems (c_HistoryTurnKeys c)))"

definition pendingFinal :: "Card \<Rightarrow> string \<Rightarrow> bool" where
  "pendingFinal c turn \<longleftrightarrow>
     list_ex (\<lambda>operation. turn \<noteq> [] \<and> operation = turn @ '':final'') (elems (c_PendingFinalOperations c))"

definition valueAt :: "string slice \<Rightarrow> nat \<Rightarrow> string" where
  "valueAt values index = (if length (elems values) \<le> index then [] else elems values ! index)"

definition removeAt :: "nat \<Rightarrow> 'a slice \<Rightarrow> string + 'a slice" where
  "removeAt index values =
     (if length (elems values) \<le> index then Inl panic
      else Inr (Some (take index (elems values) @ drop (Suc index) (elems values))))"

text \<open>The three classes of entries that may be evicted, in the order they are given up.\<close>

datatype evictable = OtherTurn | OldPrompt | CurrentTurn | Retained

definition evictClass :: "Card \<Rightarrow> string \<Rightarrow> nat \<Rightarrow> nat \<Rightarrow> evictable" where
  "evictClass c promptID anchorAt index =
     (let key = valueAt (c_HistoryKeys c) index;
          kind = valueAt (c_HistoryKinds c) index;
          turn = valueAt (c_HistoryTurnKeys c) index in
      if kind = ''prompt'' \<or> key \<noteq> [] \<and> turn = [] then
        (if index < anchorAt \<and> key \<noteq> promptID \<and> \<not> pendingFinal c key then OldPrompt else Retained)
      else if kind = ''final'' \<and> pendingFinal c turn then Retained
      else if key = promptID \<or> turn = promptID then
        (if index \<noteq> anchorAt then CurrentTurn else Retained)
      else OtherTurn)"

definition evictionCandidates :: "Card \<Rightarrow> string \<Rightarrow> nat \<Rightarrow> nat list" where
  "evictionCandidates c promptID anchorAt =
     (let indexes = [0..<length (elems (c_History c))];
          class = (\<lambda>k. filter (\<lambda>index. evictClass c promptID anchorAt index = k) indexes) in
      class OtherTurn @ class OldPrompt @ class CurrentTurn)"

definition removeEntry :: "nat \<Rightarrow> Card \<Rightarrow> string + Card" where
  "removeEntry index c =
     bindE (removeAt index (c_History c)) (\<lambda>history.
     bindE (onColumn (removeAt index) (c_HistoryKeys c)) (\<lambda>keys.
     bindE (onColumn (removeAt index) (c_HistoryKinds c)) (\<lambda>kinds.
     bindE (onColumn (removeAt index) (c_HistoryTurnKeys c)) (\<lambda>turns.
     Inr (c\<lparr>c_History := history, c_HistoryKeys := keys, c_HistoryKinds := kinds,
            c_HistoryTurnKeys := turns\<rparr>)))))"

fun removeEntries :: "nat list \<Rightarrow> Card \<Rightarrow> string + Card" where
  "removeEntries [] c = Inr c"
| "removeEntries (index # rest) c = bindE (removeEntry index c) (removeEntries rest)"

definition misaligned :: "Card \<Rightarrow> string slice \<Rightarrow> bool" where
  "misaligned c metadata \<longleftrightarrow>
     elems metadata \<noteq> [] \<and> length (elems metadata) \<noteq> length (elems (c_History c))"

definition EnsureRoomAfterPrompt :: "string \<Rightarrow> nat \<Rightarrow> Card \<Rightarrow> string + Card" where
  "EnsureRoomAfterPrompt promptID count c =
     bindE (failIf (elems (c_History c) = []) ''history is unavailable'') (\<lambda>_.
     bindE (failIf (count < 1 \<or> count > maxEntries \<or> length (elems (c_History c)) > maxEntries)
              ''invalid history capacity request'') (\<lambda>_.
     bindE (failIf (list_ex (misaligned c) [c_HistoryKeys c, c_HistoryKinds c, c_HistoryTurnKeys c])
              ''history metadata is not aligned'') (\<lambda>_.
     case anchorIndex c promptID of
       None \<Rightarrow> Inl ErrPromptAnchorUnavailable
     | Some anchorAt \<Rightarrow>
         if length (elems (c_History c)) + count \<le> maxEntries then Inr c
         else
           let need = length (elems (c_History c)) + count - maxEntries;
               candidates = evictionCandidates c promptID anchorAt in
           bindE (failIf (length candidates < need) ''history has too few evictable entries'') (\<lambda>_.
           removeEntries (rev (sort (take need candidates))) c))))"

definition limit_InsertAfterPrompt :: "string \<Rightarrow> string \<Rightarrow> string \<Rightarrow> Card \<Rightarrow> string + Card" where
  "limit_InsertAfterPrompt promptID item kind c =
     bindE (EnsureRoomAfterPrompt promptID 1 c) (history_InsertAfterPrompt promptID item kind)"

section \<open>Events with an identity\<close>

definition eventKey :: "string \<Rightarrow> string \<Rightarrow> string" where
  "eventKey promptID eventID =
     ''runtime-event:'' @
     hex_EncodeToString (Sum256 (bytesOf (promptID @ CHR 0x00 # eventID)))"

definition InsertRuntimeEvent :: "string \<Rightarrow> string \<Rightarrow> string \<Rightarrow> string \<Rightarrow> Card \<Rightarrow> string + Card" where
  "InsertRuntimeEvent promptID eventID item kind c =
     bindE (failIf (promptID = [] \<or> eventID = [] \<or> len eventID > 512 \<or> \<not> ValidString eventID \<or>
                    item = [] \<or>
                    kind \<notin> {''commentary'', ''tool'', ''question'', ''thinking''})
              ''invalid runtime event identity'') (\<lambda>_.
     let key = eventKey promptID eventID in
     case indexOf (\<lambda>prior. prior = key) (elems (c_HistoryKeys c)) of
       Some index \<Rightarrow>
         if length (elems (c_History c)) \<le> index then Inl panic
         else if elems (c_History c) ! index \<noteq> item \<or>
            length (elems (c_HistoryKinds c)) \<le> index \<or> elems (c_HistoryKinds c) ! index \<noteq> kind \<or>
            length (elems (c_HistoryTurnKeys c)) \<le> index \<or>
            elems (c_HistoryTurnKeys c) ! index \<noteq> promptID
         then Inl ''runtime event identity conflicts with retained history''
         else Inr c
     | None \<Rightarrow>
         bindE (limit_InsertAfterPrompt promptID item kind c) (\<lambda>c.
         let keys = (if elems (c_HistoryKeys c) = []
                     then makeStrings (length (elems (c_History c))) else c_HistoryKeys c) in
         case lastIndexOf (\<lambda>turn. turn = promptID) (elems (c_HistoryTurnKeys c)) of
           None \<Rightarrow> Inl panic
         | Some index \<Rightarrow>
             if length (elems keys) \<le> index then Inl panic
             else Inr (c\<lparr>c_HistoryKeys := Some ((elems keys)[index := key])\<rparr>)))"

section \<open>Recovered final answers\<close>

datatype final_error =
    ErrFinalInvalid | ErrFinalConflict | ErrFinalCapacity | ErrFinalAnchor | FinalPanic

text \<open>
  The loop that cuts an answer into entries. The inner loop shrinks a piece until it is valid
  UTF-8; the outer loop need not end on an invalid answer, so it is a partial function.
\<close>

fun validSize :: "string \<Rightarrow> nat \<Rightarrow> nat" where
  "validSize text 0 = 0"
| "validSize text (Suc n) =
     (if ValidString (take (Suc n) text) then Suc n else validSize text n)"

partial_function (option) splitFinal :: "string \<Rightarrow> string list option" where
  "splitFinal text =
     (if text = [] then Some []
      else
        let cut = validSize text (min (length text) 16384) in
        Option.bind (splitFinal (drop cut text)) (\<lambda>parts. Some (take cut text # parts)))"

definition finalIndexes :: "Card \<Rightarrow> string \<Rightarrow> nat list" where
  "finalIndexes c messageID =
     filter (\<lambda>i. elems (c_HistoryTurnKeys c) ! i = messageID \<and>
                  i < length (elems (c_HistoryKinds c)) \<and> elems (c_HistoryKinds c) ! i = ''final'')
       [0..<length (elems (c_HistoryTurnKeys c))]"

definition existingFinal :: "Card \<Rightarrow> string \<Rightarrow> string" where
  "existingFinal c messageID = concat (map (\<lambda>i. elems (c_History c) ! i) (finalIndexes c messageID))"

fun insertFinals :: "string \<Rightarrow> string list \<Rightarrow> Card \<Rightarrow> string + Card" where
  "insertFinals messageID [] c = Inr c"
| "insertFinals messageID (part # parts) c =
     bindE (history_InsertAfterPrompt messageID part ''final'' c) (insertFinals messageID parts)"

definition RestoreFinal :: "string \<Rightarrow> string \<Rightarrow> Card \<Rightarrow> (final_error + Card) option" where
  "RestoreFinal messageID final c =
     (if messageID = [] \<or> TrimSpace messageID \<noteq> messageID \<or> len messageID > 1024 \<or>
         \<not> ValidString messageID \<or> final = [] \<or> \<not> ValidString final \<or> len final > 32768
      then Some (Inl ErrFinalInvalid)
      else if list_ex (\<lambda>i. length (elems (c_History c)) \<le> i) (finalIndexes c messageID)
      then Some (Inl FinalPanic)
      else if existingFinal c messageID \<noteq> [] then
        Some (if existingFinal c messageID = final then Inr c else Inl ErrFinalConflict)
      else
        let operation = messageID @ '':final'';
            alreadyPending = operation \<in> set (elems (c_PendingFinalOperations c)) in
        if \<not> alreadyPending \<and> length (elems (c_PendingFinalOperations c)) \<ge> 512
        then Some (Inl ErrFinalCapacity)
        else
          case splitFinal final of
            None \<Rightarrow> None
          | Some parts \<Rightarrow>
              Some (case EnsureRoomAfterPrompt messageID (length parts) c of
                 Inl e \<Rightarrow> Inl (if e = ErrPromptAnchorUnavailable then ErrFinalAnchor
                               else ErrFinalCapacity)
               | Inr c \<Rightarrow>
                   (case insertFinals messageID parts c of
                      Inl _ \<Rightarrow> Inl ErrFinalAnchor
                    | Inr c \<Rightarrow>
                        Inr (if alreadyPending then c
                             else c\<lparr>c_PendingFinalOperations :=
                                      push operation (PendingFinalsAfter c [])\<rparr>))))"

section \<open>Projection\<close>

record Block =
  bl_Kind :: string
  bl_Text :: string
  bl_FinalContinuation :: bool
  bl_FinalOperationID :: string
  bl_CommandLines :: int
  bl_ToolLines :: int

definition legacyNotice :: string where
  "legacyNotice = map char_of
     [0xD0::nat, 0xA1, 0xD0, 0xB2, 0xD1, 0x8F, 0xD0, 0xB7, 0xD1, 0x8C, 0x20, 0xD1, 0x81, 0x20, 0x43,
      0x4C, 0x49, 0x20, 0xD0, 0xBF, 0xD1, 0x80, 0xD0, 0xB5, 0xD1, 0x80, 0xD0, 0xB2, 0xD0, 0xB0, 0xD0,
      0xBB, 0xD0, 0xB0, 0xD1, 0x81, 0xD1, 0x8C, 0x2E, 0x20, 0xD0, 0x98, 0xD1, 0x81, 0xD1, 0x85, 0xD0,
      0xBE, 0xD0, 0xB4, 0x20, 0xD0, 0xB7, 0xD0, 0xB0, 0xD0, 0xBF, 0xD1, 0x80, 0xD0, 0xBE, 0xD1, 0x81,
      0xD0, 0xB0, 0x20, 0xD0, 0xBF, 0xD0, 0xBE, 0xD0, 0xBA, 0xD0, 0xB0, 0x20, 0xD0, 0xBD, 0xD0, 0xB5,
      0x20, 0xD0, 0xBF, 0xD0, 0xBE, 0xD0, 0xB4, 0xD1, 0x82, 0xD0, 0xB2, 0xD0, 0xB5, 0xD1, 0x80, 0xD0,
      0xB6, 0xD0, 0xB4, 0xD1, 0x91, 0xD0, 0xBD, 0x2E]"

definition blockKind :: "Card \<Rightarrow> nat \<Rightarrow> string" where
  "blockKind c index =
     (let kind = valueAt (c_HistoryKinds c) index in
      if kind = [] \<and> valueAt (c_HistoryKeys c) index \<noteq> [] then ''prompt'' else kind)"

definition blockAt :: "Card \<Rightarrow> nat \<Rightarrow> Block" where
  "blockAt c index =
     (let kind = blockKind c index; turn = valueAt (c_HistoryTurnKeys c) index in
      \<lparr>bl_Kind = kind, bl_Text = elems (c_History c) ! index,
       bl_FinalContinuation =
         kind = ''final'' \<and> index > 0 \<and> turn \<noteq> [] \<and>
         turn = elems (c_HistoryTurnKeys c) ! (index - 1) \<and>
         valueAt (c_HistoryKinds c) (index - 1) = ''final'' \<and>
         \<not> blank (elems (c_History c) ! (index - 1)),
       bl_FinalOperationID = (if kind = ''final'' \<and> turn \<noteq> [] then turn @ '':final'' else []),
       bl_CommandLines = 0, bl_ToolLines = 0\<rparr>)"

definition Blocks :: "Card \<Rightarrow> bool \<Rightarrow> Block list" where
  "Blocks c showTechnical =
     map (blockAt c)
       (filter (\<lambda>index.
           let kind = blockKind c index in
           \<not> (kind = [] \<and> elems (c_History c) ! index = legacyNotice) \<and>
           \<not> (kind = ''tool'' \<and> \<not> showTechnical))
         [0..<length (elems (c_History c))])"

end
