(* ===== verification/Card_Rows.thy ===== *)
theory Card_Rows
  imports Card_History "HOL-Library.Sublist"
begin

text \<open>
  The history of a card as rows. The code keeps four columns, of which three may be absent; a row
  is the item with its key, kind and turn. On a card with aligned columns the operations on the
  columns are operations on the list of rows, and they never leave the bounds of a slice.
\<close>

section \<open>Columns\<close>

type_synonym row = "string \<times> string \<times> string \<times> string"

definition column :: "string slice \<Rightarrow> nat \<Rightarrow> string list" where
  "column xs n = (if elems xs = [] then replicate n [] else elems xs)"

definition rows :: "Card \<Rightarrow> row list" where
  "rows c =
     (let n = length (elems (c_History c)) in
      zip (elems (c_History c)) (zip (column (c_HistoryKeys c) n)
        (zip (column (c_HistoryKinds c) n) (column (c_HistoryTurnKeys c) n))))"

definition aligned :: "Card \<Rightarrow> bool" where
  "aligned c \<longleftrightarrow>
     column_ok (c_HistoryKeys c) (length (elems (c_History c))) \<and>
     column_ok (c_HistoryKinds c) (length (elems (c_History c))) \<and>
     column_ok (c_HistoryTurnKeys c) (length (elems (c_History c)))"

abbreviation row_item :: "row \<Rightarrow> string" where "row_item r \<equiv> fst r"
abbreviation row_key :: "row \<Rightarrow> string" where "row_key r \<equiv> fst (snd r)"
abbreviation row_kind :: "row \<Rightarrow> string" where "row_kind r \<equiv> fst (snd (snd r))"
abbreviation row_turn :: "row \<Rightarrow> string" where "row_turn r \<equiv> snd (snd (snd r))"

lemma length_column [simp]: "column_ok xs n \<Longrightarrow> length (column xs n) = n"
  by (auto simp: column_ok_def column_def)

lemma length_rows [simp]: "aligned c \<Longrightarrow> length (rows c) = length (elems (c_History c))"
  by (simp add: aligned_def rows_def Let_def)

lemma valueAt_column: "column_ok xs n \<Longrightarrow> i < n \<Longrightarrow> valueAt xs i = column xs n ! i"
  by (auto simp: column_ok_def column_def valueAt_def)

lemma rows_nth:
  assumes "aligned c" and "i < length (elems (c_History c))"
  shows "rows c ! i = (elems (c_History c) ! i, valueAt (c_HistoryKeys c) i,
                       valueAt (c_HistoryKinds c) i, valueAt (c_HistoryTurnKeys c) i)"
  using assms by (simp add: aligned_def rows_def Let_def valueAt_column [where n = "length (elems (c_History c))"])

lemma history_ok_aligned: "history_ok c \<Longrightarrow> aligned c"
  by (simp add: history_ok_def aligned_def)

text \<open>The validity of a history, as a property of its rows.\<close>

definition rows_ok :: "row list \<Rightarrow> bool" where
  "rows_ok rs \<longleftrightarrow>
     length rs \<le> 512 \<and> distinct (filter (\<lambda>k. k \<noteq> []) (map row_key rs)) \<and>
     (\<forall>r\<in>set rs. historyItem_ok (row_item r) \<and> (row_key r \<noteq> [] \<longrightarrow> historyKey_ok (row_key r)) \<and>
        row_kind r \<in> set historyKinds)"

lemma zip4_maps:
  assumes "length ks = length xs" "length ds = length xs" "length ts = length xs"
  shows "map row_item (zip xs (zip ks (zip ds ts))) = xs"
    "map row_key (zip xs (zip ks (zip ds ts))) = ks"
    "map row_kind (zip xs (zip ks (zip ds ts))) = ds"
    "map row_turn (zip xs (zip ks (zip ds ts))) = ts"
  using assms
  by (simp_all add: comp_def flip: map_map [of fst snd, unfolded comp_def]
      map_map [of fst "\<lambda>r. snd (snd r)", unfolded comp_def] map_map [of snd "\<lambda>r. snd (snd r)", unfolded comp_def]
      map_map [of snd snd, unfolded comp_def])

lemma rows_maps:
  assumes "aligned c"
  shows "map row_item (rows c) = elems (c_History c)"
    "map row_key (rows c) = column (c_HistoryKeys c) (length (elems (c_History c)))"
    "map row_kind (rows c) = column (c_HistoryKinds c) (length (elems (c_History c)))"
    "map row_turn (rows c) = column (c_HistoryTurnKeys c) (length (elems (c_History c)))"
  using assms zip4_maps by (simp_all add: rows_def aligned_def Let_def)

lemma column_set: "set (column xs n) \<subseteq> insert [] (set (elems xs))"
  by (auto simp: column_def)

lemma column_filter: "filter (\<lambda>k. k \<noteq> []) (column xs n) = filter (\<lambda>k. k \<noteq> []) (elems xs)"
  by (simp add: column_def)

lemma ball_rows:
  assumes "aligned c"
  shows "(\<forall>r\<in>set (rows c). P (row_item r)) \<longleftrightarrow> (\<forall>x\<in>set (elems (c_History c)). P x)"
    "(\<forall>r\<in>set (rows c). P (row_key r)) \<longleftrightarrow>
       (\<forall>x\<in>set (column (c_HistoryKeys c) (length (elems (c_History c)))). P x)"
    "(\<forall>r\<in>set (rows c). P (row_kind r)) \<longleftrightarrow>
       (\<forall>x\<in>set (column (c_HistoryKinds c) (length (elems (c_History c)))). P x)"
  using arg_cong [OF rows_maps(1) [OF assms], of "\<lambda>xs. \<forall>x\<in>set xs. P x"]
    arg_cong [OF rows_maps(2) [OF assms], of "\<lambda>xs. \<forall>x\<in>set xs. P x"]
    arg_cong [OF rows_maps(3) [OF assms], of "\<lambda>xs. \<forall>x\<in>set xs. P x"]
  by simp_all

lemma column_ball:
  assumes "column_ok xs n" and "P []"
  shows "(\<forall>x\<in>set (column xs n). P x) \<longleftrightarrow> (\<forall>x\<in>set (elems xs). P x)"
  using assms by (auto simp: column_def)

lemma history_ok_rows: "history_ok c \<longleftrightarrow> aligned c \<and> rows_ok (rows c)"
proof (cases "aligned c")
  case True
  note al = True
  have ok: "column_ok (c_HistoryKeys c) (length (elems (c_History c)))"
    "column_ok (c_HistoryKinds c) (length (elems (c_History c)))"
    using al by (simp_all add: aligned_def)
  have "rows_ok (rows c) \<longleftrightarrow> length (elems (c_History c)) \<le> 512 \<and>
      distinct (filter (\<lambda>x. x \<noteq> []) (elems (c_HistoryKeys c))) \<and>
      (\<forall>x\<in>set (elems (c_History c)). historyItem_ok x) \<and>
      (\<forall>x\<in>set (elems (c_HistoryKeys c)). x \<noteq> [] \<longrightarrow> historyKey_ok x) \<and>
      (\<forall>x\<in>set (elems (c_HistoryKinds c)). x \<in> set historyKinds)"
    unfolding rows_ok_def ball_conj_distrib ball_rows [OF al, where P = historyItem_ok]
      ball_rows(2) [OF al, where P = "\<lambda>k. k \<noteq> [] \<longrightarrow> historyKey_ok k"]
      ball_rows(3) [OF al, where P = "\<lambda>k. k \<in> set historyKinds"]
    using column_ball [OF ok(1), of "\<lambda>k. k \<noteq> [] \<longrightarrow> historyKey_ok k"]
      column_ball [OF ok(2), of "\<lambda>k. k \<in> set historyKinds"]
    by (simp add: al rows_maps column_filter historyKinds_def)
  then show ?thesis using al by (auto simp: history_ok_def aligned_def)
next
  case False
  then show ?thesis by (auto simp: history_ok_def aligned_def)
qed

section \<open>Append\<close>

lemma keepLatest_column:
  assumes "column_ok xs n" and "511 \<le> n"
  shows "\<exists>ys. onColumn keepLatest xs = Inr ys \<and> column_ok ys 511 \<and>
           column ys 511 = drop (n - 511) (column xs n)"
  using assms
  by (auto simp: onColumn_def keepLatest_def column_ok_def column_def maxEntries_def)

lemma push_column:
  assumes "column_ok xs n"
  defines "ys \<equiv> (if elems xs \<noteq> [] then push [] xs else xs)"
  shows "column_ok ys (Suc n)" "column ys (Suc n) = column xs n @ [[]]"
  using assms by (auto simp: column_ok_def column_def replicate_append_same)

lemma push_kinds:
  fixes kind :: string
  assumes "column_ok xs n"
  defines "zs \<equiv> (if kind \<noteq> [] \<and> elems xs = [] then makeStrings n else xs)"
  defines "ys \<equiv> (if elems zs \<noteq> [] then push kind zs else zs)"
  shows "column_ok ys (Suc n)" "column ys (Suc n) = column xs n @ [if n = 0 then [] else kind]"
  using assms by (auto simp: column_ok_def column_def replicate_append_same)

lemma evictOldest_rows:
  assumes "aligned c"
  shows "\<exists>d. evictOldest c = Inr d \<and> aligned d \<and>
           rows d = (if length (rows c) \<ge> 512 then drop (length (rows c) - 511) (rows c) else rows c) \<and>
           c_PendingFinalOperations d = c_PendingFinalOperations c \<and> c_SessionID d = c_SessionID c"
proof (cases "512 \<le> length (elems (c_History c))")
  case True
  define n where "n = length (elems (c_History c))"
  have n: "511 \<le> n" "512 \<le> n" using True by (simp_all add: n_def)
  have al: "column_ok (c_HistoryKeys c) n" "column_ok (c_HistoryKinds c) n" "column_ok (c_HistoryTurnKeys c) n"
    using assms by (simp_all add: aligned_def n_def)
  obtain ks where ks: "onColumn keepLatest (c_HistoryKeys c) = Inr ks" "column_ok ks 511"
    "column ks 511 = drop (n - 511) (column (c_HistoryKeys c) n)"
    using keepLatest_column [OF al(1) n(1)] by blast
  obtain ds where ds: "onColumn keepLatest (c_HistoryKinds c) = Inr ds" "column_ok ds 511"
    "column ds 511 = drop (n - 511) (column (c_HistoryKinds c) n)"
    using keepLatest_column [OF al(2) n(1)] by blast
  obtain ts where ts: "onColumn keepLatest (c_HistoryTurnKeys c) = Inr ts" "column_ok ts 511"
    "column ts 511 = drop (n - 511) (column (c_HistoryTurnKeys c) n)"
    using keepLatest_column [OF al(3) n(1)] by blast
  have h: "keepLatest (c_History c) = Inr (Some (drop (n - 511) (elems (c_History c))))"
    using n by (simp add: keepLatest_def maxEntries_def flip: n_def)
  have len: "length (drop (n - 511) (elems (c_History c))) = 511"
    using n by (simp add: n_def)
  define d where "d = c\<lparr>c_History := Some (drop (n - 511) (elems (c_History c))), c_HistoryKeys := ks,
    c_HistoryKinds := ds, c_HistoryTurnKeys := ts\<rparr>"
  have "evictOldest c = Inr d"
    using n ks(1) ds(1) ts(1) h by (simp add: evictOldest_def d_def maxEntries_def flip: n_def)
  moreover have "aligned d" using ks(2) ds(2) ts(2) len by (simp add: aligned_def d_def)
  moreover have "rows d = drop (n - 511) (rows c)"
    using ks(3) ds(3) ts(3) len by (simp add: rows_def Let_def d_def drop_zip flip: n_def)
  moreover have "length (rows c) = n" using assms by (simp add: n_def)
  ultimately show ?thesis using n by (intro exI [of _ d]) (simp add: d_def)
next
  case False
  then show ?thesis using assms by (simp add: evictOldest_def maxEntries_def)
qed

text \<open>
  Appending is appending a row; the kind of the very first row is lost.
\<close>

lemma history_Append_rows:
  assumes "aligned c"
  shows "\<exists>d. history_Append item kind c = Inr d \<and> aligned d \<and>
           rows d = (if length (rows c) \<ge> 512 then drop (length (rows c) - 511) (rows c) else rows c) @
                    [(item, [], if rows c = [] then [] else kind, [])] \<and>
           c_PendingFinalOperations d = c_PendingFinalOperations c \<and> c_SessionID d = c_SessionID c"
proof -
  from evictOldest_rows [OF assms] obtain e where e: "evictOldest c = Inr e" "aligned e"
    "rows e = (if length (rows c) \<ge> 512 then drop (length (rows c) - 511) (rows c) else rows c)"
    "c_PendingFinalOperations e = c_PendingFinalOperations c" "c_SessionID e = c_SessionID c"
    by blast
  define n where "n = length (elems (c_History e))"
  have al: "column_ok (c_HistoryKeys e) n" "column_ok (c_HistoryKinds e) n" "column_ok (c_HistoryTurnKeys e) n"
    using e(2) by (simp_all add: aligned_def n_def)
  note ks = push_column [OF al(1)] and ds = push_kinds [OF al(2), of kind] and ts = push_column [OF al(3)]
  from e(1) obtain d where d: "history_Append item kind c = Inr d"
    and dd: "d = e\<lparr>c_History := push item (c_History e),
      c_HistoryKeys := if elems (c_HistoryKeys e) \<noteq> [] then push [] (c_HistoryKeys e) else c_HistoryKeys e,
      c_HistoryKinds :=
        (let kinds = if kind \<noteq> [] \<and> elems (c_HistoryKinds e) = [] then makeStrings n else c_HistoryKinds e
         in if elems kinds \<noteq> [] then push kind kinds else kinds),
      c_HistoryTurnKeys := if elems (c_HistoryTurnKeys e) \<noteq> [] then push [] (c_HistoryTurnKeys e)
                           else c_HistoryTurnKeys e\<rparr>"
    by (simp add: history_Append_def n_def Let_def)
  have "aligned d" using ks(1) ds(1) ts(1) by (simp add: aligned_def dd Let_def flip: n_def)
  moreover have "rows d = rows e @ [(item, [], if n = 0 then [] else kind, [])]"
    using ks(2) ds(2) ts(2) al by (simp add: rows_def Let_def dd zip_append flip: n_def)
  moreover have "n = 0 \<longleftrightarrow> rows c = []"
    using e(2,3) length_rows [OF e(2)] by (auto simp: n_def split: if_splits)
  ultimately show ?thesis using d dd e(3-5) by simp
qed

section \<open>Insert\<close>

lemma insert_column:
  assumes "column_ok xs n" and "at \<le> n" and "0 < n"
  shows "\<exists>ys. onColumn (insertAt at []) xs = Inr ys \<and> column_ok ys (Suc n) \<and>
           column ys (Suc n) = take at (column xs n) @ [] # drop at (column xs n)"
proof (cases "elems xs = []")
  case True
  have "replicate (Suc n) [] = replicate at [] @ [] # replicate (n - at) []"
    using assms(2) by (simp add: replicate_app_Cons_same flip: replicate_add)
  then show ?thesis using True assms by (simp add: onColumn_def column_ok_def column_def)
next
  case False
  then show ?thesis using assms by (auto simp: onColumn_def insertAt_def column_ok_def column_def)
qed

lemma insert_value:
  assumes "column_ok xs n" and "at \<le> n" and "x \<noteq> []"
  shows "\<exists>ys. insertAt at x (if elems xs = [] then makeStrings n else xs) = Inr ys \<and>
           column_ok ys (Suc n) \<and> column ys (Suc n) = take at (column xs n) @ x # drop at (column xs n)"
  using assms by (auto simp: insertAt_def column_ok_def column_def)

lemma insert_kind:
  assumes "column_ok xs n" and "at \<le> n" and "0 < n"
  shows "\<exists>ys. (if elems xs \<noteq> [] \<or> x \<noteq> []
                then insertAt at x (if elems xs = [] then makeStrings n else xs) else Inr xs) = Inr ys \<and>
           column_ok ys (Suc n) \<and> column ys (Suc n) = take at (column xs n) @ x # drop at (column xs n)"
proof (cases "x = []")
  case True
  then show ?thesis
    using insert_column [OF assms] by (cases "elems xs = []") (auto simp: onColumn_def)
next
  case False
  then show ?thesis using insert_value [OF assms(1,2) False] by auto
qed

lemma lastIndexOf_None: "lastIndexOf P xs = None \<longleftrightarrow> (\<forall>x\<in>set xs. \<not> P x)"
  by (induction xs) (auto split: option.split)

lemma lastIndexOf_append:
  "lastIndexOf P (xs @ ys) =
     (case lastIndexOf P ys of Some i \<Rightarrow> Some (length xs + i) | None \<Rightarrow> lastIndexOf P xs)"
  by (induction xs) (auto split: option.splits)

lemma lastIndexOf_map: "lastIndexOf P (map f xs) = lastIndexOf (\<lambda>x. P (f x)) xs"
  by (induction xs) simp_all

lemma indexOf_map: "indexOf P (map f xs) = indexOf (\<lambda>x. P (f x)) xs"
  by (induction xs) simp_all

text \<open>The last occurrence splits a list in front of a part without another one.\<close>

lemma lastIndexOf_SomeD:
  assumes "lastIndexOf P xs = Some i"
  shows "i < length xs" "P (xs ! i)" "\<forall>x\<in>set (drop (Suc i) xs). \<not> P x"
  using assms
  by (induction xs arbitrary: i) (auto simp: lastIndexOf_None split: option.splits if_splits)

lemma lastIndexOf_column:
  "p \<noteq> [] \<Longrightarrow> lastIndexOf (\<lambda>key. key = p) (elems xs) = lastIndexOf (\<lambda>key. key = p) (column xs n)"
  by (auto simp: column_def lastIndexOf_None [THEN iffD2])

lemma indexOf_column:
  "p \<noteq> [] \<Longrightarrow> indexOf (\<lambda>key. key = p) (elems xs) = indexOf (\<lambda>key. key = p) (column xs n)"
  by (auto simp: column_def indexOf_None [THEN iffD2])

text \<open>The place after which an event of a turn goes, found in the rows.\<close>

definition rows_prompt :: "string \<Rightarrow> row list \<Rightarrow> nat option" where
  "rows_prompt p rs =
     (case lastIndexOf (\<lambda>r. row_turn r = p) rs of
        Some i \<Rightarrow> Some i | None \<Rightarrow> lastIndexOf (\<lambda>r. row_key r = p) rs)"

lemma promptIndex_rows:
  assumes "aligned c" and "p \<noteq> []"
  shows "promptIndex c p = rows_prompt p (rows c)"
  using lastIndexOf_map [of "\<lambda>k. k = p" row_turn "rows c"] lastIndexOf_map [of "\<lambda>k. k = p" row_key "rows c"]
  by (simp add: promptIndex_def rows_prompt_def rows_maps [OF assms(1)]
      lastIndexOf_column [OF assms(2), of _ "length (elems (c_History c))"] split: option.split)

lemma rows_promptD:
  assumes "rows_prompt p rs = Some i"
  shows "i < length rs" "\<forall>r\<in>set (drop (Suc i) rs). row_turn r \<noteq> p"
proof -
  consider "lastIndexOf (\<lambda>r. row_turn r = p) rs = Some i"
    | "lastIndexOf (\<lambda>r. row_turn r = p) rs = None" "lastIndexOf (\<lambda>r. row_key r = p) rs = Some i"
    using assms by (auto simp: rows_prompt_def split: option.splits)
  then have "i < length rs \<and> (\<forall>r\<in>set (drop (Suc i) rs). row_turn r \<noteq> p)"
    by cases (auto dest: lastIndexOf_SomeD simp: lastIndexOf_None dest: in_set_dropD)
  then show "i < length rs" "\<forall>r\<in>set (drop (Suc i) rs). row_turn r \<noteq> p" by auto
qed

lemma rows_prompt_inserted:
  assumes "\<forall>r\<in>set zs. row_turn r \<noteq> p" and "row_turn r = p"
  shows "rows_prompt p (xs @ r # zs) = Some (length xs)"
  using assms by (simp add: rows_prompt_def lastIndexOf_append lastIndexOf_None [THEN iffD2])

text \<open>Inserting an event of a turn is inserting a row.\<close>

lemma history_Insert_rows:
  assumes "aligned c" and "p \<noteq> []" and "rows_prompt p (rows c) = Some i"
  shows "\<exists>d. history_InsertAfterPrompt p item kind c = Inr d \<and> aligned d \<and>
           rows d = take (Suc i) (rows c) @ (item, [], kind, p) # drop (Suc i) (rows c) \<and>
           c_PendingFinalOperations d = c_PendingFinalOperations c \<and> c_SessionID d = c_SessionID c"
proof -
  define n where "n = length (elems (c_History c))"
  have i: "Suc i \<le> n" "0 < n" using rows_promptD(1) [OF assms(3)] assms(1) by (auto simp: n_def)
  have al: "column_ok (c_HistoryKeys c) n" "column_ok (c_HistoryKinds c) n" "column_ok (c_HistoryTurnKeys c) n"
    using assms(1) by (simp_all add: aligned_def n_def)
  obtain ks where ks: "onColumn (insertAt (Suc i) []) (c_HistoryKeys c) = Inr ks" "column_ok ks (Suc n)"
    "column ks (Suc n) = take (Suc i) (column (c_HistoryKeys c) n) @ [] # drop (Suc i) (column (c_HistoryKeys c) n)"
    using insert_column [OF al(1) i] by blast
  obtain ds where ds: "(if elems (c_HistoryKinds c) \<noteq> [] \<or> kind \<noteq> []
      then insertAt (Suc i) kind (if elems (c_HistoryKinds c) = [] then makeStrings n else c_HistoryKinds c)
      else Inr (c_HistoryKinds c)) = Inr ds" "column_ok ds (Suc n)"
    "column ds (Suc n) = take (Suc i) (column (c_HistoryKinds c) n) @ kind # drop (Suc i) (column (c_HistoryKinds c) n)"
    using insert_kind [OF al(2) i] by blast
  obtain ts where ts: "(if elems (c_HistoryTurnKeys c) \<noteq> [] \<or> p \<noteq> []
      then insertAt (Suc i) p (if elems (c_HistoryTurnKeys c) = [] then makeStrings n else c_HistoryTurnKeys c)
      else Inr (c_HistoryTurnKeys c)) = Inr ts" "column_ok ts (Suc n)"
    "column ts (Suc n) = take (Suc i) (column (c_HistoryTurnKeys c) n) @ p # drop (Suc i) (column (c_HistoryTurnKeys c) n)"
    using insert_kind [OF al(3) i] by blast
  have h: "insertAt (Suc i) item (c_History c) =
      Inr (Some (take (Suc i) (elems (c_History c)) @ item # drop (Suc i) (elems (c_History c))))"
    using i by (simp add: insertAt_def flip: n_def)
  define d where "d = c\<lparr>c_History := Some (take (Suc i) (elems (c_History c)) @ item # drop (Suc i) (elems (c_History c))),
    c_HistoryKeys := ks, c_HistoryKinds := ds, c_HistoryTurnKeys := ts\<rparr>"
  have len: "length (take (Suc i) (elems (c_History c)) @ item # drop (Suc i) (elems (c_History c))) = Suc n"
    using i by (simp add: n_def)
  have "history_InsertAfterPrompt p item kind c = Inr d"
    unfolding history_InsertAfterPrompt_def promptIndex_rows [OF assms(1,2)] assms(3) d_def
    using ks(1) ds(1) ts(1) h by (simp add: Let_def flip: n_def del: insertAt_def)
  moreover have "aligned d" using ks(2) ds(2) ts(2) len by (simp add: aligned_def d_def)
  moreover have "rows d = take (Suc i) (rows c) @ (item, [], kind, p) # drop (Suc i) (rows c)"
    using ks(3) ds(3) ts(3) len i al
    by (simp add: rows_def Let_def d_def zip_append take_zip drop_zip flip: n_def)
  ultimately show ?thesis by (intro exI [of _ d]) (simp add: d_def)
qed

section \<open>Eviction\<close>

lemma remove_column:
  assumes "column_ok xs n" and "i < n"
  shows "\<exists>ys. onColumn (removeAt i) xs = Inr ys \<and> column_ok ys (n - 1) \<and>
           column ys (n - 1) = take i (column xs n) @ drop (Suc i) (column xs n)"
proof (cases "elems xs = []")
  case True
  have "replicate (n - 1) [] = replicate i [] @ replicate (n - Suc i) []"
    using assms(2) by (simp flip: replicate_add)
  then show ?thesis using True assms by (simp add: onColumn_def column_ok_def column_def)
next
  case False
  then show ?thesis using assms
    by (cases "n = 1") (auto simp: onColumn_def removeAt_def column_ok_def column_def)
qed

lemma removeEntry_rows:
  assumes "aligned c" and "i < length (rows c)"
  shows "\<exists>d. removeEntry i c = Inr d \<and> aligned d \<and> rows d = take i (rows c) @ drop (Suc i) (rows c) \<and>
           c_PendingFinalOperations d = c_PendingFinalOperations c \<and> c_SessionID d = c_SessionID c"
proof -
  define n where "n = length (elems (c_History c))"
  have i: "i < n" using assms by (simp add: n_def)
  have al: "column_ok (c_HistoryKeys c) n" "column_ok (c_HistoryKinds c) n" "column_ok (c_HistoryTurnKeys c) n"
    using assms(1) by (simp_all add: aligned_def n_def)
  obtain ks where ks: "onColumn (removeAt i) (c_HistoryKeys c) = Inr ks" "column_ok ks (n - 1)"
    "column ks (n - 1) = take i (column (c_HistoryKeys c) n) @ drop (Suc i) (column (c_HistoryKeys c) n)"
    using remove_column [OF al(1) i] by blast
  obtain ds where ds: "onColumn (removeAt i) (c_HistoryKinds c) = Inr ds" "column_ok ds (n - 1)"
    "column ds (n - 1) = take i (column (c_HistoryKinds c) n) @ drop (Suc i) (column (c_HistoryKinds c) n)"
    using remove_column [OF al(2) i] by blast
  obtain ts where ts: "onColumn (removeAt i) (c_HistoryTurnKeys c) = Inr ts" "column_ok ts (n - 1)"
    "column ts (n - 1) = take i (column (c_HistoryTurnKeys c) n) @ drop (Suc i) (column (c_HistoryTurnKeys c) n)"
    using remove_column [OF al(3) i] by blast
  have h: "removeAt i (c_History c) =
      Inr (Some (take i (elems (c_History c)) @ drop (Suc i) (elems (c_History c))))"
    using i by (simp add: removeAt_def flip: n_def)
  have len: "length (take i (elems (c_History c)) @ drop (Suc i) (elems (c_History c))) = n - 1"
    using i by (simp add: n_def)
  define d where "d = c\<lparr>c_History := Some (take i (elems (c_History c)) @ drop (Suc i) (elems (c_History c))),
    c_HistoryKeys := ks, c_HistoryKinds := ds, c_HistoryTurnKeys := ts\<rparr>"
  have "removeEntry i c = Inr d"
    using ks(1) ds(1) ts(1) h by (simp add: removeEntry_def d_def)
  moreover have "aligned d" using ks(2) ds(2) ts(2) len by (simp add: aligned_def d_def)
  moreover have "rows d = take i (rows c) @ drop (Suc i) (rows c)"
    using ks(3) ds(3) ts(3) len i al
    by (simp add: rows_def Let_def d_def zip_append take_zip drop_zip flip: n_def)
  ultimately show ?thesis by (intro exI [of _ d]) (simp add: d_def)
qed

lemma nths_cong:
  assumes "\<And>i. i < length xs \<Longrightarrow> i \<in> A \<longleftrightarrow> i \<in> B"
  shows "nths xs A = nths xs B"
  unfolding nths_def using assms
  by (intro arg_cong [where f = "map fst"] filter_cong) (auto dest: in_set_zipE simp: in_set_zip)

lemma nths_remove:
  assumes "i < length xs" and "\<And>j. j \<in> A \<Longrightarrow> j < i"
  shows "nths (take i xs @ drop (Suc i) xs) (- A) = nths xs (- insert i A)"
proof -
  have xs: "xs = take i xs @ xs ! i # drop (Suc i) xs" using assms(1) by (simp add: id_take_nth_drop)
  have len: "length (take i xs) = i" using assms(1) by simp
  have "nths xs (- insert i A) =
      nths (take i xs) (- insert i A) @ nths (xs ! i # drop (Suc i) xs) {j. j + i \<in> - insert i A}"
    by (subst xs) (simp only: nths_append len)
  also have "nths (take i xs) (- insert i A) = nths (take i xs) (- A)"
    by (rule nths_cong) auto
  also have "nths (xs ! i # drop (Suc i) xs) {j. j + i \<in> - insert i A} =
      nths (drop (Suc i) xs) {j. Suc j + i \<in> - insert i A}"
    by (simp add: nths_Cons)
  also have "\<dots> = nths (drop (Suc i) xs) {j. j + i \<in> - A}"
    using assms(2) by (intro nths_cong) force
  finally show ?thesis using assms(1) by (simp add: nths_append)
qed

lemma removeEntries_rows:
  assumes "aligned c" and "sorted_wrt (>) sel" and "\<And>i. i \<in> set sel \<Longrightarrow> i < length (rows c)"
  shows "\<exists>d. removeEntries sel c = Inr d \<and> aligned d \<and> rows d = nths (rows c) (- set sel) \<and>
           c_PendingFinalOperations d = c_PendingFinalOperations c \<and> c_SessionID d = c_SessionID c"
  using assms
proof (induction sel arbitrary: c)
  case Nil
  then show ?case by (simp add: nths_all)
next
  case (Cons i sel)
  from removeEntry_rows [OF Cons.prems(1)] Cons.prems(3) obtain d where d: "removeEntry i c = Inr d" "aligned d"
    "rows d = take i (rows c) @ drop (Suc i) (rows c)"
    "c_PendingFinalOperations d = c_PendingFinalOperations c" "c_SessionID d = c_SessionID c"
    by (metis list.set_intros(1))
  have lt: "j < i" if "j \<in> set sel" for j using Cons.prems(2) that by simp
  have i: "i < length (rows c)" using Cons.prems(3) by simp
  have "\<exists>e. removeEntries sel d = Inr e \<and> aligned e \<and> rows e = nths (rows d) (- set sel) \<and>
      c_PendingFinalOperations e = c_PendingFinalOperations d \<and> c_SessionID e = c_SessionID d"
  proof (rule Cons.IH [OF d(2)])
    show "sorted_wrt (>) sel" using Cons.prems(2) by simp
    show "j < length (rows d)" if "j \<in> set sel" for j using lt [OF that] i d(3) by simp
  qed
  moreover have "nths (rows d) (- set sel) = nths (rows c) (- set (i # sel))"
    using nths_remove [OF i, of "set sel"] lt d(3) by simp
  ultimately show ?case using d by auto
qed

text \<open>
  Making room removes rows of the evictable classes only, as few as are needed. Three kinds of rows
  stay: the anchor of the turn, final answers that wait for delivery, and prompts that are not
  older than the anchor or wait for their final answer.
\<close>

definition prompt_row :: "row \<Rightarrow> bool" where
  "prompt_row r \<longleftrightarrow> row_kind r = ''prompt'' \<or> row_key r \<noteq> [] \<and> row_turn r = []"

lemma anchorIndex_row:
  assumes "aligned c" and "p \<noteq> []" and "anchorIndex c p = Some a"
  shows "a < length (rows c)" "row_key (rows c ! a) = p \<or> row_turn (rows c ! a) = p"
proof -
  have "(case indexOf (\<lambda>r. row_key r = p) (rows c) of Some i \<Rightarrow> Some i
         | None \<Rightarrow> lastIndexOf (\<lambda>r. row_turn r = p) (rows c)) = Some a"
    using assms(3) indexOf_map [of "\<lambda>k. k = p" row_key "rows c"] lastIndexOf_map [of "\<lambda>k. k = p" row_turn "rows c"]
    by (simp add: anchorIndex_def rows_maps [OF assms(1)]
        lastIndexOf_column [OF assms(2), of _ "length (elems (c_History c))"]
        indexOf_column [OF assms(2), of _ "length (elems (c_History c))"] split: option.splits)
  then show "a < length (rows c)" "row_key (rows c ! a) = p \<or> row_turn (rows c ! a) = p"
    by (auto simp: indexOf_Some dest: lastIndexOf_SomeD split: option.splits)
qed

lemma evictClass_spares:
  assumes "aligned c" and "p \<noteq> []" and "anchorIndex c p = Some a" and "i < length (rows c)"
    and "evictClass c p a i \<noteq> Retained"
  shows "i \<noteq> a" and "\<not> (row_kind (rows c ! i) = ''final'' \<and> pendingFinal c (row_turn (rows c ! i)))"
    and "prompt_row (rows c ! i) \<Longrightarrow>
           i < a \<and> row_key (rows c ! i) \<noteq> p \<and> \<not> pendingFinal c (row_key (rows c ! i))"
proof -
  have r: "rows c ! i = (elems (c_History c) ! i, valueAt (c_HistoryKeys c) i,
      valueAt (c_HistoryKinds c) i, valueAt (c_HistoryTurnKeys c) i)"
    using assms(1,4) by (simp add: rows_nth)
  have none: "\<not> pendingFinal c []" by (simp add: pendingFinal_def list_ex_iff)
  show "i \<noteq> a"
    using anchorIndex_row [OF assms(1-3)] assms(5) r
    by (auto simp: evictClass_def Let_def split: if_splits)
  show "\<not> (row_kind (rows c ! i) = ''final'' \<and> pendingFinal c (row_turn (rows c ! i)))"
    using assms(5) r none by (auto simp: evictClass_def Let_def split: if_splits)
  show "i < a \<and> row_key (rows c ! i) \<noteq> p \<and> \<not> pendingFinal c (row_key (rows c ! i))"
    if "prompt_row (rows c ! i)"
    using that assms(5) r by (auto simp: prompt_row_def evictClass_def Let_def split: if_splits)
qed

lemma candidates_distinct: "distinct (evictionCandidates c p a)"
  by (auto simp: evictionCandidates_def Let_def)

lemma candidates_set:
  "i \<in> set (evictionCandidates c p a) \<longleftrightarrow>
     i < length (elems (c_History c)) \<and> evictClass c p a i \<noteq> Retained"
  by (cases "evictClass c p a i") (auto simp: evictionCandidates_def Let_def)

lemma sorted_desc_rev_sort:
  fixes xs :: "nat list"
  assumes "distinct xs"
  shows "sorted_wrt (>) (rev (sort xs))"
  using assms by (simp add: sorted_wrt_rev strict_sorted_iff)

lemma length_nths_compl:
  assumes "A \<subseteq> {..<length xs}"
  shows "length (nths xs (- A)) = length xs - card A"
proof -
  have "{i. i < length xs \<and> i \<in> - A} = {..<length xs} - A" by auto
  then show ?thesis using assms by (simp add: length_nths card_Diff_subset finite_subset)
qed

lemma EnsureRoom_rows:
  assumes "aligned c" and "EnsureRoomAfterPrompt p n c = Inr d"
  obtains a A where "anchorIndex c p = Some a" and "A \<subseteq> {..<length (rows c)}"
    and "rows d = nths (rows c) (- A)" and "aligned d" and "length (rows d) + n \<le> 512" and "0 < n"
    and "\<And>i. i \<in> A \<Longrightarrow> evictClass c p a i \<noteq> Retained"
    and "card A = length (rows c) + n - 512"
    and "c_PendingFinalOperations d = c_PendingFinalOperations c" and "c_SessionID d = c_SessionID c"
proof -
  from assms(2) obtain a where a: "anchorIndex c p = Some a" and n: "0 < n" "n \<le> 512"
    and le: "length (elems (c_History c)) \<le> 512"
    by (auto simp: EnsureRoomAfterPrompt_def result_simps maxEntries_def not_less split: option.splits)
  show ?thesis
  proof (cases "length (rows c) + n \<le> 512")
    case True
    then have "d = c" using assms a by (auto simp: EnsureRoomAfterPrompt_def result_simps maxEntries_def)
    with True a n assms(1) show ?thesis by (intro that [of a "{}"]) (simp_all add: nths_all)
  next
    case False
    define need where "need = length (rows c) + n - 512"
    define sel where "sel = take need (evictionCandidates c p a)"
    from assms a False have room: "need \<le> length (evictionCandidates c p a)"
      and rem: "removeEntries (rev (sort sel)) c = Inr d"
      by (auto simp: EnsureRoomAfterPrompt_def result_simps maxEntries_def Let_def need_def sel_def)
    have dist: "distinct sel" by (simp add: sel_def candidates_distinct)
    have sub: "set sel \<subseteq> set (evictionCandidates c p a)" by (simp add: sel_def set_take_subset)
    have lt: "i < length (rows c)" if "i \<in> set (rev (sort sel))" for i
      using that sub assms(1) by (auto simp: candidates_set)
    from removeEntries_rows [OF assms(1) sorted_desc_rev_sort [OF dist] lt] rem
    have d: "aligned d" "rows d = nths (rows c) (- set sel)"
      "c_PendingFinalOperations d = c_PendingFinalOperations c" "c_SessionID d = c_SessionID c" by auto
    have A: "set sel \<subseteq> {..<length (rows c)}" using lt by auto
    have cardA: "card (set sel) = need" using dist room by (simp add: distinct_card sel_def)
    have "length (rows d) + n \<le> 512"
      using d(2) length_nths_compl [OF A] cardA le assms(1) n by (simp add: need_def)
    then show ?thesis
      using a n A d sub cardA
      by (intro that [of a "set sel"]) (auto simp: candidates_set need_def)
  qed
qed

section \<open>Validity of rows\<close>

lemma map_nths: "map f (nths xs A) = nths (map f xs) A"
  by (simp add: nths_map)

lemma rows_ok_nths:
  assumes "rows_ok rs"
  shows "rows_ok (nths rs A)"
proof -
  have "distinct (filter (\<lambda>k. k \<noteq> []) (map row_key (nths rs A)))"
  proof -
    have "subseq (filter (\<lambda>k. k \<noteq> []) (nths (map row_key rs) A)) (filter (\<lambda>k. k \<noteq> []) (map row_key rs))"
      by (intro subseq_filter) (simp add: subseq_conv_nths exI [of _ A])
    then show ?thesis
      using assms by (auto simp: rows_ok_def nths_map subseq_conv_nths intro: distinct_nthsI)
  qed
  moreover have "length (nths rs A) \<le> length rs"
    by (rule list_emb_length [where P = "(=)"]) (auto simp: subseq_conv_nths)
  ultimately show ?thesis using assms set_nths_subset [of rs A] by (auto simp: rows_ok_def)
qed

lemma rows_ok_insert:
  assumes "rows_ok (xs @ ys)" and "length (xs @ ys) < 512" and "historyItem_ok item"
    and "kind \<in> set historyKinds" and "key \<noteq> [] \<Longrightarrow> historyKey_ok key \<and> key \<notin> row_key ` set (xs @ ys)"
  shows "rows_ok (xs @ (item, key, kind, turn) # ys)"
  using assms by (auto simp: rows_ok_def)

lemma rows_ok_drop:
  assumes "rows_ok rs"
  shows "rows_ok (drop k rs)"
proof -
  have "rows_ok (take k rs @ drop k rs)" using assms by simp
  then show ?thesis by (auto simp: rows_ok_def simp del: append_take_drop_id)
qed

section \<open>Events\<close>

lemma limit_Insert_rows:
  assumes "aligned c" and "p \<noteq> []" and "limit_InsertAfterPrompt p item kind c = Inr d"
  obtains a A kept i where "anchorIndex c p = Some a" and "kept = nths (rows c) (- A)"
    and "A \<subseteq> {..<length (rows c)}" and "\<And>i. i \<in> A \<Longrightarrow> evictClass c p a i \<noteq> Retained"
    and "card A = length (rows c) + 1 - 512" and "rows_prompt p kept = Some i"
    and "rows d = take (Suc i) kept @ (item, [], kind, p) # drop (Suc i) kept"
    and "aligned d" and "length kept < 512"
    and "c_PendingFinalOperations d = c_PendingFinalOperations c" and "c_SessionID d = c_SessionID c"
proof -
  from assms(3) obtain e where e: "EnsureRoomAfterPrompt p 1 c = Inr e"
    and d: "history_InsertAfterPrompt p item kind e = Inr d"
    by (auto simp: limit_InsertAfterPrompt_def result_simps)
  from assms(1) e obtain a A where a: "anchorIndex c p = Some a" "A \<subseteq> {..<length (rows c)}"
    "rows e = nths (rows c) (- A)" "aligned e" "length (rows e) + 1 \<le> 512"
    "\<And>i. i \<in> A \<Longrightarrow> evictClass c p a i \<noteq> Retained" "card A = length (rows c) + 1 - 512"
    "c_PendingFinalOperations e = c_PendingFinalOperations c" "c_SessionID e = c_SessionID c"
    by (rule EnsureRoom_rows) blast
  from d obtain i where i: "promptIndex e p = Some i"
    by (auto simp: history_InsertAfterPrompt_def split: option.splits)
  then have i': "rows_prompt p (rows e) = Some i" using promptIndex_rows [OF a(4) assms(2)] by simp
  from history_Insert_rows [OF a(4) assms(2) i', of item kind] d
  have "rows d = take (Suc i) (rows e) @ (item, [], kind, p) # drop (Suc i) (rows e)" "aligned d"
    "c_PendingFinalOperations d = c_PendingFinalOperations e" "c_SessionID d = c_SessionID e"
    by auto
  with a i' show ?thesis by (intro that [of a "rows e" A i]) auto
qed

lemma limit_Insert_ok:
  assumes "history_ok c" and "p \<noteq> []" and "historyItem_ok item" and "kind \<in> set historyKinds"
    and "limit_InsertAfterPrompt p item kind c = Inr d"
  shows "history_ok d"
proof -
  have al: "aligned c" and ok: "rows_ok (rows c)" using assms(1) by (simp_all add: history_ok_rows)
  from al assms(2,5) obtain A kept i where k: "kept = nths (rows c) (- A)"
    "rows d = take (Suc i) kept @ (item, [], kind, p) # drop (Suc i) kept" "aligned d" "length kept < 512"
    by (rule limit_Insert_rows) blast
  have "rows_ok (take (Suc i) kept @ drop (Suc i) kept)" using rows_ok_nths [OF ok] k(1) by simp
  then have "rows_ok (rows d)"
    unfolding k(2) using assms(3,4) k(4) by (intro rows_ok_insert) auto
  with k(3) show ?thesis by (simp add: history_ok_rows)
qed

end
