(* ===== verification/Card_Properties.thy ===== *)
theory Card_Properties
  imports Card_Rows
begin

text \<open>
  The theorems about cards: what the operations on a history do to its rows, that they keep a valid
  card valid and within its 512 entries, that events and recovered final answers are stored once,
  and that the revision of a card identifies its carrier.
\<close>

section \<open>Events\<close>

lemma eventKey_ascii: "ascii (eventKey p e)"
proof -
  have h: "ascii hexDigits" by (simp add: ascii_def hexDigits_def)
  have "ascii (hex_EncodeToString bs)" for bs
    using h set_hex [of bs] by (auto simp: ascii_def)
  then show ?thesis by (auto simp: eventKey_def ascii_def)
qed

lemma hexDigits_not_space: "c \<in> set hexDigits \<Longrightarrow> \<not> IsSpace (of_char c)"
  by (auto simp: hexDigits_def IsSpace_def)

lemma eventKey_ok: "historyKey_ok (eventKey p e)" "eventKey p e \<noteq> []"
proof -
  define h where "h = hex_EncodeToString (Sum256 (bytesOf (p @ CHR 0x00 # e)))"
  have len: "length h = 64" by (simp add: h_def)
  then have "h \<noteq> []" by auto
  then have "last h \<in> set hexDigits" using set_hex last_in_set by (force simp: h_def)
  then have "\<not> IsSpace (of_char (last (eventKey p e)))"
    using \<open>h \<noteq> []\<close> hexDigits_not_space by (simp add: eventKey_def flip: h_def)
  moreover have "\<not> IsSpace (of_char (hd (eventKey p e)))"
    by (simp add: eventKey_def IsSpace_def)
  ultimately have "TrimSpace (eventKey p e) = eventKey p e"
    by (intro TrimSpace_ascii eventKey_ascii) (simp_all add: eventKey_def)
  moreover have "len (eventKey p e) = 78" using len by (simp add: eventKey_def len_def flip: h_def)
  ultimately show "historyKey_ok (eventKey p e)"
    by (simp add: historyKey_ok_def maxAnchor_def ValidString_ascii eventKey_ascii)
  show "eventKey p e \<noteq> []" by (simp add: eventKey_def)
qed

lemma setKey_rows:
  fixes key :: string
  assumes "aligned c" and "i < length (rows c)"
  defines "keys \<equiv> (if elems (c_HistoryKeys c) = [] then makeStrings (length (elems (c_History c)))
                   else c_HistoryKeys c)"
  defines "d \<equiv> c\<lparr>c_HistoryKeys := Some ((elems keys)[i := key])\<rparr>"
  shows "aligned d" "rows d = (rows c)[i := (row_item (rows c ! i), key, snd (snd (rows c ! i)))]"
    "length (elems keys) = length (rows c)" "elems (c_HistoryKeys d) = map row_key (rows d)"
proof -
  define n where "n = length (elems (c_History c))"
  have i: "i < n" using assms(1,2) by (simp add: n_def)
  then have n: "0 < n" "i < n" by simp_all
  have al: "column_ok (c_HistoryKeys c) n" using assms(1) by (simp add: aligned_def n_def)
  have keys: "elems keys = column (c_HistoryKeys c) n" by (simp add: keys_def column_def n_def)
  have len: "length (elems keys) = n" using al by (simp add: keys)
  then show "length (elems keys) = length (rows c)" using assms(1) by (simp add: n_def)
  have ne: "(elems keys)[i := key] \<noteq> []" using len n by auto
  show ald: "aligned d" using assms(1) len by (simp add: aligned_def d_def column_ok_def flip: n_def)
  have "rows d = zip (elems (c_History c)) (zip ((column (c_HistoryKeys c) n)[i := key])
      (zip (column (c_HistoryKinds c) n) (column (c_HistoryTurnKeys c) n)))"
    using ne keys by (simp add: rows_def Let_def d_def column_def flip: n_def)
  moreover have "snd (rows c ! i) = zip (column (c_HistoryKeys c) n)
      (zip (column (c_HistoryKinds c) n) (column (c_HistoryTurnKeys c) n)) ! i"
    "row_item (rows c ! i) = elems (c_History c) ! i"
    "snd (snd (rows c ! i)) = zip (column (c_HistoryKinds c) n) (column (c_HistoryTurnKeys c) n) ! i"
    using assms(1) n by (simp_all add: rows_def Let_def aligned_def flip: n_def)
  ultimately show "rows d = (rows c)[i := (row_item (rows c ! i), key, snd (snd (rows c ! i)))]"
    by (simp add: rows_def Let_def update_zip flip: n_def)
  show "elems (c_HistoryKeys d) = map row_key (rows d)"
    using ne len by (simp add: rows_maps [OF ald]) (simp add: column_def d_def flip: n_def)
qed

lemma distinct_filter_nth:
  assumes "distinct (filter P xs)" and "i < j" and "j < length xs" and "P (xs ! j)"
  shows "xs ! i \<noteq> xs ! j"
proof -
  have "xs = take j xs @ xs ! j # drop (Suc j) xs" using assms(3) by (simp add: id_take_nth_drop)
  then have "filter P xs = filter P (take j xs) @ filter P (xs ! j # drop (Suc j) xs)"
    by (metis filter_append)
  with assms(1,4) have "xs ! j \<notin> set (take j xs)" by auto
  moreover have "xs ! i \<in> set (take j xs)" using assms(2,3) by (auto simp: in_set_conv_nth)
  ultimately show ?thesis by metis
qed

text \<open>A stored event is found again, and only the same event agrees with it.\<close>

lemma stored_event:
  assumes "history_ok c" and "i < length (rows c)" and "rows c ! i = (item, eventKey p e, kind, p)"
    and "p \<noteq> []" and "e \<noteq> []" and "len e \<le> 512" and "ValidString e" and "item' \<noteq> []"
    and "kind' \<in> {''commentary'', ''tool'', ''question'', ''thinking''}"
  shows "InsertRuntimeEvent p e item' kind' c =
    (if item' = item \<and> kind' = kind then Inr c
     else Inl ''runtime event identity conflicts with retained history'')"
proof -
  define n where "n = length (elems (c_History c))"
  have al: "aligned c" using assms(1) by (rule history_ok_aligned)
  have cols: "column_ok (c_HistoryKeys c) n" "column_ok (c_HistoryKinds c) n" "column_ok (c_HistoryTurnKeys c) n"
    using al by (simp_all add: aligned_def n_def)
  have i: "i < n" using assms(2) al by (simp add: n_def)
  have row: "elems (c_History c) ! i = item" "valueAt (c_HistoryKeys c) i = eventKey p e"
    "valueAt (c_HistoryKinds c) i = kind" "valueAt (c_HistoryTurnKeys c) i = p"
  proof -
    have "(elems (c_History c) ! i, valueAt (c_HistoryKeys c) i, valueAt (c_HistoryKinds c) i,
        valueAt (c_HistoryTurnKeys c) i) = (item, eventKey p e, kind, p)"
      using rows_nth [OF al, of i] i assms(3) by (simp only: n_def)
    then show "elems (c_History c) ! i = item" "valueAt (c_HistoryKeys c) i = eventKey p e"
      "valueAt (c_HistoryKinds c) i = kind" "valueAt (c_HistoryTurnKeys c) i = p"
      by (simp_all only: prod.inject)
  qed
  have ne: "elems (c_HistoryKeys c) \<noteq> []" "elems (c_HistoryTurnKeys c) \<noteq> []"
    using row(2,4) eventKey_ok(2) [of p e] assms(4) by (auto simp: valueAt_def)
  have keys: "length (elems (c_HistoryKeys c)) = n" "length (elems (c_HistoryTurnKeys c)) = n"
    using cols ne by (auto simp: column_ok_def)
  have "distinct (filter (\<lambda>x. x \<noteq> []) (elems (c_HistoryKeys c)))"
    using assms(1) by (simp add: history_ok_def)
  then have uniq: "elems (c_HistoryKeys c) ! j \<noteq> eventKey p e" if "j < i" for j
    using distinct_filter_nth [of "\<lambda>x. x \<noteq> []" "elems (c_HistoryKeys c)" j i] that i keys row(2)
      eventKey_ok(2) [of p e] by (simp add: valueAt_def)
  have idx: "indexOf (\<lambda>prior. prior = eventKey p e) (elems (c_HistoryKeys c)) = Some i"
    using keys i row(2) uniq by (simp add: indexOf_Some valueAt_def)
  have kinds: "(length (elems (c_HistoryKinds c)) \<le> i \<or> elems (c_HistoryKinds c) ! i \<noteq> kind') \<longleftrightarrow> kind' \<noteq> kind"
    using row(3) assms(9) by (cases "length (elems (c_HistoryKinds c)) \<le> i") (auto simp: valueAt_def)
  have turns: "\<not> length (elems (c_HistoryTurnKeys c)) \<le> i" "elems (c_HistoryTurnKeys c) ! i = p"
    using row(4) keys i by (simp_all add: valueAt_def)
  show ?thesis
    unfolding InsertRuntimeEvent_def Let_def idx
    using assms(4-9) i kinds turns row(1) by (auto simp flip: n_def)
qed

lemma InsertRuntimeEvent_new:
  assumes "history_ok c" and "historyItem_ok item" and "InsertRuntimeEvent p e item kind c = Inr d"
    and "eventKey p e \<notin> set (elems (c_HistoryKeys c))"
  obtains A xs ys where "nths (rows c) (- A) = xs @ ys" and "A \<subseteq> {..<length (rows c)}"
    and "card A = length (rows c) + 1 - 512"
    and "rows d = xs @ (item, eventKey p e, kind, p) # ys" and "history_ok d"
    and "\<forall>r\<in>set ys. row_turn r \<noteq> p" and "rows_prompt p (xs @ ys) = Some (length xs - 1)"
proof -
  have p: "p \<noteq> []" and kind: "kind \<in> {''commentary'', ''tool'', ''question'', ''thinking''}"
    using assms(3) by (auto simp: InsertRuntimeEvent_def result_simps)
  have al: "aligned c" using assms(1) by (rule history_ok_aligned)
  have idx: "indexOf (\<lambda>prior. prior = eventKey p e) (elems (c_HistoryKeys c)) = None"
    using assms(4) by (auto simp: indexOf_None)
  from assms(3) obtain b where b: "limit_InsertAfterPrompt p item kind c = Inr b"
    and d: "(let keys = (if elems (c_HistoryKeys b) = [] then makeStrings (length (elems (c_History b)))
                   else c_HistoryKeys b)
             in case lastIndexOf (\<lambda>turn. turn = p) (elems (c_HistoryTurnKeys b)) of None \<Rightarrow> Inl panic
              | Some index \<Rightarrow> if length (elems keys) \<le> index then Inl panic
                  else Inr (b\<lparr>c_HistoryKeys := Some ((elems keys)[index := eventKey p e])\<rparr>)) = Inr d"
    unfolding InsertRuntimeEvent_def Let_def idx by (auto simp: result_simps)
  from al p b obtain A kept i where k: "kept = nths (rows c) (- A)" "A \<subseteq> {..<length (rows c)}"
    "card A = length (rows c) + 1 - 512" "rows_prompt p kept = Some i"
    "rows b = take (Suc i) kept @ (item, [], kind, p) # drop (Suc i) kept" "aligned b" "length kept < 512"
    by (rule limit_Insert_rows) blast
  note after = rows_promptD [OF k(4)]
  have "lastIndexOf (\<lambda>turn. turn = p) (elems (c_HistoryTurnKeys b)) = lastIndexOf (\<lambda>r. row_turn r = p) (rows b)"
    using lastIndexOf_map [of "\<lambda>k. k = p" row_turn "rows b"]
    by (simp add: rows_maps [OF k(6)] lastIndexOf_column [OF p, of _ "length (elems (c_History b))"])
  also have "\<dots> = Some (Suc i)"
    using after unfolding k(5) by (simp add: lastIndexOf_append lastIndexOf_None [THEN iffD2])
  finally have last: "lastIndexOf (\<lambda>turn. turn = p) (elems (c_HistoryTurnKeys b)) = Some (Suc i)" .
  have lt: "Suc i < length (rows b)" using after(1) k(5) by simp
  note sk = setKey_rows(1,2) [OF k(6) lt, of "eventKey p e"] setKey_rows(3) [OF k(6) lt]
  have d': "d = b\<lparr>c_HistoryKeys := Some ((elems (if elems (c_HistoryKeys b) = []
      then makeStrings (length (elems (c_History b))) else c_HistoryKeys b))[Suc i := eventKey p e])\<rparr>"
    using d last sk(3) lt by (simp add: Let_def split: if_splits)
  have len: "length (take (Suc i) kept) = Suc i" using after(1) by simp
  have rd: "rows d = take (Suc i) kept @ (item, eventKey p e, kind, p) # drop (Suc i) kept"
    unfolding d' sk(2) k(5) using len by (simp add: nth_append list_update_append)
  have new: "eventKey p e \<notin> row_key ` set kept"
  proof
    assume "eventKey p e \<in> row_key ` set kept"
    then have "eventKey p e \<in> set (map row_key (rows c))"
      using set_nths_subset [of "rows c" "- A"] k(1) by auto
    then show False
      using assms(4) eventKey_ok(2) [of p e] column_set by (force simp: rows_maps [OF al])
  qed
  have "rows_ok (take (Suc i) kept @ drop (Suc i) kept)"
    using rows_ok_nths assms(1) k(1) by (simp add: history_ok_rows)
  then have "rows_ok (rows d)"
    unfolding rd using assms(2) kind k(7) new eventKey_ok [of p e]
    by (intro rows_ok_insert) (auto simp: historyKinds_def)
  moreover have "aligned d" using sk(1) unfolding d' .
  ultimately have "history_ok d" by (simp add: history_ok_rows)
  then show ?thesis
    using k after rd len by (intro that [of A "take (Suc i) kept" "drop (Suc i) kept"]) simp_all
qed

section \<open>Recovered final answers\<close>

lemma validSize_prefix: "validSize t n \<le> n" "ValidString (take (validSize t n) t)"
  by (induction n) (auto simp: ValidString_def intro: le_SucI)

lemma validSize_greatest: "k \<le> n \<Longrightarrow> ValidString (take k t) \<Longrightarrow> k \<le> validSize t n"
  by (induction n) (auto simp: le_Suc_eq)

text \<open>The loop that cuts a valid answer ends, and loses nothing of it.\<close>

lemma splitFinal_valid:
  assumes "ValidString t"
  shows "\<exists>parts. splitFinal t = Some parts \<and> concat parts = t \<and>
           (\<forall>x\<in>set parts. historyItem_ok x)"
  using assms
proof (induction t rule: length_induct)
  case (1 t)
  show ?case
  proof (cases "t = []")
    case True
    then show ?thesis by (subst splitFinal.simps) simp
  next
    case False
    define cut where "cut = validSize t (min (length t) 16384)"
    from ValidString_prefix [OF 1(2) False] obtain w
      where w: "1 \<le> w" "w \<le> 4" "w \<le> length t" "ValidString (take w t)" by blast
    then have pos: "1 \<le> cut" using validSize_greatest [of w "min (length t) 16384" t] by (simp add: cut_def)
    have le: "cut \<le> length t" "cut \<le> 16384" "ValidString (take cut t)"
      using validSize_prefix [of t "min (length t) 16384"] by (simp_all add: cut_def)
    have "ValidString (take cut t @ drop cut t)" using 1(2) by simp
    then have "ValidString (drop cut t)" using ValidString_append [OF le(3)] by blast
    with 1(1) pos False obtain parts where parts: "splitFinal (drop cut t) = Some parts"
      "concat parts = drop cut t" "\<forall>x\<in>set parts. historyItem_ok x"
      by (metis diff_less length_drop length_greater_0_conv less_le_trans zero_less_one)
    have "splitFinal t = Some (take cut t # parts)"
      using False parts(1) by (subst splitFinal.simps) (simp add: Let_def flip: cut_def)
    then show ?thesis
      using parts pos le False by (auto simp: historyItem_ok_def len_def)
  qed
qed

definition final_row :: "string \<Rightarrow> row \<Rightarrow> bool" where
  "final_row m r \<longleftrightarrow> row_turn r = m \<and> row_kind r = ''final''"

lemma map_filter_nth: "map ((!) xs) (filter (\<lambda>i. P (xs ! i)) [0..<length xs]) = filter P xs"
  by (metis (no_types, lifting) filter_map comp_def filter_cong map_nth)

lemma finalIndexes_rows:
  assumes "aligned c" and "m \<noteq> []"
  shows "finalIndexes c m = filter (\<lambda>i. final_row m (rows c ! i)) [0..<length (rows c)]"
proof (cases "elems (c_HistoryTurnKeys c) = []")
  case True
  then have "\<not> final_row m (rows c ! i)" if "i < length (rows c)" for i
    using that assms by (simp add: rows_nth final_row_def valueAt_def)
  then show ?thesis using True by (simp add: finalIndexes_def filter_False)
next
  case False
  then have n: "length (elems (c_HistoryTurnKeys c)) = length (rows c)"
    using assms(1) by (simp add: aligned_def column_ok_def)
  show ?thesis
    unfolding finalIndexes_def n
    using assms n by (intro filter_cong) (auto simp: final_row_def rows_nth valueAt_def)
qed

lemma existingFinal_rows:
  assumes "aligned c" and "m \<noteq> []"
  shows "existingFinal c m = concat (map row_item (filter (final_row m) (rows c)))"
    "\<not> list_ex (\<lambda>i. length (elems (c_History c)) \<le> i) (finalIndexes c m)"
proof -
  have "map (\<lambda>i. elems (c_History c) ! i) (finalIndexes c m) = map row_item (map ((!) (rows c)) (finalIndexes c m))"
    using assms by (auto simp: finalIndexes_rows rows_nth)
  also have "map ((!) (rows c)) (finalIndexes c m) = filter (final_row m) (rows c)"
    unfolding finalIndexes_rows [OF assms] by (rule map_filter_nth)
  finally show "existingFinal c m = concat (map row_item (filter (final_row m) (rows c)))"
    by (simp add: existingFinal_def)
  show "\<not> list_ex (\<lambda>i. length (elems (c_History c)) \<le> i) (finalIndexes c m)"
    using assms by (auto simp: finalIndexes_rows list_ex_iff)
qed

lemma insertFinals_rows:
  assumes "aligned c" and "m \<noteq> []" and "rows_prompt m (rows c) = Some i"
  shows "\<exists>d. insertFinals m parts c = Inr d \<and> aligned d \<and>
           rows d = take (Suc i) (rows c) @ map (\<lambda>x. (x, [], ''final'', m)) parts @ drop (Suc i) (rows c) \<and>
           c_PendingFinalOperations d = c_PendingFinalOperations c \<and> c_SessionID d = c_SessionID c"
  using assms
proof (induction parts arbitrary: c i)
  case Nil
  then show ?case by simp
next
  case (Cons x parts)
  from history_Insert_rows [OF Cons.prems, of x "''final''"] obtain b where b:
    "history_InsertAfterPrompt m x ''final'' c = Inr b" "aligned b"
    "rows b = take (Suc i) (rows c) @ (x, [], ''final'', m) # drop (Suc i) (rows c)"
    "c_PendingFinalOperations b = c_PendingFinalOperations c" "c_SessionID b = c_SessionID c" by blast
  note after = rows_promptD [OF Cons.prems(3)]
  have i: "rows_prompt m (rows b) = Some (Suc i)"
    using rows_prompt_inserted [of "drop (Suc i) (rows c)" m "(x, [], ''final'', m)" "take (Suc i) (rows c)"] after
    unfolding b(3) by simp
  from Cons.IH [OF b(2) Cons.prems(2) i] obtain d where d: "insertFinals m parts b = Inr d" "aligned d"
    "rows d = take (Suc (Suc i)) (rows b) @ map (\<lambda>x. (x, [], ''final'', m)) parts @ drop (Suc (Suc i)) (rows b)"
    "c_PendingFinalOperations d = c_PendingFinalOperations b" "c_SessionID d = c_SessionID b" by blast
  have "length (take (Suc i) (rows c)) = Suc i" using after(1) by simp
  then have "take (Suc (Suc i)) (rows b) = take (Suc i) (rows c) @ [(x, [], ''final'', m)]"
    "drop (Suc (Suc i)) (rows b) = drop (Suc i) (rows c)"
    unfolding b(3) by simp_all
  with b d show ?case by simp
qed

lemma TrimSpace_first:
  assumes "TrimSpace s = s" and "rune_chunks s = x # xs"
  shows "\<not> space_chunk x"
proof
  assume x: "space_chunk x"
  define L where "L = (\<lambda>cs :: (rune \<times> string) list. length (concat (map snd cs)))"
  have drop: "L (dropWhile P cs) \<le> L cs" for P cs
    by (induction cs) (auto simp: L_def)
  have rev: "L (rev cs) = L cs" for cs
    by (induction cs) (auto simp: L_def)
  have "length (TrimSpace s) = L (dropWhile space_chunk (rev (dropWhile space_chunk (rune_chunks s))))"
    using rev by (simp add: TrimSpace_def L_def)
  also have "\<dots> \<le> L (dropWhile space_chunk (rune_chunks s))" using drop rev by metis
  also have "\<dots> \<le> L xs" using assms(2) x drop by simp
  finally have "length s \<le> L xs" using assms(1) by simp
  moreover have "length s = length (snd x) + L xs"
    using concat_rune_chunks [of s] assms(2) by (auto simp: L_def)
  moreover have "snd x \<noteq> []" using assms(2) by (cases s) (auto simp: Let_def)
  ultimately show False by simp
qed

lemma TrimSpace_append:
  assumes "ValidString m" and "TrimSpace m = m" and "m \<noteq> []"
    and "ascii t" and "t \<noteq> []" and "\<not> IsSpace (of_char (last t))"
  shows "TrimSpace (m @ t) = m @ t"
proof -
  have rc: "rune_chunks (m @ t) = rune_chunks m @ map (\<lambda>c. (of_char c, [c])) t"
    using rune_chunks_append [OF assms(1)] rune_chunks_ascii [OF assms(4)] by simp
  obtain x xs where x: "rune_chunks m = x # xs" using assms(3) by (cases "rune_chunks m") auto
  have "dropWhile space_chunk (rune_chunks (m @ t)) = rune_chunks (m @ t)"
    unfolding rc x using TrimSpace_first [OF assms(2) x] by simp
  moreover have "dropWhile space_chunk (rev (rune_chunks (m @ t))) = rev (rune_chunks (m @ t))"
    using assms(5,6) by (intro dropWhile_hd) (auto simp: rc hd_append hd_rev last_map space_chunk_def)
  ultimately show ?thesis by (simp add: TrimSpace_def concat_rune_chunks)
qed

lemma finalOperation_ok_final:
  assumes "ValidString m" and "TrimSpace m = m" and "m \<noteq> []" and "len m \<le> 1024"
  shows "finalOperation_ok (m @ '':final'')"
proof -
  have a: "ascii '':final''" by (simp add: ascii_def)
  have "TrimSpace (m @ '':final'') = m @ '':final''"
    by (rule TrimSpace_append [OF assms(1-3) a]) (simp_all add: IsSpace_def)
  moreover have "ValidString (m @ '':final'')"
    using ValidString_append [OF assms(1), of "'':final''"] ValidString_ascii [OF a] by simp
  ultimately show ?thesis using assms(4) by (simp add: finalOperation_ok_def maxAnchor_def)
qed

lemma rows_ok_inserts:
  assumes "rows_ok (xs @ ys)" and "length (xs @ ys) + length parts \<le> 512"
    and "\<forall>x\<in>set parts. historyItem_ok x"
  shows "rows_ok (xs @ map (\<lambda>x. (x, [], ''final'', m)) parts @ ys)"
  using assms by (auto simp: rows_ok_def historyKinds_def comp_def)

lemma RestoreFinal_new:
  assumes "history_ok c" and "finals_ok c" and "RestoreFinal m f c = Some (Inr d)"
    and "existingFinal c m = []"
  shows "history_ok d \<and> finals_ok d \<and> existingFinal d m = f"
proof -
  from assms(3) have m: "m \<noteq> []" "TrimSpace m = m" "len m \<le> 1024" "ValidString m" and f: "f \<noteq> []" "ValidString f"
    by (auto simp: RestoreFinal_def split: if_splits)
  have al: "aligned c" using assms(1) by (rule history_ok_aligned)
  define operation where "operation = m @ '':final''"
  from splitFinal_valid [OF f(2)] obtain parts where parts: "splitFinal f = Some parts" "concat parts = f"
    "\<forall>x\<in>set parts. historyItem_ok x" by blast
  from assms(3,4) m f parts(1) existingFinal_rows(2) [OF al m(1)] obtain b e where
    b: "EnsureRoomAfterPrompt m (length parts) c = Inr b" and e: "insertFinals m parts b = Inr e"
    and d: "d = (if operation \<in> set (elems (c_PendingFinalOperations c)) then e
                 else e\<lparr>c_PendingFinalOperations := push operation (PendingFinalsAfter e [])\<rparr>)"
    and room: "operation \<notin> set (elems (c_PendingFinalOperations c)) \<Longrightarrow>
                 length (elems (c_PendingFinalOperations c)) < 512"
    by (auto simp: RestoreFinal_def Let_def operation_def split: if_splits sum.splits)
  from al b obtain a A where a: "anchorIndex c m = Some a" "rows b = nths (rows c) (- A)" "aligned b"
    "length (rows b) + length parts \<le> 512" "0 < length parts"
    "c_PendingFinalOperations b = c_PendingFinalOperations c"
    by (rule EnsureRoom_rows) blast
  from e a(5) obtain i where i: "rows_prompt m (rows b) = Some i"
    using promptIndex_rows [OF a(3) m(1)]
    by (cases parts) (auto simp: history_InsertAfterPrompt_def result_simps split: option.splits)
  from insertFinals_rows [OF a(3) m(1) i, of parts] e have r: "aligned e"
    "rows e = take (Suc i) (rows b) @ map (\<lambda>x. (x, [], ''final'', m)) parts @ drop (Suc i) (rows b)"
    "c_PendingFinalOperations e = c_PendingFinalOperations b" by auto
  have "rows_ok (take (Suc i) (rows b) @ drop (Suc i) (rows b))"
    using rows_ok_nths assms(1) a(2) by (simp add: history_ok_rows)
  then have "rows_ok (rows e)" unfolding r(2) using parts(3) a(4) by (intro rows_ok_inserts) simp_all
  then have he: "history_ok e" using r(1) by (simp add: history_ok_rows)
  have none: "\<not> final_row m x" if "x \<in> set (rows b)" for x
  proof
    assume "final_row m x"
    moreover have x: "x \<in> set (rows c)" using that a(2) set_nths_subset [of "rows c" "- A"] by auto
    ultimately have "row_item x \<in> set (map row_item (filter (final_row m) (rows c)))" by simp
    moreover have "\<forall>y\<in>set (map row_item (filter (final_row m) (rows c))). y = []"
      using assms(4) unfolding existingFinal_rows(1) [OF al m(1)] by (simp only: concat_eq_Nil_conv)
    ultimately have "row_item x = []" by blast
    moreover have "historyItem_ok (row_item x)" using assms(1) x by (simp add: history_ok_rows rows_ok_def)
    ultimately show False by (simp add: historyItem_ok_def)
  qed
  have fin: "filter (final_row m) (map (\<lambda>x. (x, [], ''final'', m)) parts) = map (\<lambda>x. (x, [], ''final'', m)) parts"
    by (simp add: filter_map comp_def final_row_def)
  have t0: "filter (final_row m) (take k (rows b)) = []" "filter (final_row m) (drop k (rows b)) = []" for k
    using none by (auto simp: filter_empty_conv dest: in_set_takeD in_set_dropD)
  have "filter (final_row m) (rows e) = map (\<lambda>x. (x, [], ''final'', m)) parts"
    unfolding r(2) filter_append fin t0 by simp
  then have ee: "existingFinal e m = f"
    using existingFinal_rows(1) [OF r(1) m(1)] parts(2) by (simp add: comp_def)
  have "history_ok d" "existingFinal d m = f"
    using he ee d by (auto simp: history_ok_def existingFinal_def finalIndexes_def)
  moreover have "finals_ok d"
    using assms(2) d r(3) a(6) room finalOperation_ok_final [OF m(4,2,1,3)]
    by (auto simp: finals_ok_def PendingFinalsAfter_def operation_def)
  ultimately show ?thesis by simp
qed

lemma filter_eq_Nil: "filter (\<lambda>x. f x = y) xs = [] \<longleftrightarrow> y \<notin> set (map f xs)"
  by (auto simp: filter_empty_conv)

lemma unique_key:
  assumes "rows_ok (xs @ r # ys)" and "row_key r \<noteq> []"
  shows "filter (\<lambda>x. row_key x = row_key r) (xs @ r # ys) = [r]"
proof -
  have "row_key r \<notin> set (map row_key xs)" "row_key r \<notin> set (map row_key ys)"
    using assms by (auto simp: rows_ok_def)
  then show ?thesis unfolding filter_eq_Nil [symmetric] by simp
qed

section \<open>A sample card\<close>

definition sample_card :: Card where
  "sample_card = zeroCard\<lparr>c_SessionID := ''s'',
     c_Page := \<lparr>p_Current = 1, p_Total = 1, p_Anchor = [], p_FollowLatest = True\<rparr>,
     c_History := Some [''ask''], c_HistoryKeys := Some [''m1'']\<rparr>"

definition sample_event :: Card where
  "sample_event = sample_card\<lparr>c_History := Some [''ask'', ''out''],
     c_HistoryKeys := Some [''m1'', eventKey ''m1'' ''e1''],
     c_HistoryKinds := Some [[], ''tool''], c_HistoryTurnKeys := Some [[], ''m1'']\<rparr>"

definition sample_final :: Card where
  "sample_final = sample_card\<lparr>c_History := Some [''ask'', ''done''],
     c_HistoryKeys := Some [''m1'', []],
     c_HistoryKinds := Some [[], ''final''], c_HistoryTurnKeys := Some [[], ''m1''],
     c_PendingFinalOperations := Some [''m1:final'']\<rparr>"

definition sample_state :: "Carrier \<Rightarrow> u64 \<Rightarrow> State" where
  "sample_state carrier revision =
     New\<lparr>u_Cards := Some (fmupd ''s''
       (sample_card\<lparr>c_Carrier := carrier, c_CarrierRevision := revision\<rparr>) fmempty)\<rparr>"

lemmas ascii_simps = ascii_def ValidString_ascii TrimSpace_ascii IsSpace_def

lemmas card_simps =
  sample_card_def sample_event_def sample_final_def zeroCard_def makeStrings_def push_def
  history_ok_def finals_ok_def column_ok_def historyItem_ok_def historyKey_ok_def historyKinds_def
  finalOperation_ok_def maxAnchor_def maxEntries_def rows_def column_def

lemmas insert_simps =
  limit_InsertAfterPrompt_def EnsureRoomAfterPrompt_def history_InsertAfterPrompt_def
  promptIndex_def anchorIndex_def misaligned_def insertAt_def onColumn_def

lemma eventKey_neq: "length x \<noteq> 78 \<Longrightarrow> x \<noteq> eventKey p e"
  by (auto simp: eventKey_def)

lemma sample_card_ok: "history_ok sample_card" "finals_ok sample_card"
  by (simp_all add: card_simps ascii_simps)

lemma sample_items: "historyItem_ok ''out''" "historyItem_ok ''done''"
  by (simp_all add: card_simps ascii_simps)

lemma sample_insert: "limit_InsertAfterPrompt ''m1'' ''out'' ''tool'' sample_card =
    Inr (sample_event\<lparr>c_HistoryKeys := Some [''m1'', []]\<rparr>)"
  by (simp add: card_simps insert_simps)

lemma sample_runtime: "InsertRuntimeEvent ''m1'' ''e1'' ''out'' ''tool'' sample_card = Inr sample_event"
  using sample_insert eventKey_neq [of "''m1''" "''m1''" "''e1''"]
  by (simp add: InsertRuntimeEvent_def Let_def ascii_simps) (simp add: card_simps)

lemma sample_restore: "RestoreFinal ''m1'' ''done'' sample_card = Some (Inr sample_final)"
proof -
  have "splitFinal ''done'' = Some [''done'']"
    by (subst splitFinal.simps, subst splitFinal.simps) (simp add: ascii_simps Let_def eval_nat_numeral)
  then show ?thesis
    by (simp add: RestoreFinal_def Let_def ascii_simps card_simps insert_simps existingFinal_def
        finalIndexes_def PendingFinalsAfter_def copySlice_def)
qed

lemma sample_page: "Page_validate (c_Page sample_card) = Inr ()" "validateOperation [] = Inr ()" "\<not> blank ''s''"
  by (simp_all add: Page_validate_def validateOperation_def containsBreak_def maxPages_def card_simps
      blank_def ascii_simps)

lemma sample_card_valid:
  "Carrier_validate carrier = Inr () \<Longrightarrow>
     card_ok ''s'' (sample_card\<lparr>c_Carrier := carrier, c_CarrierRevision := revision\<rparr>)"
  using sample_card_ok sample_page
  by (simp add: card_ok_def history_ok_def finals_ok_def) (simp add: sample_card_def zeroCard_def)

lemma sample_state_valid:
  "Carrier_validate carrier = Inr () \<Longrightarrow> Validate (sample_state carrier revision) = Inr ()"
  using sample_card_valid
  by (simp add: Validate_iff sample_state_def New_def cardsOf_def selection_ok_def validateSelection_def)

lemma sample_setCard:
  "setCard_step (sample_state zeroCarrier 0)
     (sample_card\<lparr>c_Carrier := \<lparr>ChatID = 1, MessageID = 2\<rparr>\<rparr>)
     (sample_state \<lparr>ChatID = 1, MessageID = 2\<rparr> 1)"
proof -
  let ?new = "sample_card\<lparr>c_Carrier := \<lparr>ChatID = 1, MessageID = 2\<rparr>, c_CarrierRevision := 1\<rparr>"
  have v: "Validate \<lparr>u_Version = FormatVersion, u_SelectedNode = [], u_ActiveSession = [],
      u_ActiveSessions = fmempty, u_RecentSessions = fmempty, u_ScreenEnabled = False,
      u_Cards = Some (fmupd ''s'' ?new fmempty)\<rparr> = Inr ()"
    using sample_state_valid [of "\<lparr>ChatID = 1, MessageID = 2\<rparr>" 1]
    by (simp add: sample_state_def New_def Carrier_validate_def)
  have s: "c_SessionID sample_card = ''s''" "c_PendingFinalOperations sample_card = None"
    by (simp_all add: sample_card_def zeroCard_def)
  have same: "fmupd ''s'' x (fmupd ''s'' y fmempty) = fmupd ''s'' x fmempty" for x y :: Card
    by (rule fmap_ext) simp
  have pend: "sample_card\<lparr>c_Carrier := a, c_CarrierRevision := r, c_PendingFinalOperations := None\<rparr> =
      sample_card\<lparr>c_Carrier := a, c_CarrierRevision := r\<rparr>" for a r
    by (simp add: sample_card_def zeroCard_def)
  show ?thesis
    using v s sample_page(3)
    by (simp add: setCard_step_def SetCard_def Let_def sample_state_def New_def cardsOf_def
        zeroCarrier_def maxUint64_def PendingFinalsAfter_def copySlice_def same pend)
qed

section \<open>Properties\<close>

text \<open>
  C28. An event with an identity is stored once: after \<open>InsertRuntimeEvent\<close> succeeds the history is
  valid, one row carries the key of the event, repeating the call changes nothing, and a call that
  reuses the identity for another text or kind is refused.
\<close>

theorem runtime_event_once:
  assumes "history_ok c" and "historyItem_ok item" and "InsertRuntimeEvent p e item kind c = Inr d"
  shows "history_ok d \<and>
    filter (\<lambda>r. row_key r = eventKey p e) (rows d) = [(item, eventKey p e, kind, p)] \<and>
    InsertRuntimeEvent p e item kind d = Inr d \<and>
    (\<forall>item' kind'. item' \<noteq> [] \<and> kind' \<in> {''commentary'', ''tool'', ''question'', ''thinking''} \<and>
       (item', kind') \<noteq> (item, kind) \<longrightarrow>
       InsertRuntimeEvent p e item' kind' d =
         Inl ''runtime event identity conflicts with retained history'')"
proof -
  have args: "p \<noteq> []" "e \<noteq> []" "len e \<le> 512" "ValidString e" "item \<noteq> []"
    "kind \<in> {''commentary'', ''tool'', ''question'', ''thinking''}"
    using assms(3) by (auto simp: InsertRuntimeEvent_def result_simps)
  have "history_ok d \<and> (\<exists>xs ys. rows d = xs @ (item, eventKey p e, kind, p) # ys)"
  proof (cases "eventKey p e \<in> set (elems (c_HistoryKeys c))")
    case False
    with assms show ?thesis by (rule InsertRuntimeEvent_new) blast
  next
    case True
    then obtain i where i: "indexOf (\<lambda>prior. prior = eventKey p e) (elems (c_HistoryKeys c)) = Some i"
      by (cases "indexOf (\<lambda>prior. prior = eventKey p e) (elems (c_HistoryKeys c))") (auto simp: indexOf_None)
    have al: "aligned c" using assms(1) by (rule history_ok_aligned)
    from assms(3) i have d: "d = c" and lt: "i < length (elems (c_History c))"
      and r: "rows c ! i = (item, eventKey p e, kind, p)"
      using al by (auto simp: InsertRuntimeEvent_def result_simps indexOf_Some rows_nth valueAt_def split: if_splits)
    have "rows c = take i (rows c) @ (item, eventKey p e, kind, p) # drop (Suc i) (rows c)"
      using id_take_nth_drop [of i "rows c"] lt al r by simp
    with d assms(1) show ?thesis by blast
  qed
  then obtain xs ys where ok: "history_ok d" and rd: "rows d = xs @ (item, eventKey p e, kind, p) # ys" by blast
  have row: "length xs < length (rows d)" "rows d ! length xs = (item, eventKey p e, kind, p)"
    by (simp_all add: rd)
  have "filter (\<lambda>r. row_key r = eventKey p e) (rows d) = [(item, eventKey p e, kind, p)]"
    using unique_key [of xs "(item, eventKey p e, kind, p)" ys] ok eventKey_ok(2) [of p e]
    by (simp add: history_ok_rows rd)
  with ok stored_event [OF ok row args(1-4)] args(5,6) show ?thesis by auto
qed

theorem runtime_event_once_witness:
  "InsertRuntimeEvent ''m1'' ''e1'' ''out'' ''tool'' sample_card = Inr sample_event \<and>
   history_ok sample_event \<and>
   InsertRuntimeEvent ''m1'' ''e1'' ''out'' ''tool'' sample_event = Inr sample_event"
  using runtime_event_once [OF sample_card_ok(1) sample_items(1) sample_runtime] sample_runtime by blast

text \<open>
  C29. Recovered final answers: on a card with a valid history \<open>RestoreFinal\<close> always returns, the
  loop that cuts the answer included. When it succeeds, the card is valid, the entries of the turn
  marked final spell exactly the answer, and from then on the same answer is accepted without a
  change while any other is refused.
\<close>

theorem restore_final_once:
  assumes "history_ok c" and "finals_ok c"
  shows "\<exists>r. RestoreFinal m f c = Some r \<and>
    (\<forall>d. r = Inr d \<longrightarrow> history_ok d \<and> finals_ok d \<and> existingFinal d m = f \<and>
       (\<forall>g. g \<noteq> [] \<and> ValidString g \<and> len g \<le> 32768 \<longrightarrow>
          RestoreFinal m g d = Some (if g = f then Inr d else Inl ErrFinalConflict)))"
proof -
  have total: "\<exists>r. RestoreFinal m f c = Some r"
    using splitFinal_valid [of f] by (auto simp: RestoreFinal_def Let_def)
  have "history_ok d \<and> finals_ok d \<and> existingFinal d m = f \<and>
      (\<forall>g. g \<noteq> [] \<and> ValidString g \<and> len g \<le> 32768 \<longrightarrow>
         RestoreFinal m g d = Some (if g = f then Inr d else Inl ErrFinalConflict))"
    if d: "RestoreFinal m f c = Some (Inr d)" for d
  proof -
    have args: "m \<noteq> []" "TrimSpace m = m" "len m \<le> 1024" "ValidString m" "f \<noteq> []"
      using d by (auto simp: RestoreFinal_def split: if_splits)
    have ok: "history_ok d \<and> finals_ok d \<and> existingFinal d m = f"
    proof (cases "existingFinal c m = []")
      case True
      with assms d show ?thesis by (intro RestoreFinal_new)
    next
      case False
      with assms d show ?thesis by (auto simp: RestoreFinal_def split: if_splits)
    qed
    then have "\<not> list_ex (\<lambda>i. length (elems (c_History d)) \<le> i) (finalIndexes d m)"
      using existingFinal_rows(2) [OF history_ok_aligned args(1), of d] by simp
    with ok args show ?thesis by (auto simp: RestoreFinal_def)
  qed
  with total show ?thesis by blast
qed

theorem restore_final_once_witness:
  "RestoreFinal ''m1'' ''done'' sample_card = Some (Inr sample_final) \<and>
   existingFinal sample_final ''m1'' = ''done'' \<and>
   RestoreFinal ''m1'' ''other'' sample_final = Some (Inl ErrFinalConflict)"
  using restore_final_once [OF sample_card_ok, of "''m1''" "''done''"] sample_restore
  by (simp add: ascii_simps)

text \<open>
  C30. The bounded insert puts an event directly behind the last entry of its turn and keeps the
  history at 512 entries at most. What it evicts for that is exactly one entry of a full history,
  and never the anchor of the turn, a final answer that waits for delivery, a prompt that is newer
  than the anchor, or a prompt whose final answer waits for delivery.
\<close>

theorem bounded_insert_spares:
  assumes "history_ok c" and "p \<noteq> []" and "historyItem_ok item" and "kind \<in> set historyKinds"
    and "limit_InsertAfterPrompt p item kind c = Inr d"
  shows "\<exists>a A i. anchorIndex c p = Some a \<and> card A = (if length (rows c) = 512 then 1 else 0) \<and>
    rows_prompt p (nths (rows c) (- A)) = Some i \<and>
    rows d = take (Suc i) (nths (rows c) (- A)) @ (item, [], kind, p) # drop (Suc i) (nths (rows c) (- A)) \<and>
    length (rows d) \<le> 512 \<and> history_ok d \<and>
    (\<forall>j\<in>A. j < length (rows c) \<and> j \<noteq> a \<and>
       \<not> (row_kind (rows c ! j) = ''final'' \<and> pendingFinal c (row_turn (rows c ! j))) \<and>
       (prompt_row (rows c ! j) \<longrightarrow>
          j < a \<and> row_key (rows c ! j) \<noteq> p \<and> \<not> pendingFinal c (row_key (rows c ! j))))"
proof -
  have al: "aligned c" and ok: "rows_ok (rows c)" using assms(1) by (simp_all add: history_ok_rows)
  from al assms(2,5) obtain a A kept i where k: "anchorIndex c p = Some a" "kept = nths (rows c) (- A)"
    "A \<subseteq> {..<length (rows c)}" "\<And>i. i \<in> A \<Longrightarrow> evictClass c p a i \<noteq> Retained"
    "card A = length (rows c) + 1 - 512" "rows_prompt p kept = Some i"
    "rows d = take (Suc i) kept @ (item, [], kind, p) # drop (Suc i) kept" "length kept < 512"
    by (rule limit_Insert_rows) blast
  have "length (rows c) \<le> 512" using ok by (simp add: rows_ok_def)
  then have A: "card A = (if length (rows c) = 512 then 1 else 0)" using k(5) by auto
  have "length (rows d) \<le> 512" using k(7,8) by simp
  moreover have "history_ok d" by (rule limit_Insert_ok [OF assms])
  moreover have "\<forall>j\<in>A. j < length (rows c) \<and> j \<noteq> a \<and>
       \<not> (row_kind (rows c ! j) = ''final'' \<and> pendingFinal c (row_turn (rows c ! j))) \<and>
       (prompt_row (rows c ! j) \<longrightarrow>
          j < a \<and> row_key (rows c ! j) \<noteq> p \<and> \<not> pendingFinal c (row_key (rows c ! j)))"
  proof
    fix j assume "j \<in> A"
    then have j: "j < length (rows c)" "evictClass c p a j \<noteq> Retained" using k(3,4) by auto
    from evictClass_spares [OF al assms(2) k(1) j] j(1)
    show "j < length (rows c) \<and> j \<noteq> a \<and>
       \<not> (row_kind (rows c ! j) = ''final'' \<and> pendingFinal c (row_turn (rows c ! j))) \<and>
       (prompt_row (rows c ! j) \<longrightarrow>
          j < a \<and> row_key (rows c ! j) \<noteq> p \<and> \<not> pendingFinal c (row_key (rows c ! j)))"
      by blast
  qed
  ultimately show ?thesis using k(1,2,6,7) A by blast
qed

theorem bounded_insert_spares_witness:
  "\<exists>d. limit_InsertAfterPrompt ''m1'' ''out'' ''tool'' sample_card = Inr d \<and> history_ok d \<and>
     length (rows d) \<le> 512"
  using bounded_insert_spares [OF sample_card_ok(1) _ sample_items(1) _ sample_insert] sample_insert
  by (auto simp: historyKinds_def)

text \<open>
  C31. Appending to a valid history never fails and appends one row, dropping the oldest entries
  when there are 512; the row carries the given kind unless it is the first of the card.
\<close>

theorem append_history:
  assumes "history_ok c" and "historyItem_ok item" and "kind \<in> set historyKinds"
  shows "\<exists>d. history_Append item kind c = Inr d \<and> history_ok d \<and>
    rows d = drop (length (rows c) - 511) (rows c) @ [(item, [], if rows c = [] then [] else kind, [])]"
proof -
  have al: "aligned c" and ok: "rows_ok (rows c)" using assms(1) by (simp_all add: history_ok_rows)
  define k where "k = length (rows c) - 511"
  have k: "(if length (rows c) \<ge> 512 then drop (length (rows c) - 511) (rows c) else rows c) = drop k (rows c)"
    by (simp add: k_def)
  from history_Append_rows [OF al, of item kind] obtain d where d: "history_Append item kind c = Inr d"
    "aligned d" "rows d = drop k (rows c) @ [(item, [], if rows c = [] then [] else kind, [])]"
    unfolding k by blast
  have "rows_ok (drop k (rows c) @ [])" using rows_ok_drop [OF ok] by simp
  then have "rows_ok (rows d)"
    unfolding d(3) using assms(2,3) ok
    by (intro rows_ok_insert) (auto simp: historyKinds_def k_def rows_ok_def)
  with d show ?thesis by (auto simp: history_ok_rows k_def)
qed

theorem append_history_witness:
  "history_ok sample_card \<and>
   (\<exists>d. history_Append ''out'' ''tool'' sample_card = Inr d \<and> history_ok d \<and>
      rows d = [(''ask'', ''m1'', [], []), (''out'', [], ''tool'', [])])"
  using append_history [OF sample_card_ok(1) sample_items(1), of "''tool''"] sample_card_ok(1)
  by (auto simp: card_simps)

text \<open>
  C36. A card appended to for the first time loses the kind of the entry: the tool event, thinking
  or answer is stored without metadata, so that hiding technical entries does not hide it.
\<close>

theorem append_first_kind_lost:
  assumes "elems (c_History c) = []" and "elems (c_HistoryKinds c) = []" and "elems (c_HistoryKeys c) = []"
    and "item \<noteq> legacyNotice"
  shows "\<exists>d. history_Append item kind c = Inr d \<and> elems (c_History d) = [item] \<and>
    elems (c_HistoryKinds d) = [] \<and> map bl_Text (Blocks d False) = [item]"
  using assms
  by (auto simp: history_Append_def evictOldest_def maxEntries_def Let_def Blocks_def blockKind_def
      valueAt_def blockAt_def)

theorem append_first_kind_lost_witness:
  "\<exists>d. history_Append ''ls -l'' ''tool'' zeroCard = Inr d \<and> elems (c_HistoryKinds d) = [] \<and>
     map bl_Text (Blocks d False) = [''ls -l'']"
  using append_first_kind_lost [of zeroCard "''ls -l''" "''tool''"]
  by (auto simp: zeroCard_def legacyNotice_def)

text \<open>
  C32. The revision of a card identifies its carrier: over any sequence of card replacements that
  starts in a valid state the state stays valid, no revision goes back, and when a revision is the
  same at two moments the card has had the same carrier at both.
\<close>

theorem carrier_fence:
  assumes "Validate s = Inr ()" and "run setCard_step s cs t"
  shows "Validate t = Inr () \<and>
    (let before = valueOr zeroCard (cardsOf s) ident; after = valueOr zeroCard (cardsOf t) ident in
     c_CarrierRevision before \<le> c_CarrierRevision after \<and>
     (c_CarrierRevision before = c_CarrierRevision after \<longrightarrow> c_Carrier before = c_Carrier after))"
  using cards.run_inv [OF assms(2,1)] cards.run_ord [OF assms(2,1)]
  by (simp add: carrier_le_def Let_def)

theorem carrier_fence_witness:
  "Validate (sample_state zeroCarrier 0) = Inr () \<and>
   Validate (sample_state \<lparr>ChatID = 1, MessageID = 2\<rparr> 1) = Inr ()"
proof -
  have v: "Validate (sample_state zeroCarrier 0) = Inr ()"
    by (rule sample_state_valid) (simp add: Carrier_validate_def zeroCarrier_def)
  with carrier_fence [OF v run_Cons [where step = setCard_step, OF sample_setCard run_Nil]]
  show ?thesis by blast
qed

end
