(* ===== verification/Checkpoint.thy ===== *)
theory Checkpoint
  imports Prelude
begin

text \<open>
  The checkpoint of the coordinator: its data (\<^verbatim>\<open>src/internal/coordinator/loop.go\<close>), the two
  validations that the coordinator and the store write out separately, and its stored form
  (\<^verbatim>\<open>src/internal/storage/coordinator_checkpoint_store.go\<close>). Slices whose \<open>nil\<close> value
  \<^verbatim>\<open>reflect.DeepEqual\<close> tells from an empty one are optional lists; a keyboard is a pointer to a slice
  of rows, each row again a slice.
\<close>

section \<open>Data\<close>

record KeyboardButton =
  kb_Text :: string
  kb_CallbackData :: string

type_synonym KeyboardMarkup = "KeyboardButton slice slice"

record Status =
  st_ScreenSessionID :: string
  st_ConversationID :: int
  st_Text :: string
  st_RichMarkdown :: bool
  st_CallbackQueryID :: string
  st_SourceMessageID :: int

record Receipt =
  rc_MessageID :: int

record DurableOutboundReceipt =
  dr_OperationID :: string
  dr_Sequence :: u64

datatype OutboundPhase =
    OutboundPrepared | OutboundUnknown | OutboundEnqueued | OutboundConfirmed
  | OutboundPhaseOther string

record Outbound =
  ob_OperationID :: string
  ob_UpdateID :: int
  ob_Status :: Status
  ob_Keyboard :: "KeyboardMarkup option"
  ob_Phase :: OutboundPhase
  ob_Receipt :: "Receipt option"
  ob_Durable :: "DurableOutboundReceipt option"

record BlockedUpdate =
  bu_UpdateID :: int
  bu_Reason :: string

record RecoveryControl =
  ct_OriginalOperationID :: string
  ct_PromptOperationID :: string
  ct_UpdateID :: int

record Checkpoint =
  cp_Initialized :: bool
  cp_NextUpdateID :: int
  cp_Blocked :: "BlockedUpdate option"
  cp_Outbound :: "Outbound option"
  cp_Recovery :: "RecoveryControl option"

record StoredCheckpoint =
  sc_Revision :: u64
  sc_Checkpoint :: Checkpoint

definition zeroStatus :: Status where
  "zeroStatus = \<lparr>st_ScreenSessionID = [], st_ConversationID = 0, st_Text = [], st_RichMarkdown = False,
     st_CallbackQueryID = [], st_SourceMessageID = 0\<rparr>"

definition zeroCheckpoint :: Checkpoint where
  "zeroCheckpoint = \<lparr>cp_Initialized = False, cp_NextUpdateID = 0, cp_Blocked = None,
     cp_Outbound = None, cp_Recovery = None\<rparr>"

definition zeroStored :: StoredCheckpoint where
  "zeroStored = \<lparr>sc_Revision = 0, sc_Checkpoint = zeroCheckpoint\<rparr>"

section \<open>Copies\<close>

text \<open>
  Values are immutable here, so a copy differs from its source only where the code rebuilds a
  slice: the rows are copied with \<^verbatim>\<open>append([]KeyboardButton(nil), row...)\<close>, which turns an empty row
  into \<open>nil\<close>, and the markup with \<open>make\<close>, which turns \<open>nil\<close> into an empty slice.
\<close>

definition copyRow :: "'a slice \<Rightarrow> 'a slice" where
  "copyRow row = (if elems row = [] then None else row)"

definition cloneKeyboard :: "KeyboardMarkup option \<Rightarrow> KeyboardMarkup option" where
  "cloneKeyboard keyboard = map_option (\<lambda>rows. Some (map copyRow (elems rows))) keyboard"

definition cloneCheckpoint :: "Checkpoint \<Rightarrow> Checkpoint" where
  "cloneCheckpoint c =
     c\<lparr>cp_Outbound := map_option (\<lambda>ob. ob\<lparr>ob_Keyboard := cloneKeyboard (ob_Keyboard ob)\<rparr>) (cp_Outbound c)\<rparr>"

definition store_cloneCheckpoint :: "Checkpoint \<Rightarrow> Checkpoint" where
  "store_cloneCheckpoint c =
     c\<lparr>cp_Outbound := map_option (\<lambda>ob. ob\<lparr>ob_Keyboard := cloneKeyboard (ob_Keyboard ob)\<rparr>) (cp_Outbound c)\<rparr>"

section \<open>Validation by the coordinator\<close>

definition recoverycontrol_Validate :: "RecoveryControl \<Rightarrow> int \<Rightarrow> string + unit" where
  "recoverycontrol_Validate control updateID =
     failIf (ct_UpdateID control \<noteq> updateID \<or> ct_UpdateID control \<le> 0 \<or>
             blank (ct_OriginalOperationID control) \<or> blank (ct_PromptOperationID control) \<or>
             ct_OriginalOperationID control = ct_PromptOperationID control)
       ''recovery control must bind distinct exact operations to its update''"

definition unaccepted :: "Checkpoint \<Rightarrow> RecoveryControl \<Rightarrow> bool" where
  "unaccepted c r \<longleftrightarrow>
     ct_UpdateID r = cp_NextUpdateID c \<and>
     (case cp_Outbound c of
        None \<Rightarrow> True
      | Some ob \<Rightarrow>
          ob_OperationID ob \<noteq> ct_PromptOperationID r \<or> ob_UpdateID ob \<noteq> ct_UpdateID r \<or>
          (ob_Phase ob \<noteq> OutboundPrepared \<and> ob_Phase ob \<noteq> OutboundUnknown))"

definition loop_validateOutbound :: "Checkpoint \<Rightarrow> Outbound \<Rightarrow> string + unit" where
  "loop_validateOutbound c ob =
     bindE (failIf (blank (ob_OperationID ob) \<or> ob_UpdateID ob \<le> 0 \<or> st_ConversationID (ob_Status ob) \<le> 0 \<or>
                    blank (st_Text (ob_Status ob))) ''invalid outbound operation'') (\<lambda>_.
     case ob_Phase ob of
       OutboundPrepared \<Rightarrow>
         failIf (ob_Receipt ob \<noteq> None \<or> ob_Durable ob \<noteq> None \<or> ob_UpdateID ob < cp_NextUpdateID c)
           ''unresolved outbound has invalid receipt or offset''
     | OutboundUnknown \<Rightarrow>
         failIf (ob_Receipt ob \<noteq> None \<or> ob_Durable ob \<noteq> None \<or> ob_UpdateID ob < cp_NextUpdateID c)
           ''unresolved outbound has invalid receipt or offset''
     | OutboundEnqueued \<Rightarrow>
         failIf (ob_Receipt ob \<noteq> None \<or>
                 (case ob_Durable ob of None \<Rightarrow> True
                  | Some d \<Rightarrow> dr_OperationID d \<noteq> ob_OperationID ob \<or> dr_Sequence d = 0) \<or>
                 ob_UpdateID ob = maxInt64 \<or> cp_NextUpdateID c \<le> ob_UpdateID ob)
           ''enqueued outbound has invalid durable receipt or offset''
     | OutboundConfirmed \<Rightarrow>
         failIf ((case ob_Receipt ob of None \<Rightarrow> True | Some r \<Rightarrow> rc_MessageID r \<le> 0) \<or>
                 ob_Durable ob \<noteq> None \<or> ob_UpdateID ob = maxInt64 \<or> cp_NextUpdateID c \<le> ob_UpdateID ob)
           ''confirmed outbound has invalid receipt or offset''
     | OutboundPhaseOther _ \<Rightarrow> Inl ''unsupported outbound phase'')"

definition loop_validateCheckpoint :: "Checkpoint \<Rightarrow> string + unit" where
  "loop_validateCheckpoint c =
     bindE (failIf (\<not> cp_Initialized c \<or> cp_NextUpdateID c < 0)
              ''initialized checkpoint and non-negative next update id are required'') (\<lambda>_.
     bindE (case cp_Blocked c of
              None \<Rightarrow> Inr ()
            | Some b \<Rightarrow>
                failIf (bu_UpdateID b \<le> 0 \<or> bu_UpdateID b < cp_NextUpdateID c \<or> blank (bu_Reason b))
                  ''invalid blocked update'') (\<lambda>_.
     bindE (case cp_Recovery c of
              None \<Rightarrow> Inr ()
            | Some r \<Rightarrow>
                bindE (recoverycontrol_Validate r (ct_UpdateID r)) (\<lambda>_.
                bindE (failIf (ct_UpdateID r > cp_NextUpdateID c)
                         ''recovery update exceeds checkpoint offset'') (\<lambda>_.
                failIf (unaccepted c r) ''recovery control has not been durably accepted''))) (\<lambda>_.
     case cp_Outbound c of None \<Rightarrow> Inr () | Some ob \<Rightarrow> loop_validateOutbound c ob)))"

definition validateStored :: "StoredCheckpoint \<Rightarrow> string + unit" where
  "validateStored stored =
     bindE (failIf (sc_Revision stored = 0) ''stored revision must be positive'') (\<lambda>_.
     loop_validateCheckpoint (sc_Checkpoint stored))"

section \<open>Validation by the store\<close>

definition store_validateOutbound :: "Checkpoint \<Rightarrow> Outbound \<Rightarrow> string + unit" where
  "store_validateOutbound c ob =
     bindE (failIf (blank (ob_OperationID ob)) ''outbound operation id is required'') (\<lambda>_.
     bindE (failIf (ob_UpdateID ob \<le> 0) ''outbound update id must be positive'') (\<lambda>_.
     bindE (failIf (st_ConversationID (ob_Status ob) \<le> 0)
              ''outbound conversation id must be positive'') (\<lambda>_.
     bindE (failIf (blank (st_Text (ob_Status ob))) ''outbound status text is required'') (\<lambda>_.
     if ob_Phase ob = OutboundPrepared \<or> ob_Phase ob = OutboundUnknown then
       failIf (ob_Receipt ob \<noteq> None \<or> ob_Durable ob \<noteq> None \<or> ob_UpdateID ob < cp_NextUpdateID c)
         ''outbound phase has invalid receipt or offset''
     else if ob_Phase ob = OutboundEnqueued then
       failIf (ob_Receipt ob \<noteq> None \<or>
               (case ob_Durable ob of None \<Rightarrow> True
                | Some d \<Rightarrow> dr_OperationID d \<noteq> ob_OperationID ob \<or> dr_Sequence d = 0) \<or>
               ob_UpdateID ob = maxInt64 \<or> cp_NextUpdateID c \<le> ob_UpdateID ob)
         ''enqueued outbound requires an exact durable receipt and advanced offset''
     else if ob_Phase ob = OutboundConfirmed then
       failIf ((case ob_Receipt ob of None \<Rightarrow> True | Some r \<Rightarrow> rc_MessageID r \<le> 0) \<or>
               ob_Durable ob \<noteq> None \<or> ob_UpdateID ob = maxInt64 \<or> cp_NextUpdateID c \<le> ob_UpdateID ob)
         ''confirmed outbound requires a positive receipt and advanced offset''
     else Inl ''unsupported outbound phase''))))"

definition store_validateCheckpoint :: "Checkpoint \<Rightarrow> string + unit" where
  "store_validateCheckpoint c =
     bindE (failIf (\<not> cp_Initialized c) ''checkpoint must be initialized'') (\<lambda>_.
     bindE (failIf (cp_NextUpdateID c < 0) ''next update id must not be negative'') (\<lambda>_.
     bindE (case cp_Blocked c of
              None \<Rightarrow> Inr ()
            | Some b \<Rightarrow>
                bindE (failIf (bu_UpdateID b \<le> 0 \<or> bu_UpdateID b < cp_NextUpdateID c)
                         ''blocked update id must not precede next update id'') (\<lambda>_.
                failIf (blank (bu_Reason b)) ''blocked update reason is required'')) (\<lambda>_.
     bindE (case cp_Recovery c of
              None \<Rightarrow> Inr ()
            | Some r \<Rightarrow>
                bindE (failIf (ct_UpdateID r \<le> 0 \<or> blank (ct_OriginalOperationID r) \<or>
                               blank (ct_PromptOperationID r) \<or>
                               ct_OriginalOperationID r = ct_PromptOperationID r \<or>
                               ct_UpdateID r > cp_NextUpdateID c) ''recovery control is invalid'') (\<lambda>_.
                failIf (unaccepted c r) ''recovery control has not been durably accepted'')) (\<lambda>_.
     case cp_Outbound c of None \<Rightarrow> Inr () | Some ob \<Rightarrow> store_validateOutbound c ob))))"

section \<open>Stored form\<close>

text \<open>
  The records of the state document. The phase is stored as its string; the keyboard is a slice of
  rows, absent when \<open>nil\<close>.
\<close>

record receiptRecord =
  rr_MessageID :: int

record durableOutboundReceiptRecord =
  dd_OperationID :: string
  dd_Sequence :: u64

record keyboardButtonRecord =
  kr_Text :: string
  kr_CallbackData :: string

record statusRecord =
  sr_ScreenSessionID :: string
  sr_ConversationID :: int
  sr_Text :: string
  sr_RichMarkdown :: bool
  sr_CallbackQueryID :: string
  sr_SourceMessageID :: int

record outboundOperationRecord =
  or_OperationID :: string
  or_UpdateID :: int
  or_Status :: statusRecord
  or_Keyboard :: "keyboardButtonRecord slice slice"
  or_Phase :: OutboundPhase
  or_Receipt :: "receiptRecord option"
  or_Durable :: "durableOutboundReceiptRecord option"

record blockedUpdateRecord =
  br_UpdateID :: int
  br_Reason :: string

record recoveryControlRecord =
  vr_OriginalOperationID :: string
  vr_PromptOperationID :: string
  vr_UpdateID :: int

record coordinatorRecord =
  cr_Version :: int
  cr_Revision :: u64
  cr_Initialized :: bool
  cr_NextUpdateID :: int
  cr_Blocked :: "blockedUpdateRecord option"
  cr_Outbound :: "outboundOperationRecord option"
  cr_Recovery :: "recoveryControlRecord option"

definition coordinatorCheckpointFormatVersion :: int where
  "coordinatorCheckpointFormatVersion = 1"

definition recordFromOutbound :: "Outbound \<Rightarrow> outboundOperationRecord" where
  "recordFromOutbound ob =
     \<lparr>or_OperationID = ob_OperationID ob, or_UpdateID = ob_UpdateID ob,
      or_Status = \<lparr>sr_ScreenSessionID = st_ScreenSessionID (ob_Status ob),
        sr_ConversationID = st_ConversationID (ob_Status ob), sr_Text = st_Text (ob_Status ob),
        sr_RichMarkdown = st_RichMarkdown (ob_Status ob),
        sr_CallbackQueryID = st_CallbackQueryID (ob_Status ob),
        sr_SourceMessageID = st_SourceMessageID (ob_Status ob)\<rparr>,
      or_Keyboard = map_option (\<lambda>rows.
         map (\<lambda>row. Some (map (\<lambda>b. \<lparr>kr_Text = kb_Text b, kr_CallbackData = kb_CallbackData b\<rparr>)
                            (elems row))) (elems rows)) (ob_Keyboard ob),
      or_Phase = ob_Phase ob,
      or_Receipt = map_option (\<lambda>r. \<lparr>rr_MessageID = rc_MessageID r\<rparr>) (ob_Receipt ob),
      or_Durable = map_option (\<lambda>d. \<lparr>dd_OperationID = dr_OperationID d, dd_Sequence = dr_Sequence d\<rparr>)
                     (ob_Durable ob)\<rparr>"

definition recordFromStoredCheckpoint :: "StoredCheckpoint \<Rightarrow> coordinatorRecord" where
  "recordFromStoredCheckpoint stored =
     (let c = sc_Checkpoint stored in
      \<lparr>cr_Version = coordinatorCheckpointFormatVersion, cr_Revision = sc_Revision stored,
       cr_Initialized = cp_Initialized c, cr_NextUpdateID = cp_NextUpdateID c,
       cr_Blocked = map_option (\<lambda>b. \<lparr>br_UpdateID = bu_UpdateID b, br_Reason = bu_Reason b\<rparr>) (cp_Blocked c),
       cr_Outbound = map_option recordFromOutbound (cp_Outbound c),
       cr_Recovery = map_option (\<lambda>r. \<lparr>vr_OriginalOperationID = ct_OriginalOperationID r,
          vr_PromptOperationID = ct_PromptOperationID r, vr_UpdateID = ct_UpdateID r\<rparr>) (cp_Recovery c)\<rparr>)"

definition outboundFromRecord :: "outboundOperationRecord \<Rightarrow> Outbound" where
  "outboundFromRecord ob =
     \<lparr>ob_OperationID = or_OperationID ob, ob_UpdateID = or_UpdateID ob,
      ob_Status = \<lparr>st_ScreenSessionID = sr_ScreenSessionID (or_Status ob),
        st_ConversationID = sr_ConversationID (or_Status ob), st_Text = sr_Text (or_Status ob),
        st_RichMarkdown = sr_RichMarkdown (or_Status ob),
        st_CallbackQueryID = sr_CallbackQueryID (or_Status ob),
        st_SourceMessageID = sr_SourceMessageID (or_Status ob)\<rparr>,
      ob_Keyboard = map_option (\<lambda>rows.
         Some (map (\<lambda>row. Some (map (\<lambda>b. \<lparr>kb_Text = kr_Text b, kb_CallbackData = kr_CallbackData b\<rparr>)
                                  (elems row))) rows)) (or_Keyboard ob),
      ob_Phase = or_Phase ob,
      ob_Receipt = map_option (\<lambda>r. \<lparr>rc_MessageID = rr_MessageID r\<rparr>) (or_Receipt ob),
      ob_Durable = map_option (\<lambda>d. \<lparr>dr_OperationID = dd_OperationID d, dr_Sequence = dd_Sequence d\<rparr>)
                     (or_Durable ob)\<rparr>"

definition storedCheckpointFromRecord :: "coordinatorRecord \<Rightarrow> string + StoredCheckpoint" where
  "storedCheckpointFromRecord record =
     (let c = \<lparr>cp_Initialized = cr_Initialized record, cp_NextUpdateID = cr_NextUpdateID record,
               cp_Blocked = map_option (\<lambda>b. \<lparr>bu_UpdateID = br_UpdateID b, bu_Reason = br_Reason b\<rparr>)
                              (cr_Blocked record),
               cp_Outbound = map_option outboundFromRecord (cr_Outbound record),
               cp_Recovery = map_option (\<lambda>r. \<lparr>ct_OriginalOperationID = vr_OriginalOperationID r,
                  ct_PromptOperationID = vr_PromptOperationID r, ct_UpdateID = vr_UpdateID r\<rparr>)
                  (cr_Recovery record)\<rparr> in
      bindE (store_validateCheckpoint c) (\<lambda>_.
      bindE (failIf (cr_Revision record = 0) ''persisted checkpoint revision must be positive'') (\<lambda>_.
      Inr \<lparr>sc_Revision = cr_Revision record, sc_Checkpoint = c\<rparr>)))"

text \<open>
  What \<^verbatim>\<open>encoding/json\<close> keeps of a record: a keyboard without rows is left out because of
  \<^verbatim>\<open>omitempty\<close> and decodes as \<open>nil\<close>. Everything else of a record written by
  \<open>recordFromStoredCheckpoint\<close> comes back as it was.
\<close>

definition omitEmpty :: "coordinatorRecord \<Rightarrow> coordinatorRecord" where
  "omitEmpty record =
     record\<lparr>cr_Outbound :=
       map_option (\<lambda>ob. ob\<lparr>or_Keyboard := (if elems (or_Keyboard ob) = [] then None else or_Keyboard ob)\<rparr>)
         (cr_Outbound record)\<rparr>"

section \<open>The two validations agree\<close>

lemma validateOutbound_iff:
  "loop_validateOutbound c ob = Inr u \<longleftrightarrow> store_validateOutbound c ob = Inr u"
  by (cases "ob_Phase ob") (auto simp: loop_validateOutbound_def store_validateOutbound_def result_simps)

lemma validateCheckpoint_iff:
  "loop_validateCheckpoint c = Inr u \<longleftrightarrow> store_validateCheckpoint c = Inr u"
  by (auto simp: loop_validateCheckpoint_def store_validateCheckpoint_def recoverycontrol_Validate_def
      validateOutbound_iff result_simps split: option.splits)

section \<open>Reading back\<close>

text \<open>A keyboard survives when it has rows and none of its rows is empty.\<close>

definition keyboard_ok :: "Checkpoint \<Rightarrow> bool" where
  "keyboard_ok c \<longleftrightarrow>
     (case cp_Outbound c of
        None \<Rightarrow> True
      | Some ob \<Rightarrow>
          (case ob_Keyboard ob of
             None \<Rightarrow> True
           | Some rows \<Rightarrow> elems rows \<noteq> [] \<and> (\<forall>row\<in>set (elems rows). elems row \<noteq> [])))"

text \<open>What the store reads back after writing the copy of a checkpoint.\<close>

definition reread :: "u64 \<Rightarrow> Checkpoint \<Rightarrow> string + StoredCheckpoint" where
  "reread revision c =
     storedCheckpointFromRecord (omitEmpty (recordFromStoredCheckpoint
       \<lparr>sc_Revision = revision, sc_Checkpoint = store_cloneCheckpoint c\<rparr>))"

lemma record_eta [simp]:
  "\<lparr>rc_MessageID = rc_MessageID r\<rparr> = r"
  "\<lparr>dr_OperationID = dr_OperationID d, dr_Sequence = dr_Sequence d\<rparr> = d"
  "\<lparr>kb_Text = kb_Text b, kb_CallbackData = kb_CallbackData b\<rparr> = b"
  "\<lparr>bu_UpdateID = bu_UpdateID u, bu_Reason = bu_Reason u\<rparr> = u"
  "\<lparr>ct_OriginalOperationID = ct_OriginalOperationID c, ct_PromptOperationID = ct_PromptOperationID c,
    ct_UpdateID = ct_UpdateID c\<rparr> = c"
  by simp_all

lemma outbound_roundtrip:
  "outboundFromRecord ((recordFromOutbound ob)\<lparr>or_Keyboard :=
     (if elems (or_Keyboard (recordFromOutbound ob)) = [] then None else or_Keyboard (recordFromOutbound ob))\<rparr>) =
   ob\<lparr>ob_Keyboard := (case ob_Keyboard ob of None \<Rightarrow> None
      | Some rows \<Rightarrow> if elems rows = [] then None
                    else Some (Some (map (\<lambda>row. Some (elems row)) (elems rows))))\<rparr>"
  by (cases ob) (simp add: recordFromOutbound_def outboundFromRecord_def comp_def option.map_comp
      option.map_ident split: option.split)

lemma reread_checkpoint:
  assumes "store_validateCheckpoint c = Inr ()" and "revision \<noteq> 0"
  shows "reread revision c =
    Inr \<lparr>sc_Revision = revision, sc_Checkpoint = c\<lparr>cp_Outbound := map_option (\<lambda>ob. ob\<lparr>ob_Keyboard :=
      (case ob_Keyboard ob of None \<Rightarrow> None
       | Some rows \<Rightarrow> if elems rows = [] then None
                     else Some (Some (map (\<lambda>row. Some (elems row)) (elems rows))))\<rparr>) (cp_Outbound c)\<rparr>\<rparr>"
proof -
  define k where "k = (\<lambda>keyboard :: KeyboardMarkup option. case keyboard of None \<Rightarrow> None
       | Some rows \<Rightarrow> if elems rows = [] then None
                     else Some (Some (map (\<lambda>row. Some (elems row)) (elems rows))))"
  define d where "d = c\<lparr>cp_Outbound := map_option (\<lambda>ob. ob\<lparr>ob_Keyboard := k (ob_Keyboard ob)\<rparr>) (cp_Outbound c)\<rparr>"
  have kk: "k (cloneKeyboard x) = k x" for x
    by (auto simp: k_def cloneKeyboard_def copyRow_def comp_def split: option.split)
  have "store_validateOutbound d ob = store_validateOutbound c ob" for ob
    by (simp add: store_validateOutbound_def d_def)
  moreover have "store_validateOutbound d (ob\<lparr>ob_Keyboard := x\<rparr>) = store_validateOutbound d ob" for ob x
    by (simp add: store_validateOutbound_def cong: if_cong option.case_cong)
  moreover have "unaccepted d r = unaccepted c r" for r
    by (auto simp: unaccepted_def d_def split: option.splits)
  ultimately have "store_validateCheckpoint d = store_validateCheckpoint c"
    by (simp add: store_validateCheckpoint_def d_def option.case_eq_if option.map_sel cong: if_cong)
  moreover have "storedCheckpointFromRecord (omitEmpty (recordFromStoredCheckpoint
       \<lparr>sc_Revision = revision, sc_Checkpoint = store_cloneCheckpoint c\<rparr>)) =
     bindE (store_validateCheckpoint d) (\<lambda>_.
     bindE (failIf (revision = 0) ''persisted checkpoint revision must be positive'') (\<lambda>_.
     Inr \<lparr>sc_Revision = revision, sc_Checkpoint = d\<rparr>))"
  proof -
    have "map_option outboundFromRecord (map_option (\<lambda>ob. ob\<lparr>or_Keyboard :=
            (if elems (or_Keyboard ob) = [] then None else or_Keyboard ob)\<rparr>)
            (map_option recordFromOutbound (map_option (\<lambda>ob. ob\<lparr>ob_Keyboard := cloneKeyboard (ob_Keyboard ob)\<rparr>)
              (cp_Outbound c)))) = cp_Outbound d"
      by (simp add: option.map_comp comp_def outbound_roundtrip d_def kk flip: k_def)
    then show ?thesis
      by (cases c) (simp add: storedCheckpointFromRecord_def omitEmpty_def recordFromStoredCheckpoint_def
          store_cloneCheckpoint_def Let_def option.map_comp comp_def d_def option.map_ident)
  qed
  ultimately show ?thesis using assms by (simp add: reread_def d_def k_def)
qed

end
