(* ===== verification/Coordinator.thy ===== *)
theory Coordinator
  imports Checkpoint
begin

text \<open>
  The coordinator loop (\<^verbatim>\<open>src/internal/coordinator/loop.go\<close>, \<^verbatim>\<open>recovery.go\<close>): polling, handling and
  acknowledging updates, the write-ahead record of an outbound status, and the operations that
  resolve a status of unknown delivery. The loop reaches its source, store, handler, sender and
  readiness check through Go interfaces. It is modelled as a tree of the calls it makes: a node is a
  call with its arguments and has a continuation for every answer. Running a tree against a store
  and arbitrary answers, and stopping it anywhere, gives every execution and every crash.
\<close>

section \<open>Updates and decisions\<close>

datatype UpdateKind = UpdateUnsupported | UpdateMessage | UpdateCallback | UpdateKindOther string

record Update =
  up_ID :: int
  up_Kind :: UpdateKind
  up_ActorID :: int
  up_ConversationID :: int
  up_ConversationKind :: string
  up_Text :: string
  up_Caption :: string
  up_CallbackQueryID :: string
  up_SourceMessageID :: int
  up_ReplyToMessageID :: int
  up_MediaKind :: string
  up_MediaFileID :: string
  up_MediaFileUniqueID :: string
  up_MediaFileSize :: int
  up_MediaMIMEType :: string
  up_MediaDurationSeconds :: int
  up_MediaWidth :: int
  up_MediaHeight :: int
  up_MediaDownloadAllowed :: bool

definition zeroUpdate :: Update where
  "zeroUpdate = \<lparr>up_ID = 0, up_Kind = UpdateUnsupported, up_ActorID = 0, up_ConversationID = 0,
     up_ConversationKind = [], up_Text = [], up_Caption = [], up_CallbackQueryID = [],
     up_SourceMessageID = 0, up_ReplyToMessageID = 0, up_MediaKind = [], up_MediaFileID = [],
     up_MediaFileUniqueID = [], up_MediaFileSize = 0, up_MediaMIMEType = [],
     up_MediaDurationSeconds = 0, up_MediaWidth = 0, up_MediaHeight = 0, up_MediaDownloadAllowed = False\<rparr>"

datatype DecisionKind = DecisionSkip | DecisionStatus | DecisionBlock | DecisionKindOther string

record Decision =
  dn_Kind :: DecisionKind
  dn_Status :: Status
  dn_BlockReason :: string
  dn_Keyboard :: "KeyboardMarkup option"

record UnknownOutbound =
  uo_OperationID :: string
  uo_UpdateID :: int
  uo_Status :: Status

datatype coordinator_error =
    ErrDeliveryUnknown | ErrUpdateBlocked | ErrInvalidUpdateSequence | ErrCheckpointMismatch
  | ErrInvalidCheckpoint | CoordinatorError string | CoordinatorPanic

definition validateMessageMedia :: "Update \<Rightarrow> string + unit" where
  "validateMessageMedia u =
     bindE (failIf (up_MediaFileSize u < 0 \<or> up_MediaDurationSeconds u < 0 \<or> up_MediaWidth u < 0 \<or>
                    up_MediaHeight u < 0) ''message media dimensions and sizes must not be negative'') (\<lambda>_.
     if up_MediaKind u = [] then
       failIf (up_Caption u \<noteq> [] \<or> up_MediaFileID u \<noteq> [] \<or> up_MediaFileUniqueID u \<noteq> [] \<or>
               up_MediaFileSize u \<noteq> 0 \<or> up_MediaMIMEType u \<noteq> [] \<or> up_MediaDurationSeconds u \<noteq> 0 \<or>
               up_MediaWidth u \<noteq> 0 \<or> up_MediaHeight u \<noteq> 0 \<or> up_MediaDownloadAllowed u)
         ''message media metadata requires a media kind''
     else
       bindE (failIf (TrimSpace (up_MediaKind u) \<noteq> up_MediaKind u \<or> blank (up_MediaFileID u))
                ''message media requires a normalized kind and file id'') (\<lambda>_.
       bindE (failIf (up_MediaDownloadAllowed u \<and> up_MediaKind u \<noteq> ''voice'' \<and>
                      up_MediaKind u \<noteq> ''photo'' \<and> up_MediaKind u \<noteq> ''document'')
                ''only voice, photo, and document media may be downloaded'') (\<lambda>_.
       failIf (up_MediaKind u = ''video'' \<and> up_MediaDownloadAllowed u)
         ''video download must remain disabled'')))"

definition validateUpdatePayload :: "Update \<Rightarrow> string + unit" where
  "validateUpdatePayload u =
     (case up_Kind u of
        UpdateUnsupported \<Rightarrow>
          failIf (u\<lparr>up_ID := 0, up_Kind := UpdateUnsupported\<rparr> \<noteq> zeroUpdate)
            ''unsupported update must have an empty payload''
      | UpdateMessage \<Rightarrow>
          bindE (failIf (up_ActorID u \<le> 0 \<or> up_ConversationID u = 0 \<or> blank (up_ConversationKind u))
                   ''message update requires actor and conversation identity'') (\<lambda>_.
          bindE (failIf (up_CallbackQueryID u \<noteq> [])
                   ''message update cannot contain callback query identity'') (\<lambda>_.
          bindE (failIf (up_SourceMessageID u < 0 \<or> up_ReplyToMessageID u < 0 \<or>
                         (up_ReplyToMessageID u > 0 \<and> up_SourceMessageID u = 0))
                   ''message update has invalid source or reply message identity'') (\<lambda>_.
          validateMessageMedia u)))
      | UpdateCallback \<Rightarrow>
          bindE (failIf (up_ActorID u \<le> 0 \<or> up_ConversationID u = 0 \<or> blank (up_ConversationKind u))
                   ''callback update requires actor and conversation identity'') (\<lambda>_.
          bindE (failIf (blank (up_Text u) \<or> blank (up_CallbackQueryID u) \<or> up_SourceMessageID u \<le> 0)
                   ''callback update requires data, query id, and positive source message id'') (\<lambda>_.
          failIf (up_Caption u \<noteq> [] \<or> up_ReplyToMessageID u \<noteq> 0 \<or> up_MediaKind u \<noteq> [] \<or>
                  up_MediaFileID u \<noteq> [] \<or> up_MediaFileUniqueID u \<noteq> [] \<or> up_MediaFileSize u \<noteq> 0 \<or>
                  up_MediaMIMEType u \<noteq> [] \<or> up_MediaDurationSeconds u \<noteq> 0 \<or> up_MediaWidth u \<noteq> 0 \<or>
                  up_MediaHeight u \<noteq> 0 \<or> up_MediaDownloadAllowed u)
            ''callback update cannot contain message media metadata''))
      | UpdateKindOther _ \<Rightarrow> Inl ''unsupported update kind'')"

fun validateUpdatesFrom :: "int \<Rightarrow> int option \<Rightarrow> Update list \<Rightarrow> coordinator_error + unit" where
  "validateUpdatesFrom nextUpdateID previous [] = Inr ()"
| "validateUpdatesFrom nextUpdateID previous (u # us) =
     bindE (failIf (up_ID u < nextUpdateID \<or> up_ID u \<le> 0 \<or> up_ID u = maxInt64 \<or>
                    (case previous of None \<Rightarrow> False | Some p \<Rightarrow> up_ID u \<le> p))
              ErrInvalidUpdateSequence) (\<lambda>_.
     bindE (failIf (isl (validateUpdatePayload u)) ErrInvalidUpdateSequence) (\<lambda>_.
     validateUpdatesFrom nextUpdateID (Some (up_ID u)) us))"

definition validateUpdates :: "int \<Rightarrow> Update list \<Rightarrow> coordinator_error + unit" where
  "validateUpdates nextUpdateID updates = validateUpdatesFrom nextUpdateID None updates"

definition validateDecision :: "Decision \<Rightarrow> string + unit" where
  "validateDecision d =
     (case dn_Kind d of
        DecisionSkip \<Rightarrow>
          failIf (dn_Status d \<noteq> zeroStatus \<or> dn_BlockReason d \<noteq> [])
            ''skip decision must not contain status or block data''
      | DecisionStatus \<Rightarrow>
          failIf (st_ConversationID (dn_Status d) \<le> 0 \<or> blank (st_Text (dn_Status d)) \<or>
                  dn_BlockReason d \<noteq> [])
            ''status decision requires a destination and non-empty safe text''
      | DecisionBlock \<Rightarrow>
          failIf (blank (dn_BlockReason d) \<or> dn_Status d \<noteq> zeroStatus)
            ''block decision requires a reason and no status''
      | DecisionKindOther _ \<Rightarrow> Inl ''unsupported decision kind'')"

section \<open>Calls\<close>

text \<open>
  \<open>Sender\<close> and \<open>Handler\<close> hold which optional Go interfaces the value implements: the loop finds out
  with type assertions. \<open>Deliver\<close> is one of the three ways to send a status. \<open>Unlocked\<close> marks the points
  of \<open>Run\<close> at which it holds no lock and other operations may run.
\<close>

record Sender =
  sn_PreparedDurableStatusSender :: bool
  sn_DurableStatusSender :: bool
  sn_CarrierEditor :: bool
  sn_KeyboardSender :: bool
  sn_OutboundReceiptResolver :: bool

record Loop =
  lp_sender :: Sender
  lp_UnknownRecoveryHandler :: bool

datatype channel = EditStatusWithKeyboard | SendStatusWithKeyboard | SendStatus

datatype 'a prog =
    Return 'a
  | Load "coordinator_error + StoredCheckpoint option \<Rightarrow> 'a prog"
  | Save u64 Checkpoint "coordinator_error + StoredCheckpoint \<Rightarrow> 'a prog"
  | Ready Checkpoint "coordinator_error option \<Rightarrow> 'a prog"
  | Bootstrap "coordinator_error + int \<Rightarrow> 'a prog"
  | CtxErr "coordinator_error option \<Rightarrow> 'a prog"
  | Poll int "coordinator_error + Update list \<Rightarrow> 'a prog"
  | Handle Update "coordinator_error + Decision \<Rightarrow> 'a prog"
  | PrepareUnknownRecovery Update "coordinator_error + RecoveryControl \<times> Decision \<Rightarrow> 'a prog"
  | DeliverPreparedStatus string Status "KeyboardMarkup option"
      "Receipt \<times> bool \<times> coordinator_error option \<Rightarrow> 'a prog"
  | EnqueueStatus string Status "KeyboardMarkup option"
      "coordinator_error + DurableOutboundReceipt \<Rightarrow> 'a prog"
  | Deliver channel string Status "KeyboardMarkup option" "coordinator_error + Receipt \<Rightarrow> 'a prog"
  | ResolveStatusReceipt string "coordinator_error + Receipt option \<Rightarrow> 'a prog"
  | Unlocked "'a prog"

primrec bindP :: "'a prog \<Rightarrow> ('a \<Rightarrow> 'b prog) \<Rightarrow> 'b prog" where
  "bindP (Return x) f = f x"
| "bindP (Load k) f = Load (\<lambda>a. bindP (k a) f)"
| "bindP (Save r c k) f = Save r c (\<lambda>a. bindP (k a) f)"
| "bindP (Ready c k) f = Ready c (\<lambda>a. bindP (k a) f)"
| "bindP (Bootstrap k) f = Bootstrap (\<lambda>a. bindP (k a) f)"
| "bindP (CtxErr k) f = CtxErr (\<lambda>a. bindP (k a) f)"
| "bindP (Poll n k) f = Poll n (\<lambda>a. bindP (k a) f)"
| "bindP (Handle u k) f = Handle u (\<lambda>a. bindP (k a) f)"
| "bindP (PrepareUnknownRecovery u k) f = PrepareUnknownRecovery u (\<lambda>a. bindP (k a) f)"
| "bindP (DeliverPreparedStatus p s b k) f = DeliverPreparedStatus p s b (\<lambda>a. bindP (k a) f)"
| "bindP (EnqueueStatus p s b k) f = EnqueueStatus p s b (\<lambda>a. bindP (k a) f)"
| "bindP (Deliver ch p s b k) f = Deliver ch p s b (\<lambda>a. bindP (k a) f)"
| "bindP (ResolveStatusReceipt p k) f = ResolveStatusReceipt p (\<lambda>a. bindP (k a) f)"
| "bindP (Unlocked k) f = Unlocked (bindP k f)"

type_synonym 'a action = "(coordinator_error + 'a) prog"

definition failP :: "coordinator_error \<Rightarrow> 'a action" where
  "failP e = Return (Inl e)"

definition okP :: "'a \<Rightarrow> 'a action" where
  "okP x = Return (Inr x)"

definition seqP :: "'a action \<Rightarrow> ('a \<Rightarrow> 'b action) \<Rightarrow> 'b action" where
  "seqP p f = bindP p (\<lambda>r. case r of Inl e \<Rightarrow> failP e | Inr x \<Rightarrow> f x)"

definition checkP :: "coordinator_error \<Rightarrow> 'e + unit \<Rightarrow> 'a action \<Rightarrow> 'a action" where
  "checkP e r p = (case r of Inl _ \<Rightarrow> failP e | Inr _ \<Rightarrow> p)"

section \<open>The loop\<close>

text \<open>
  The code adds one to an update ID in \<^verbatim>\<open>int64\<close>. IDs of a batch differ from the largest value, and a
  confirmed outbound at the largest value fails its validation with or without the wrap, so the sum is
  written on unbounded integers.
\<close>

definition saveVerified :: "StoredCheckpoint \<Rightarrow> Checkpoint \<Rightarrow> StoredCheckpoint action" where
  "saveVerified current nxt =
     checkP ErrInvalidCheckpoint (loop_validateCheckpoint nxt) (
     Save (sc_Revision current) (cloneCheckpoint nxt) (\<lambda>r. case r of Inl e \<Rightarrow> failP e | Inr saved \<Rightarrow>
     if sc_Revision saved \<le> sc_Revision current \<or> sc_Checkpoint saved \<noteq> nxt then failP ErrCheckpointMismatch
     else
       Load (\<lambda>r. case r of Inl e \<Rightarrow> failP e | Inr None \<Rightarrow> failP ErrCheckpointMismatch | Inr (Some again) \<Rightarrow>
       if again \<noteq> saved then failP ErrCheckpointMismatch
       else checkP ErrInvalidCheckpoint (validateStored again) (okP again))))"

definition setOutbound :: "(Outbound \<Rightarrow> Outbound) \<Rightarrow> Checkpoint \<Rightarrow> Checkpoint" where
  "setOutbound f c = c\<lparr>cp_Outbound := map_option f (cp_Outbound c)\<rparr>"

definition confirmOutbound :: "StoredCheckpoint \<Rightarrow> Receipt \<Rightarrow> StoredCheckpoint action" where
  "confirmOutbound stored receipt =
     (case cp_Outbound (sc_Checkpoint stored) of
        None \<Rightarrow> failP ErrDeliveryUnknown
      | Some ob \<Rightarrow>
          if rc_MessageID receipt \<le> 0 then failP ErrDeliveryUnknown
          else
            let c = cloneCheckpoint (sc_Checkpoint stored);
                c = (if cp_NextUpdateID c \<le> ob_UpdateID ob then c\<lparr>cp_NextUpdateID := ob_UpdateID ob + 1\<rparr> else c) in
            saveVerified stored (setOutbound (\<lambda>ob. ob\<lparr>ob_Phase := OutboundConfirmed,
              ob_Receipt := Some \<lparr>rc_MessageID = rc_MessageID receipt\<rparr>, ob_Durable := None\<rparr>) c))"

definition resolveOutboundReceipt :: "Loop \<Rightarrow> string \<Rightarrow> Receipt option action" where
  "resolveOutboundReceipt lp operationID =
     (if \<not> sn_OutboundReceiptResolver (lp_sender lp) then okP None
      else ResolveStatusReceipt operationID (\<lambda>r. case r of Inl e \<Rightarrow> failP e
        | Inr None \<Rightarrow> okP None
        | Inr (Some receipt) \<Rightarrow>
            if rc_MessageID receipt \<le> 0 then failP ErrDeliveryUnknown else okP (Some receipt)))"

definition bootstrap :: "StoredCheckpoint action" where
  "bootstrap =
     Bootstrap (\<lambda>r. case r of Inl e \<Rightarrow> failP e | Inr nextUpdateID \<Rightarrow>
     let c = zeroCheckpoint\<lparr>cp_Initialized := True, cp_NextUpdateID := nextUpdateID\<rparr> in
     checkP ErrInvalidCheckpoint (loop_validateCheckpoint c) (saveVerified zeroStored c))"

definition resolveInterruptedState :: "Loop \<Rightarrow> StoredCheckpoint action" where
  "resolveInterruptedState lp =
     Load (\<lambda>r. case r of Inl e \<Rightarrow> failP e | Inr None \<Rightarrow> failP ErrCheckpointMismatch | Inr (Some stored) \<Rightarrow>
     checkP ErrInvalidCheckpoint (validateStored stored) (
     let c = sc_Checkpoint stored in
     if cp_Blocked c \<noteq> None then failP ErrUpdateBlocked
     else
       case cp_Outbound c of
         None \<Rightarrow> okP stored
       | Some ob \<Rightarrow>
           if ob_Phase ob = OutboundConfirmed then okP stored
           else
             seqP (resolveOutboundReceipt lp (ob_OperationID ob)) (\<lambda>found. case found of
               Some receipt \<Rightarrow> confirmOutbound stored receipt
             | None \<Rightarrow>
                 if ob_Phase ob = OutboundEnqueued then okP stored
                 else if ob_Phase ob = OutboundUnknown then failP ErrDeliveryUnknown
                 else
                   seqP (saveVerified stored
                           (setOutbound (\<lambda>ob. ob\<lparr>ob_Phase := OutboundUnknown\<rparr>) (cloneCheckpoint c)))
                     (\<lambda>_. failP ErrDeliveryUnknown))))"

definition deliverStatus :: "Loop \<Rightarrow> string \<Rightarrow> Status \<Rightarrow> KeyboardMarkup option \<Rightarrow> (coordinator_error + Receipt \<Rightarrow> 'a prog) \<Rightarrow> 'a prog" where
  "deliverStatus lp operationID status keyboard =
     Deliver (if sn_CarrierEditor (lp_sender lp) \<and> st_SourceMessageID status > 0 then EditStatusWithKeyboard
              else if sn_KeyboardSender (lp_sender lp) then SendStatusWithKeyboard else SendStatus)
       operationID status keyboard"

text \<open>The end of an enqueue or a send that did not prove its delivery.\<close>

definition markUnknown :: "StoredCheckpoint \<Rightarrow> StoredCheckpoint action" where
  "markUnknown prepared =
     seqP (saveVerified prepared
             (setOutbound (\<lambda>ob. ob\<lparr>ob_Phase := OutboundUnknown\<rparr>) (cloneCheckpoint (sc_Checkpoint prepared))))
       (\<lambda>_. failP ErrDeliveryUnknown)"

definition enqueuePrepared :: "StoredCheckpoint \<Rightarrow> int \<Rightarrow> string \<Rightarrow> Status \<Rightarrow> KeyboardMarkup option \<Rightarrow> StoredCheckpoint action" where
  "enqueuePrepared prepared updateID operationID status keyboard =
     EnqueueStatus operationID status keyboard (\<lambda>r. case r of Inl _ \<Rightarrow> markUnknown prepared
       | Inr receipt \<Rightarrow>
           if dr_OperationID receipt \<noteq> operationID \<or> dr_Sequence receipt = 0 then markUnknown prepared
           else
             saveVerified prepared (setOutbound (\<lambda>ob. ob\<lparr>ob_Phase := OutboundEnqueued, ob_Durable := Some receipt\<rparr>)
               ((cloneCheckpoint (sc_Checkpoint prepared))\<lparr>cp_NextUpdateID := updateID + 1\<rparr>)))"

definition newOutbound :: "string \<Rightarrow> int \<Rightarrow> Status \<Rightarrow> KeyboardMarkup option \<Rightarrow> Outbound" where
  "newOutbound operationID updateID status keyboard =
     \<lparr>ob_OperationID = operationID, ob_UpdateID = updateID, ob_Status = status,
      ob_Keyboard = cloneKeyboard keyboard, ob_Phase = OutboundPrepared, ob_Receipt = None, ob_Durable = None\<rparr>"

definition sendPrepared :: "Loop \<Rightarrow> StoredCheckpoint \<Rightarrow> int \<Rightarrow> string \<Rightarrow> Status \<Rightarrow> KeyboardMarkup option \<Rightarrow> StoredCheckpoint action" where
  "sendPrepared lp stored updateID operationID status keyboard =
     seqP (saveVerified stored ((cloneCheckpoint (sc_Checkpoint stored))
             \<lparr>cp_Outbound := Some (newOutbound operationID updateID status keyboard)\<rparr>)) (\<lambda>prepared.
     if sn_DurableStatusSender (lp_sender lp) then enqueuePrepared prepared updateID operationID status keyboard
     else
       deliverStatus lp operationID status keyboard (\<lambda>r. case r of Inl _ \<Rightarrow> markUnknown prepared
         | Inr receipt \<Rightarrow>
             if rc_MessageID receipt \<le> 0 then markUnknown prepared
             else
               saveVerified prepared (setOutbound (\<lambda>ob. ob\<lparr>ob_Phase := OutboundConfirmed,
                   ob_Receipt := Some \<lparr>rc_MessageID = rc_MessageID receipt\<rparr>\<rparr>)
                 ((cloneCheckpoint (sc_Checkpoint prepared))\<lparr>cp_NextUpdateID := updateID + 1\<rparr>))))"

definition sendStatus :: "Loop \<Rightarrow> StoredCheckpoint \<Rightarrow> Update \<Rightarrow> Status \<Rightarrow> KeyboardMarkup option \<Rightarrow> StoredCheckpoint action" where
  "sendStatus lp stored update status keyboard =
     (let operationID = ''status:'' @ FormatInt (up_ID update) in
      if sn_PreparedDurableStatusSender (lp_sender lp) then
        DeliverPreparedStatus operationID status keyboard (\<lambda>(receipt, handled, err).
          if handled then
            (case err of
               Some e \<Rightarrow> failP e
             | None \<Rightarrow>
                 if rc_MessageID receipt \<le> 0 then failP ErrDeliveryUnknown
                 else
                   saveVerified stored ((cloneCheckpoint (sc_Checkpoint stored))
                     \<lparr>cp_NextUpdateID := up_ID update + 1,
                      cp_Outbound := Some ((newOutbound operationID (up_ID update) status keyboard)
                        \<lparr>ob_Phase := OutboundConfirmed,
                         ob_Receipt := Some \<lparr>rc_MessageID = rc_MessageID receipt\<rparr>\<rparr>)\<rparr>))
          else sendPrepared lp stored (up_ID update) operationID status keyboard)
      else sendPrepared lp stored (up_ID update) operationID status keyboard)"

definition enqueueRecoveryPrompt :: "Loop \<Rightarrow> StoredCheckpoint \<Rightarrow> Update \<Rightarrow> RecoveryControl \<Rightarrow> Decision \<Rightarrow> StoredCheckpoint action" where
  "enqueueRecoveryPrompt lp stored update control prompt =
     (if (case cp_Recovery (sc_Checkpoint stored) of None \<Rightarrow> False
          | Some r \<Rightarrow> cp_NextUpdateID (sc_Checkpoint stored) \<le> ct_UpdateID r) then failP ErrDeliveryUnknown
      else if \<not> sn_DurableStatusSender (lp_sender lp) then failP ErrDeliveryUnknown
      else
        seqP (saveVerified stored ((cloneCheckpoint (sc_Checkpoint stored))
                \<lparr>cp_Recovery := Some control,
                 cp_Outbound := Some (newOutbound (ct_PromptOperationID control) (up_ID update)
                   (dn_Status prompt) (dn_Keyboard prompt))\<rparr>)) (\<lambda>prepared.
        enqueuePrepared prepared (up_ID update) (ct_PromptOperationID control) (dn_Status prompt)
          (dn_Keyboard prompt)))"

definition decide :: "Loop \<Rightarrow> StoredCheckpoint \<Rightarrow> Update \<Rightarrow> Decision \<Rightarrow> StoredCheckpoint action" where
  "decide lp stored update decision =
     checkP (CoordinatorError ''handle update'') (validateDecision decision) (
     case dn_Kind decision of
       DecisionSkip \<Rightarrow>
         saveVerified stored ((cloneCheckpoint (sc_Checkpoint stored))\<lparr>cp_NextUpdateID := up_ID update + 1\<rparr>)
     | DecisionBlock \<Rightarrow>
         seqP (saveVerified stored ((cloneCheckpoint (sc_Checkpoint stored))
                 \<lparr>cp_Blocked := Some \<lparr>bu_UpdateID = up_ID update, bu_Reason = dn_BlockReason decision\<rparr>\<rparr>))
           (\<lambda>_. failP ErrUpdateBlocked)
     | DecisionStatus \<Rightarrow> sendStatus lp stored update (dn_Status decision) (dn_Keyboard decision)
     | DecisionKindOther _ \<Rightarrow> failP CoordinatorPanic)"

definition recoverUpdate :: "Loop \<Rightarrow> StoredCheckpoint \<Rightarrow> Update \<Rightarrow> StoredCheckpoint action" where
  "recoverUpdate lp stored update =
     PrepareUnknownRecovery update (\<lambda>r. case r of Inl e \<Rightarrow> failP e | Inr (control, prompt) \<Rightarrow>
     checkP (CoordinatorError ''prepare recovery'') (recoverycontrol_Validate control (up_ID update)) (
     checkP (CoordinatorError ''prepare recovery'') (validateDecision prompt) (
     if dn_Kind prompt \<noteq> DecisionStatus then failP (CoordinatorError ''recovery prompt must be a status decision'')
     else enqueueRecoveryPrompt lp stored update control prompt)))"

definition handleUpdate :: "Loop \<Rightarrow> StoredCheckpoint \<Rightarrow> Update \<Rightarrow> StoredCheckpoint action" where
  "handleUpdate lp stored update =
     Load (\<lambda>r. case r of Inl e \<Rightarrow> failP e | Inr None \<Rightarrow> failP ErrCheckpointMismatch | Inr (Some latest) \<Rightarrow>
     checkP ErrCheckpointMismatch (validateStored latest) (
     if sc_Revision latest \<noteq> sc_Revision stored \<and>
        cp_NextUpdateID (sc_Checkpoint latest) \<noteq> cp_NextUpdateID (sc_Checkpoint stored)
     then failP ErrCheckpointMismatch
     else
       let stored = (if sc_Revision latest \<noteq> sc_Revision stored then latest else stored) in
       Handle update (\<lambda>r. case r of
         Inl e \<Rightarrow> if lp_UnknownRecoveryHandler lp \<and> up_Kind update = UpdateCallback
                  then recoverUpdate lp stored update else failP e
       | Inr decision \<Rightarrow> decide lp stored update decision)))"

fun handleBatch :: "Loop \<Rightarrow> StoredCheckpoint \<Rightarrow> Update list \<Rightarrow> StoredCheckpoint action" where
  "handleBatch lp stored [] = okP stored"
| "handleBatch lp stored (u # us) =
     seqP (Unlocked (handleUpdate lp stored u)) (\<lambda>stored. handleBatch lp stored us)"

text \<open>The endless polling loop, cut after \<open>n\<close> polls. Every finite execution of the loop is one of some cut.\<close>

fun pollLoop :: "Loop \<Rightarrow> nat \<Rightarrow> StoredCheckpoint \<Rightarrow> unit action" where
  "pollLoop lp 0 stored = okP ()"
| "pollLoop lp (Suc n) stored =
     CtxErr (\<lambda>e. case e of Some e \<Rightarrow> failP e | None \<Rightarrow>
     Poll (cp_NextUpdateID (sc_Checkpoint stored)) (\<lambda>r. case r of Inl e \<Rightarrow> failP e | Inr updates \<Rightarrow>
     case validateUpdates (cp_NextUpdateID (sc_Checkpoint stored)) updates of Inl e \<Rightarrow> failP e | Inr _ \<Rightarrow>
     seqP (handleBatch lp stored updates) (pollLoop lp n)))"

definition Run :: "Loop \<Rightarrow> nat \<Rightarrow> unit action" where
  "Run lp n =
     Load (\<lambda>r. case r of Inl e \<Rightarrow> failP e | Inr found \<Rightarrow>
     checkP ErrInvalidCheckpoint (case found of None \<Rightarrow> Inr () | Some stored \<Rightarrow> validateStored stored) (
     Ready (case found of None \<Rightarrow> zeroCheckpoint | Some stored \<Rightarrow> cloneCheckpoint (sc_Checkpoint stored))
       (\<lambda>e. case e of Some e \<Rightarrow> failP e | None \<Rightarrow>
     seqP (case found of None \<Rightarrow> bootstrap | Some stored \<Rightarrow> okP stored) (\<lambda>_.
     seqP (Unlocked (resolveInterruptedState lp)) (pollLoop lp n)))))"

section \<open>Operations of the owner\<close>

definition ListUnknown :: "UnknownOutbound list action" where
  "ListUnknown =
     Load (\<lambda>r. case r of Inl e \<Rightarrow> failP e | Inr found \<Rightarrow>
     okP (case found of None \<Rightarrow> [] | Some stored \<Rightarrow>
       (case cp_Outbound (sc_Checkpoint stored) of None \<Rightarrow> []
        | Some ob \<Rightarrow> if ob_Phase ob \<noteq> OutboundUnknown then []
            else [\<lparr>uo_OperationID = ob_OperationID ob, uo_UpdateID = ob_UpdateID ob, uo_Status = ob_Status ob\<rparr>])))"

definition loadExact :: "OutboundPhase \<Rightarrow> string \<Rightarrow> int \<Rightarrow> (StoredCheckpoint \<times> Outbound) action" where
  "loadExact phase operationID updateID =
     Load (\<lambda>r. case r of Inl e \<Rightarrow> failP e | Inr None \<Rightarrow> failP ErrDeliveryUnknown | Inr (Some stored) \<Rightarrow>
     case cp_Outbound (sc_Checkpoint stored) of None \<Rightarrow> failP ErrDeliveryUnknown
     | Some ob \<Rightarrow>
         if ob_Phase ob \<noteq> phase \<or> ob_OperationID ob \<noteq> operationID \<or> ob_UpdateID ob \<noteq> updateID
         then failP ErrDeliveryUnknown else okP (stored, ob))"

definition loadExactUnknown :: "string \<Rightarrow> int \<Rightarrow> (StoredCheckpoint \<times> Outbound) action" where
  "loadExactUnknown = loadExact OutboundUnknown"

definition confirmResolved :: "Loop \<Rightarrow> string \<Rightarrow> StoredCheckpoint \<Rightarrow> StoredCheckpoint action" where
  "confirmResolved lp operationID stored =
     seqP (resolveOutboundReceipt lp operationID) (\<lambda>found. case found of
       None \<Rightarrow> failP ErrDeliveryUnknown | Some receipt \<Rightarrow> confirmOutbound stored receipt)"

definition ConfirmUnknownOutbound :: "Loop \<Rightarrow> string \<Rightarrow> int \<Rightarrow> StoredCheckpoint action" where
  "ConfirmUnknownOutbound lp operationID updateID =
     seqP (loadExactUnknown operationID updateID) (\<lambda>(stored, _). confirmResolved lp operationID stored)"

definition ConfirmEnqueuedOutbound :: "Loop \<Rightarrow> string \<Rightarrow> int \<Rightarrow> StoredCheckpoint action" where
  "ConfirmEnqueuedOutbound lp operationID updateID =
     seqP (loadExact OutboundEnqueued operationID updateID) (\<lambda>(stored, _). confirmResolved lp operationID stored)"

definition RetryUnknownOutbound :: "Loop \<Rightarrow> string \<Rightarrow> int \<Rightarrow> StoredCheckpoint action" where
  "RetryUnknownOutbound lp operationID updateID =
     seqP (loadExactUnknown operationID updateID) (\<lambda>(stored, ob).
     deliverStatus lp operationID (ob_Status ob) (ob_Keyboard ob) (\<lambda>r. case r of
       Inl _ \<Rightarrow> failP ErrDeliveryUnknown
     | Inr receipt \<Rightarrow> if rc_MessageID receipt \<le> 0 then failP ErrDeliveryUnknown
                     else confirmOutbound stored receipt))"

end
