(* ===== verification/Coordinator_Runs.thy ===== *)
theory Coordinator_Runs
  imports Coordinator
begin

text \<open>
  Executions of the coordinator. The durable state is the checkpoint in the store; a trace records
  polls, decisions and sends. The contract of the checkpoint store is the relation \<open>saves\<close>; every
  other answer is arbitrary, and an execution may stop before every call, which is a crash. The
  predicate \<open>safe\<close> reduces a property of all executions of a program to one pass over its text.
\<close>

section \<open>The store\<close>

type_synonym durable = "StoredCheckpoint option"

definition revision :: "durable \<Rightarrow> u64" where
  "revision d = (case d of None \<Rightarrow> 0 | Some s \<Rightarrow> sc_Revision s)"

definition keyboardless :: "Checkpoint \<Rightarrow> Checkpoint" where
  "keyboardless c = setOutbound (\<lambda>ob. ob\<lparr>ob_Keyboard := None\<rparr>) c"

text \<open>
  \<open>saves d r c a d'\<close>: saving \<open>c\<close> over revision \<open>r\<close> in state \<open>d\<close> may answer \<open>a\<close> and leave \<open>d'\<close>. A save that
  fails after its write leaves what the store would read back, which may differ in the keyboard.
\<close>

inductive saves :: "durable \<Rightarrow> u64 \<Rightarrow> Checkpoint \<Rightarrow> coordinator_error + StoredCheckpoint \<Rightarrow> durable \<Rightarrow> bool" where
  saved: "store_validateCheckpoint c = Inr () \<Longrightarrow> r = revision d \<Longrightarrow> r \<noteq> maxUint64 \<Longrightarrow>
     s = \<lparr>sc_Revision = r + 1, sc_Checkpoint = store_cloneCheckpoint c\<rparr> \<Longrightarrow> saves d r c (Inr s) (Some s)"
| replayed: "sc_Revision s = r + 1 \<Longrightarrow> r \<noteq> maxUint64 \<Longrightarrow> sc_Checkpoint s = c \<Longrightarrow>
     saves (Some s) r c (Inr s) (Some s)"
| refused: "saves d r c (Inl e) d"
| unconfirmed: "store_validateCheckpoint c = Inr () \<Longrightarrow> r = revision d \<Longrightarrow> r \<noteq> maxUint64 \<Longrightarrow>
     keyboardless c' = keyboardless c \<Longrightarrow>
     saves d r c (Inl e) (Some \<lparr>sc_Revision = r + 1, sc_Checkpoint = c'\<rparr>)"

section \<open>Executions\<close>

datatype event =
    Polled "int list"
  | Decided int
  | Sent bool string Status "KeyboardMarkup option" durable

text \<open>
  A \<open>Sent\<close> event records who sends (\<open>True\<close> for the loop, \<open>False\<close> for the owner), the arguments, and
  the durable state at that moment. A \<open>Polled\<close> event records the IDs at or after the offset of a batch;
  a batch with any other ID is refused as a whole.
\<close>

definition polled :: "int \<Rightarrow> coordinator_error + Update list \<Rightarrow> event" where
  "polled n r = Polled (case r of Inl _ \<Rightarrow> [] | Inr us \<Rightarrow> filter (\<lambda>u. n \<le> u) (map up_ID us))"

inductive exec :: "bool \<Rightarrow> (durable \<Rightarrow> event list \<Rightarrow> durable \<Rightarrow> bool) \<Rightarrow>
    'a prog \<Rightarrow> durable \<Rightarrow> event list \<Rightarrow> durable \<Rightarrow> 'a option \<Rightarrow> bool"
  for w :: bool and R :: "durable \<Rightarrow> event list \<Rightarrow> durable \<Rightarrow> bool" where
  crash: "exec w R p d [] d None"
| ret: "exec w R (Return x) d [] d (Some x)"
| load: "exec w R (k (Inr d)) d tr d' r \<Longrightarrow> exec w R (Load k) d tr d' r"
| load_error: "exec w R (k (Inl e)) d tr d' r \<Longrightarrow> exec w R (Load k) d tr d' r"
| save: "saves d v c a d1 \<Longrightarrow> exec w R (k a) d1 tr d' r \<Longrightarrow> exec w R (Save v c k) d tr d' r"
| ready: "exec w R (k a) d tr d' r \<Longrightarrow> exec w R (Ready c k) d tr d' r"
| bootstrap: "exec w R (k a) d tr d' r \<Longrightarrow> exec w R (Bootstrap k) d tr d' r"
| ctx: "exec w R (k a) d tr d' r \<Longrightarrow> exec w R (CtxErr k) d tr d' r"
| poll: "exec w R (k a) d tr d' r \<Longrightarrow> exec w R (Poll n k) d (polled n a # tr) d' r"
| handle: "exec w R (k (Inr a)) d tr d' r \<Longrightarrow> exec w R (Handle u k) d (Decided (up_ID u) # tr) d' r"
| handle_error: "exec w R (k (Inl e)) d tr d' r \<Longrightarrow> exec w R (Handle u k) d tr d' r"
| recover: "exec w R (k (Inr a)) d tr d' r \<Longrightarrow>
    exec w R (PrepareUnknownRecovery u k) d (Decided (up_ID u) # tr) d' r"
| recover_error: "exec w R (k (Inl e)) d tr d' r \<Longrightarrow> exec w R (PrepareUnknownRecovery u k) d tr d' r"
| prepared: "exec w R (k a) d tr d' r \<Longrightarrow> exec w R (DeliverPreparedStatus p s b k) d tr d' r"
| enqueue: "exec w R (k a) d tr d' r \<Longrightarrow> exec w R (EnqueueStatus p s b k) d (Sent w p s b d # tr) d' r"
| deliver: "exec w R (k a) d tr d' r \<Longrightarrow> exec w R (Deliver ch p s b k) d (Sent w p s b d # tr) d' r"
| resolve: "exec w R (k a) d tr d' r \<Longrightarrow> exec w R (ResolveStatusReceipt p k) d tr d' r"
| unlocked: "R d tr1 d1 \<Longrightarrow> exec w R p d1 tr2 d' r \<Longrightarrow> exec w R (Unlocked p) d (tr1 @ tr2) d' r"

definition ownerOperations :: "Loop \<Rightarrow> StoredCheckpoint action set" where
  "ownerOperations lp = (\<Union>p u. {ConfirmUnknownOutbound lp p u, ConfirmEnqueuedOutbound lp p u, RetryUnknownOutbound lp p u})"

inductive owner :: "Loop \<Rightarrow> durable \<Rightarrow> event list \<Rightarrow> durable \<Rightarrow> bool" for lp :: Loop where
  owner_none: "owner lp d [] d"
| owner_step: "owner lp d tr d1 \<Longrightarrow> p \<in> ownerOperations lp \<Longrightarrow>
    exec False (\<lambda>_ _ _. False) p d1 tr' d2 r \<Longrightarrow> owner lp d (tr @ tr') d2"

text \<open>
  Histories of one installation: from an absent checkpoint, any number of runs of the loop, each
  stopped anywhere or ended by an error, with operations of the owner between and during runs.
\<close>

inductive history :: "Loop \<Rightarrow> durable \<Rightarrow> event list \<Rightarrow> bool" for lp :: Loop where
  fresh: "history lp None []"
| runs: "history lp d tr \<Longrightarrow> exec True (owner lp) (Run lp n) d tr' d' r \<Longrightarrow> history lp d' (tr @ tr')"
| owns: "history lp d tr \<Longrightarrow> owner lp d tr' d' \<Longrightarrow> history lp d' (tr @ tr')"

section \<open>Reasoning about all executions\<close>

type_synonym ghost = "durable \<times> event list"

primrec safe :: "bool \<Rightarrow> (durable \<Rightarrow> event list \<Rightarrow> durable \<Rightarrow> bool) \<Rightarrow> (ghost \<Rightarrow> bool) \<Rightarrow>
    'a prog \<Rightarrow> ('a \<Rightarrow> ghost \<Rightarrow> bool) \<Rightarrow> ghost \<Rightarrow> bool" where
  "safe w R I (Return x) Q g = (I g \<and> Q x g)"
| "safe w R I (Load k) Q g = (I g \<and> (\<forall>e. safe w R I (k (Inl e)) Q g) \<and> safe w R I (k (Inr (fst g))) Q g)"
| "safe w R I (Save v c k) Q g = (I g \<and> (\<forall>a d. saves (fst g) v c a d \<longrightarrow> safe w R I (k a) Q (d, snd g)))"
| "safe w R I (Ready c k) Q g = (I g \<and> (\<forall>a. safe w R I (k a) Q g))"
| "safe w R I (Bootstrap k) Q g = (I g \<and> (\<forall>a. safe w R I (k a) Q g))"
| "safe w R I (CtxErr k) Q g = (I g \<and> (\<forall>a. safe w R I (k a) Q g))"
| "safe w R I (Poll n k) Q g = (I g \<and> (\<forall>a. safe w R I (k a) Q (fst g, snd g @ [polled n a])))"
| "safe w R I (Handle u k) Q g =
     (I g \<and> (\<forall>e. safe w R I (k (Inl e)) Q g) \<and>
      (\<forall>a. safe w R I (k (Inr a)) Q (fst g, snd g @ [Decided (up_ID u)])))"
| "safe w R I (PrepareUnknownRecovery u k) Q g =
     (I g \<and> (\<forall>e. safe w R I (k (Inl e)) Q g) \<and>
      (\<forall>a. safe w R I (k (Inr a)) Q (fst g, snd g @ [Decided (up_ID u)])))"
| "safe w R I (DeliverPreparedStatus p s b k) Q g = (I g \<and> (\<forall>a. safe w R I (k a) Q g))"
| "safe w R I (EnqueueStatus p s b k) Q g = (I g \<and> (\<forall>a. safe w R I (k a) Q (fst g, snd g @ [Sent w p s b (fst g)])))"
| "safe w R I (Deliver ch p s b k) Q g = (I g \<and> (\<forall>a. safe w R I (k a) Q (fst g, snd g @ [Sent w p s b (fst g)])))"
| "safe w R I (ResolveStatusReceipt p k) Q g = (I g \<and> (\<forall>a. safe w R I (k a) Q g))"
| "safe w R I (Unlocked k) Q g =
     (I g \<and> (\<forall>tr d. R (fst g) tr d \<longrightarrow> safe w R I k Q (d, snd g @ tr)))"

lemma safe_I: "safe w R I p Q g \<Longrightarrow> I g"
  by (cases p) auto

lemma safe_exec:
  assumes "exec w R p d tr d' r" and "safe w R I p Q (d, tr0)"
  shows "I (d', tr0 @ tr) \<and> (\<forall>x. r = Some x \<longrightarrow> Q x (d', tr0 @ tr))"
  using assms
proof (induction arbitrary: tr0 rule: exec.induct)
  case (crash p d)
  then show ?case by (auto dest: safe_I)
next
  case (poll k a d tr d' r n)
  then have "safe w R I (k a) Q (d, tr0 @ [polled n a])" by simp
  from poll.IH [OF this] show ?case by simp
next
  case (handle k a d tr d' r u)
  then have "safe w R I (k (Inr a)) Q (d, tr0 @ [Decided (up_ID u)])" by simp
  from handle.IH [OF this] show ?case by simp
next
  case (recover k a d tr d' r u)
  then have "safe w R I (k (Inr a)) Q (d, tr0 @ [Decided (up_ID u)])" by (cases a) simp
  from recover.IH [OF this] show ?case by simp
next
  case (enqueue k a d tr d' r p s b)
  then have "safe w R I (k a) Q (d, tr0 @ [Sent w p s b d])" by simp
  from enqueue.IH [OF this] show ?case by simp
next
  case (deliver k a d tr d' r ch p s b)
  then have "safe w R I (k a) Q (d, tr0 @ [Sent w p s b d])" by simp
  from deliver.IH [OF this] show ?case by simp
next
  case (unlocked d tr1 d1 p tr2 d' r)
  then have "safe w R I p Q (d1, tr0 @ tr1)" by simp
  from unlocked.IH [OF this] show ?case by simp
next
  case (save d v c a d1 k tr d' r)
  then have "safe w R I (k a) Q (d1, tr0)" by simp
  from save.IH [OF this] show ?case .
qed auto

lemma safe_mono:
  "safe w R I p Q g \<Longrightarrow> (\<And>x g. I g \<Longrightarrow> Q x g \<Longrightarrow> Q' x g) \<Longrightarrow> safe w R I p Q' g"
  by (induction p arbitrary: g) auto

lemma safe_bindP: "safe w R I p (\<lambda>x. safe w R I (f x) Q) g \<Longrightarrow> safe w R I (bindP p f) Q g"
  by (induction p arbitrary: g) (auto intro: safe_I)

text \<open>For actions: a failure needs the invariant only.\<close>

definition safeA :: "bool \<Rightarrow> (durable \<Rightarrow> event list \<Rightarrow> durable \<Rightarrow> bool) \<Rightarrow> (ghost \<Rightarrow> bool) \<Rightarrow>
    'a action \<Rightarrow> ('a \<Rightarrow> ghost \<Rightarrow> bool) \<Rightarrow> ghost \<Rightarrow> bool" where
  "safeA w R I p Q g = safe w R I p (\<lambda>r g. case r of Inl _ \<Rightarrow> True | Inr x \<Rightarrow> Q x g) g"

lemma safeA_I: "safeA w R I p Q g \<Longrightarrow> I g"
  by (auto simp: safeA_def dest: safe_I)

lemma safeA_mono:
  "safeA w R I p Q g \<Longrightarrow> (\<And>x g. I g \<Longrightarrow> Q x g \<Longrightarrow> Q' x g) \<Longrightarrow> safeA w R I p Q' g"
  unfolding safeA_def by (erule safe_mono) (auto split: sum.splits)

lemma safeA_simps [simp]:
  "safeA w R I (failP e) Q g = I g"
  "safeA w R I (okP x) Q g = (I g \<and> Q x g)"
  "safeA w R I (Load k3) Q g = (I g \<and> (\<forall>e. safeA w R I (k3 (Inl e)) Q g) \<and> safeA w R I (k3 (Inr (fst g))) Q g)"
  "safeA w R I (Save v c k4) Q g = (I g \<and> (\<forall>a d. saves (fst g) v c a d \<longrightarrow> safeA w R I (k4 a) Q (d, snd g)))"
  "safeA w R I (Ready c k5) Q g = (I g \<and> (\<forall>a. safeA w R I (k5 a) Q g))"
  "safeA w R I (Bootstrap k6) Q g = (I g \<and> (\<forall>a. safeA w R I (k6 a) Q g))"
  "safeA w R I (CtxErr k7) Q g = (I g \<and> (\<forall>a. safeA w R I (k7 a) Q g))"
  "safeA w R I (Poll n k8) Q g = (I g \<and> (\<forall>a. safeA w R I (k8 a) Q (fst g, snd g @ [polled n a])))"
  "safeA w R I (Handle u k9) Q g =
     (I g \<and> (\<forall>e. safeA w R I (k9 (Inl e)) Q g) \<and> (\<forall>a. safeA w R I (k9 (Inr a)) Q (fst g, snd g @ [Decided (up_ID u)])))"
  "safeA w R I (PrepareUnknownRecovery u k10) Q g =
     (I g \<and> (\<forall>e. safeA w R I (k10 (Inl e)) Q g) \<and> (\<forall>a. safeA w R I (k10 (Inr a)) Q (fst g, snd g @ [Decided (up_ID u)])))"
  "safeA w R I (DeliverPreparedStatus p s b k11) Q g = (I g \<and> (\<forall>a. safeA w R I (k11 a) Q g))"
  "safeA w R I (EnqueueStatus p s b k12) Q g = (I g \<and> (\<forall>a. safeA w R I (k12 a) Q (fst g, snd g @ [Sent w p s b (fst g)])))"
  "safeA w R I (Deliver ch p s b k13) Q g = (I g \<and> (\<forall>a. safeA w R I (k13 a) Q (fst g, snd g @ [Sent w p s b (fst g)])))"
  "safeA w R I (ResolveStatusReceipt p k14) Q g = (I g \<and> (\<forall>a. safeA w R I (k14 a) Q g))"
  "safeA w R I (Unlocked q) Q g = (I g \<and> (\<forall>tr d. R (fst g) tr d \<longrightarrow> safeA w R I q Q (d, snd g @ tr)))"
  by (simp_all add: safeA_def failP_def okP_def)

lemma safeA_seqP: "safeA w R I p (\<lambda>x. safeA w R I (f x) Q) g \<Longrightarrow> safeA w R I (seqP p f) Q g"
  unfolding seqP_def safeA_def
  by (rule safe_bindP, erule safe_mono) (auto simp: failP_def split: sum.splits)

lemma safeA_checkP:
  "I g \<Longrightarrow> (\<And>u. r = Inr u \<Longrightarrow> safeA w R I p Q g) \<Longrightarrow> safeA w R I (checkP e r p) Q g"
  by (cases r) (auto simp: checkP_def)

lemma safeA_exec:
  assumes "exec w R p d tr d' r" and "safeA w R I p Q (d, tr0)"
  shows "I (d', tr0 @ tr)" and "r = Some (Inr x) \<Longrightarrow> Q x (d', tr0 @ tr)"
  using safe_exec [OF assms(1), of I "\<lambda>r g. case r of Inl _ \<Rightarrow> True | Inr x \<Rightarrow> Q x g" tr0] assms(2)
  by (auto simp: safeA_def)

end
