(* ===== verification/Coordinator_Properties.thy ===== *)
theory Coordinator_Properties
  imports Coordinator_Runs
begin

text \<open>
  What every history of the coordinator keeps: a status of an update is sent by the loop at most once
  and only while the store holds it as prepared, the offset never goes back, and an update is
  acknowledged only after the handler has decided it.
\<close>

section \<open>Horizon and offset\<close>

definition unresolved :: "Checkpoint \<Rightarrow> bool" where
  "unresolved c \<longleftrightarrow>
     (\<exists>ob. cp_Outbound c = Some ob \<and> (ob_Phase ob = OutboundPrepared \<or> ob_Phase ob = OutboundUnknown))"

text \<open>One past the last update that the loop has begun to answer.\<close>

definition horizonC :: "Checkpoint \<Rightarrow> int" where
  "horizonC c = (if unresolved c then ob_UpdateID (the (cp_Outbound c)) + 1 else cp_NextUpdateID c)"

definition horizon :: "durable \<Rightarrow> int" where
  "horizon d = (case d of None \<Rightarrow> 0 | Some s \<Rightarrow> horizonC (sc_Checkpoint s))"

definition offset :: "durable \<Rightarrow> int" where
  "offset d = (case d of None \<Rightarrow> 0 | Some s \<Rightarrow> cp_NextUpdateID (sc_Checkpoint s))"

definition stored_ok :: "durable \<Rightarrow> bool" where
  "stored_ok d \<longleftrightarrow> (case d of None \<Rightarrow> True | Some s \<Rightarrow> validateStored s = Inr ())"

lemma d_simps [simp]:
  "horizon None = 0" "horizon (Some s) = horizonC (sc_Checkpoint s)"
  "offset None = 0" "offset (Some s) = cp_NextUpdateID (sc_Checkpoint s)"
  "revision None = 0" "revision (Some s) = sc_Revision s"
  "stored_ok None" "stored_ok (Some s) \<longleftrightarrow> validateStored s = Inr ()"
  by (simp_all add: horizon_def offset_def stored_ok_def revision_def)

lemma validateStored_iff:
  "validateStored s = Inr () \<longleftrightarrow> sc_Revision s \<noteq> 0 \<and> loop_validateCheckpoint (sc_Checkpoint s) = Inr ()"
  by (auto simp: validateStored_def result_simps)

lemma keyboardless_facts:
  assumes "keyboardless c' = keyboardless c"
  shows "cp_NextUpdateID c' = cp_NextUpdateID c" "horizonC c' = horizonC c" "unresolved c' = unresolved c"
    "loop_validateCheckpoint c' = Inr () \<longleftrightarrow> loop_validateCheckpoint c = Inr ()"
proof -
  obtain i n b ob r where c: "c = \<lparr>cp_Initialized = i, cp_NextUpdateID = n, cp_Blocked = b, cp_Outbound = ob, cp_Recovery = r\<rparr>"
    by (cases c)
  obtain i' n' b' ob' r' where c': "c' = \<lparr>cp_Initialized = i', cp_NextUpdateID = n', cp_Blocked = b', cp_Outbound = ob', cp_Recovery = r'\<rparr>"
    by (cases c')
  from assms have eq: "i' = i" "n' = n" "b' = b" "r' = r"
    and obs: "map_option (\<lambda>ob. ob\<lparr>ob_Keyboard := None\<rparr>) ob' = map_option (\<lambda>ob. ob\<lparr>ob_Keyboard := None\<rparr>) ob"
    by (simp_all add: keyboardless_def setOutbound_def c c')
  show "cp_NextUpdateID c' = cp_NextUpdateID c" by (simp add: c c' eq)
  consider "ob = None" "ob' = None" | o1 k where "ob = Some o1" "ob' = Some (o1\<lparr>ob_Keyboard := k\<rparr>)"
  proof (cases ob)
    case None then show ?thesis using obs that(1) by simp
  next
    case (Some o1)
    with obs obtain o2 where o2: "ob' = Some o2" and e: "o2\<lparr>ob_Keyboard := None\<rparr> = o1\<lparr>ob_Keyboard := None\<rparr>"
      by auto
    have "o2 = o1\<lparr>ob_Keyboard := ob_Keyboard o2\<rparr>" using e by (cases o1, cases o2) simp
    then show ?thesis using that(2) Some o2 by blast
  qed
  note cases = this
  have cpo: "cp_Outbound c = ob" "cp_Outbound c' = ob'" by (simp_all add: c c')
  have unac: "unaccepted c' x = unaccepted c x" for x
    using cases by cases (auto simp: unaccepted_def c c' eq)
  have out: "loop_validateOutbound c' (o1\<lparr>ob_Keyboard := k\<rparr>) = loop_validateOutbound c o1" for o1 k
    by (simp add: loop_validateOutbound_def c c' eq cong: OutboundPhase.case_cong option.case_cong)
  show "unresolved c' = unresolved c" using cases by cases (auto simp: unresolved_def c c' eq)
  show "horizonC c' = horizonC c" using cases by cases (auto simp: horizonC_def unresolved_def c c' eq)
  show "loop_validateCheckpoint c' = Inr () \<longleftrightarrow> loop_validateCheckpoint c = Inr ()"
  proof -
    have f: "cp_Initialized c' = cp_Initialized c" "cp_NextUpdateID c' = cp_NextUpdateID c"
      "cp_Blocked c' = cp_Blocked c" "cp_Recovery c' = cp_Recovery c" by (simp_all add: c c' eq)
    have o: "(case cp_Outbound c' of None \<Rightarrow> Inr () | Some o1 \<Rightarrow> loop_validateOutbound c' o1) =
          (case cp_Outbound c of None \<Rightarrow> Inr () | Some o1 \<Rightarrow> loop_validateOutbound c o1)"
      using cases by cases (simp_all add: cpo out)
    show ?thesis unfolding loop_validateCheckpoint_def unac f o ..
  qed
qed

lemma keyboardless_clone [simp]:
  "keyboardless (cloneCheckpoint c) = keyboardless c"
  "keyboardless (store_cloneCheckpoint c) = keyboardless c"
  by (simp_all add: keyboardless_def cloneCheckpoint_def store_cloneCheckpoint_def setOutbound_def
      option.map_comp comp_def)

lemma valid_unresolved:
  "loop_validateCheckpoint c = Inr () \<Longrightarrow> unresolved c \<Longrightarrow>
   cp_NextUpdateID c \<le> ob_UpdateID (the (cp_Outbound c))"
  by (auto simp: loop_validateCheckpoint_def loop_validateOutbound_def unresolved_def result_simps
      split: option.splits)

lemma valid_resolved:
  "loop_validateCheckpoint c = Inr () \<Longrightarrow> cp_Outbound c = Some ob \<Longrightarrow> \<not> unresolved c \<Longrightarrow>
   ob_UpdateID ob < cp_NextUpdateID c"
  by (auto simp: loop_validateCheckpoint_def loop_validateOutbound_def unresolved_def result_simps
      split: option.splits OutboundPhase.splits)

lemma valid_nonneg: "loop_validateCheckpoint c = Inr () \<Longrightarrow> 0 \<le> cp_NextUpdateID c"
  by (auto simp: loop_validateCheckpoint_def result_simps)

lemma offset_le_horizon: "stored_ok d \<Longrightarrow> offset d \<le> horizon d"
  by (cases d) (auto simp: validateStored_iff horizonC_def dest: valid_unresolved)

section \<open>Saving\<close>

lemma safe_saveVerified:
  assumes "I (d, tr)" and rev: "sc_Revision current = revision d"
    and step: "\<And>c'. keyboardless c' = keyboardless nxt \<Longrightarrow> loop_validateCheckpoint c' = Inr () \<Longrightarrow>
      loop_validateCheckpoint nxt = Inr () \<Longrightarrow>
      revision d \<noteq> maxUint64 \<Longrightarrow> I (Some \<lparr>sc_Revision = revision d + 1, sc_Checkpoint = c'\<rparr>, tr)"
    and post: "\<And>s. sc_Checkpoint s = nxt \<Longrightarrow> sc_Revision s = revision d + 1 \<Longrightarrow> validateStored s = Inr () \<Longrightarrow>
      Q s (Some s, tr)"
  shows "safeA w R I (saveVerified current nxt) Q (d, tr)"
  unfolding saveVerified_def
proof (rule safeA_checkP, fact)
  fix u
  assume v: "loop_validateCheckpoint nxt = Inr u"
  let ?k = "\<lambda>r. case r of Inl e \<Rightarrow> failP e | Inr saved \<Rightarrow>
     if sc_Revision saved \<le> sc_Revision current \<or> sc_Checkpoint saved \<noteq> nxt then failP ErrCheckpointMismatch
     else
       Load (\<lambda>r. case r of Inl e \<Rightarrow> failP e | Inr None \<Rightarrow> failP ErrCheckpointMismatch | Inr (Some again) \<Rightarrow>
       if again \<noteq> saved then failP ErrCheckpointMismatch
       else checkP ErrInvalidCheckpoint (validateStored again) (okP again))"
  have st: "I (Some \<lparr>sc_Revision = revision d + 1, sc_Checkpoint = c'\<rparr>, tr)"
    if "keyboardless c' = keyboardless nxt" "revision d \<noteq> maxUint64" for c'
    using step [OF that(1) _ _ that(2)] keyboardless_facts(4) [OF that(1)] v by simp
  have "safeA w R I (?k a) Q (d', tr)"
    if "saves d (revision d) (cloneCheckpoint nxt) a d'" for a d'
    using that
  proof (cases rule: saves.cases)
    case (saved s)
    then have I: "I (Some s, tr)" using st [of "store_cloneCheckpoint (cloneCheckpoint nxt)"] by simp
    show ?thesis
    proof (cases "sc_Checkpoint s = nxt \<and> validateStored s = Inr ()")
      case True
      moreover from saved have "sc_Revision s = revision d + 1" by simp
      ultimately have "Q s (Some s, tr)" by (intro post) blast+
      with True I show ?thesis unfolding saved(1,2) by (simp add: checkP_def)
    next
      case False
      with I show ?thesis unfolding saved(1,2) by (auto simp: checkP_def split: sum.split)
    qed
  next
    case (replayed s)
    then show ?thesis by simp
  next
    case (refused e)
    then show ?thesis using assms(1) by simp
  next
    case (unconfirmed c' e)
    then show ?thesis using st [of c'] by simp
  qed
  then show "safeA w R I (Save (sc_Revision current) (cloneCheckpoint nxt) ?k) Q (d, tr)"
    using assms(1) by (simp add: rev)
qed

section \<open>The invariant\<close>

definition sentUpdate :: "event \<Rightarrow> int list" where
  "sentUpdate e = (case e of Sent True _ _ _ (Some s) \<Rightarrow>
     (case cp_Outbound (sc_Checkpoint s) of None \<Rightarrow> [] | Some ob \<Rightarrow> [ob_UpdateID ob]) | _ \<Rightarrow> [])"

definition sentUpdates :: "event list \<Rightarrow> int list" where
  "sentUpdates tr = concat (map sentUpdate tr)"

text \<open>A send of the loop is covered by a prepared outbound in the store with the same content.\<close>

definition writtenAhead :: "event \<Rightarrow> bool" where
  "writtenAhead e = (case e of Sent True p st b d \<Rightarrow>
     (case d of None \<Rightarrow> False | Some s \<Rightarrow>
        (case cp_Outbound (sc_Checkpoint s) of None \<Rightarrow> False
         | Some ob \<Rightarrow> ob_Phase ob = OutboundPrepared \<and> ob_OperationID ob = p \<and> ob_Status ob = st \<and>
                     ob_Keyboard ob = cloneKeyboard b)) | _ \<Rightarrow> True)"

definition lastPoll :: "event list \<Rightarrow> int list" where
  "lastPoll tr = foldl (\<lambda>acc e. case e of Polled ids \<Rightarrow> ids | _ \<Rightarrow> acc) [] tr"

definition core :: "ghost \<Rightarrow> bool" where
  "core g \<longleftrightarrow> (case g of (d, tr) \<Rightarrow>
     stored_ok d \<and> (\<forall>e\<in>set tr. writtenAhead e) \<and> sorted_wrt (<) (sentUpdates tr) \<and>
     (\<forall>u\<in>set (sentUpdates tr). u < horizon d) \<and>
     (\<forall>u\<in>set (lastPoll tr). u < horizon d \<longrightarrow> Decided u \<in> set tr) \<and> (d = None \<longrightarrow> lastPoll tr = []))"

definition kept :: "(ghost \<Rightarrow> bool) \<Rightarrow> ghost \<Rightarrow> bool" where
  "kept L g \<longleftrightarrow> core g \<and> L g"

lemma sentUpdates_simps [simp]:
  "sentUpdates [] = []" "sentUpdates (tr @ tr') = sentUpdates tr @ sentUpdates tr'"
  "sentUpdates [Decided u] = []" "sentUpdates [Polled ids] = []" "sentUpdates [Sent False p st b d] = []"
  by (simp_all add: sentUpdates_def sentUpdate_def)

lemma lastPoll_simps [simp]:
  "lastPoll [] = []" "lastPoll (tr @ [Decided u]) = lastPoll tr" "lastPoll (tr @ [Polled ids]) = ids"
  "lastPoll (tr @ [Sent w p st b d]) = lastPoll tr"
  by (simp_all add: lastPoll_def)

lemma coreD:
  assumes "core (d, tr)"
  shows "stored_ok d" "u \<in> set (sentUpdates tr) \<Longrightarrow> u < horizon d"
    "u \<in> set (lastPoll tr) \<Longrightarrow> u < horizon d \<Longrightarrow> Decided u \<in> set tr"
  using assms by (auto simp: core_def)

lemma core_advance:
  assumes "core (d, tr)" and "validateStored s = Inr ()" and "horizon d \<le> horizonC (sc_Checkpoint s)"
    and "\<And>v. v \<in> set (lastPoll tr) \<Longrightarrow> v < horizonC (sc_Checkpoint s) \<Longrightarrow> Decided v \<in> set tr"
  shows "core (Some s, tr)"
  using assms by (fastforce simp: core_def)

lemma core_decided: "core (d, tr) \<Longrightarrow> core (d, tr @ [Decided u])"
  by (auto simp: core_def writtenAhead_def)

lemma core_owner_sent: "core (d, tr) \<Longrightarrow> core (d, tr @ [Sent False p st b e])"
  by (auto simp: core_def writtenAhead_def)

lemma core_sent:
  assumes "core (Some s, tr)" and "cp_Outbound (sc_Checkpoint s) = Some (newOutbound p u st b)"
    and "\<And>v. v \<in> set (sentUpdates tr) \<Longrightarrow> v < u"
  shows "core (Some s, tr @ [Sent True p st b (Some s)])"
proof -
  have "unresolved (sc_Checkpoint s)" "horizonC (sc_Checkpoint s) = u + 1"
    using assms(2) by (simp_all add: unresolved_def horizonC_def newOutbound_def)
  moreover have "sentUpdates [Sent True p st b (Some s)] = [u]"
    using assms(2) by (simp add: sentUpdates_def sentUpdate_def newOutbound_def)
  ultimately show ?thesis
    using assms by (auto simp: core_def writtenAhead_def newOutbound_def sorted_wrt_append)
qed

lemma safe_save:
  assumes I: "kept L (d, tr)" and rev: "sc_Revision current = revision d"
    and hz: "loop_validateCheckpoint nxt = Inr () \<Longrightarrow> horizon d \<le> horizonC nxt"
    and dec: "\<And>v. loop_validateCheckpoint nxt = Inr () \<Longrightarrow> v \<in> set (lastPoll tr) \<Longrightarrow> v < horizonC nxt \<Longrightarrow>
      Decided v \<in> set tr"
    and L: "\<And>s. validateStored s = Inr () \<Longrightarrow> keyboardless (sc_Checkpoint s) = keyboardless nxt \<Longrightarrow>
      loop_validateCheckpoint nxt = Inr () \<Longrightarrow> unat (sc_Revision s) = Suc (unat (revision d)) \<Longrightarrow> L (Some s, tr)"
    and post: "\<And>s. sc_Checkpoint s = nxt \<Longrightarrow> validateStored s = Inr () \<Longrightarrow> kept L (Some s, tr) \<Longrightarrow> Q s (Some s, tr)"
  shows "safeA w R (kept L) (saveVerified current nxt) Q (d, tr)"
proof -
  have step: "kept L (Some \<lparr>sc_Revision = revision d + 1, sc_Checkpoint = c'\<rparr>, tr)"
    if k: "keyboardless c' = keyboardless nxt" and v: "loop_validateCheckpoint c' = Inr ()"
      "loop_validateCheckpoint nxt = Inr ()" and m: "revision d \<noteq> maxUint64" for c'
  proof -
    let ?s = "\<lparr>sc_Revision = revision d + 1, sc_Checkpoint = c'\<rparr>"
    have u: "unat (sc_Revision ?s) = Suc (unat (revision d))" using m by (simp add: unat_Suc_u64)
    then have "sc_Revision ?s \<noteq> 0" by (metis nat.distinct(1) unat_0)
    then have ok: "validateStored ?s = Inr ()" using v by (simp add: validateStored_iff)
    have "core (Some ?s, tr)"
      using I ok hz [OF v(2)] dec [OF v(2)] keyboardless_facts(2) [OF k]
      by (intro core_advance [of d]) (auto simp: kept_def)
    then show ?thesis using L [OF ok _ v(2) u] k by (simp add: kept_def)
  qed
  show ?thesis
  proof (rule safe_saveVerified [OF I rev step])
    fix s
    assume s: "sc_Checkpoint s = nxt" "sc_Revision s = revision d + 1" "validateStored s = Inr ()"
    show "Q s (Some s, tr)"
    proof (cases "revision d = maxUint64")
      case True
      then have "sc_Revision s = 0" using s by (simp add: maxUint64_def)
      then show ?thesis using s by (simp add: validateStored_iff)
    next
      case False
      have "loop_validateCheckpoint nxt = Inr ()" using s by (simp add: validateStored_iff)
      with step [OF refl _ _ False] s have "kept L (Some s, tr)" by (cases s) simp
      with s show ?thesis by (intro post)
    qed
  qed
qed

section \<open>The operations\<close>

lemma clone_fields [simp]:
  "cp_NextUpdateID (cloneCheckpoint c) = cp_NextUpdateID c" "unresolved (cloneCheckpoint c) = unresolved c"
  "horizonC (cloneCheckpoint c) = horizonC c" "cp_Recovery (cloneCheckpoint c) = cp_Recovery c"
  "cp_Blocked (cloneCheckpoint c) = cp_Blocked c"
  using keyboardless_facts(1-3) [OF keyboardless_clone(1), of c] by (simp_all, simp_all add: cloneCheckpoint_def)

lemma setOutbound_fields [simp]:
  "cp_NextUpdateID (setOutbound f c) = cp_NextUpdateID c"
  "cp_Outbound (setOutbound f c) = map_option f (cp_Outbound c)"
  by (simp_all add: setOutbound_def)

lemma clone_outbound:
  "cp_Outbound c = Some ob \<Longrightarrow> cp_Outbound (cloneCheckpoint c) = Some (ob\<lparr>ob_Keyboard := cloneKeyboard (ob_Keyboard ob)\<rparr>)"
  by (simp add: cloneCheckpoint_def)

text \<open>What a successful operation of the loop leaves: the result is in the store and settled.\<close>

definition settled :: "int \<Rightarrow> int list \<Rightarrow> StoredCheckpoint \<Rightarrow> ghost \<Rightarrow> bool" where
  "settled n ids s g \<longleftrightarrow> fst g = Some s \<and> \<not> unresolved (sc_Checkpoint s) \<and>
     cp_NextUpdateID (sc_Checkpoint s) = n \<and> lastPoll (snd g) = ids"

lemma safe_confirmOutbound:
  assumes I: "kept L (Some stored, tr)" and ob: "cp_Outbound (sc_Checkpoint stored) = Some ob"
    and L: "\<And>s. validateStored s = Inr () \<Longrightarrow> \<not> unresolved (sc_Checkpoint s) \<Longrightarrow>
      cp_NextUpdateID (sc_Checkpoint s) = horizon (Some stored) \<Longrightarrow>
      unat (sc_Revision s) = Suc (unat (sc_Revision stored)) \<Longrightarrow> L (Some s, tr)"
  shows "safeA w R (kept L) (confirmOutbound stored receipt) (settled (horizon (Some stored)) (lastPoll tr)) (Some stored, tr)"
proof (cases "rc_MessageID receipt \<le> 0")
  case True
  then show ?thesis using I by (simp add: confirmOutbound_def ob)
next
  case False
  let ?c = "sc_Checkpoint stored"
  let ?nxt = "setOutbound (\<lambda>ob. ob\<lparr>ob_Phase := OutboundConfirmed,
      ob_Receipt := Some \<lparr>rc_MessageID = rc_MessageID receipt\<rparr>, ob_Durable := None\<rparr>)
    (if cp_NextUpdateID ?c \<le> ob_UpdateID ob then (cloneCheckpoint ?c)\<lparr>cp_NextUpdateID := ob_UpdateID ob + 1\<rparr> else cloneCheckpoint ?c)"
  have v: "loop_validateCheckpoint ?c = Inr ()" using I by (simp add: kept_def core_def validateStored_iff)
  have n: "cp_NextUpdateID ?nxt = horizonC ?c"
    using valid_unresolved [OF v] valid_resolved [OF v ob]
    by (cases "unresolved ?c") (auto simp: horizonC_def ob)
  have u: "\<not> unresolved ?nxt" by (auto simp: unresolved_def)
  then have h: "horizonC ?nxt = horizonC ?c" using n by (simp add: horizonC_def)
  have "safeA w R (kept L) (saveVerified stored ?nxt) (settled (horizonC ?c) (lastPoll tr)) (Some stored, tr)"
  proof (rule safe_save [OF I])
    fix s
    assume "validateStored s = Inr ()" "keyboardless (sc_Checkpoint s) = keyboardless ?nxt"
      "unat (sc_Revision s) = Suc (unat (revision (Some stored)))"
    then show "L (Some s, tr)" using L keyboardless_facts(1,3) [of "sc_Checkpoint s" ?nxt] n u by simp
  next
    fix v
    assume "v \<in> set (lastPoll tr)" "v < horizonC ?nxt"
    then show "Decided v \<in> set tr" using I h coreD(3) [of "Some stored" tr] by (simp add: kept_def)
  qed (use n u h in \<open>simp_all add: settled_def\<close>)
  with False show ?thesis by (simp add: confirmOutbound_def ob Let_def)
qed

lemma safe_setPhaseUnknown:
  assumes I: "kept L (Some stored, tr)" and un: "unresolved (sc_Checkpoint stored)"
    and L: "\<And>s. validateStored s = Inr () \<Longrightarrow> unresolved (sc_Checkpoint s) \<Longrightarrow>
      cp_NextUpdateID (sc_Checkpoint s) = cp_NextUpdateID (sc_Checkpoint stored) \<Longrightarrow>
      unat (sc_Revision s) = Suc (unat (sc_Revision stored)) \<Longrightarrow> L (Some s, tr)"
  shows "safeA w R (kept L) (markUnknown stored) Q (Some stored, tr)"
proof -
  let ?c = "sc_Checkpoint stored"
  let ?nxt = "setOutbound (\<lambda>ob. ob\<lparr>ob_Phase := OutboundUnknown\<rparr>) (cloneCheckpoint ?c)"
  have u: "unresolved ?nxt" using un by (auto simp: unresolved_def clone_outbound)
  then have h: "horizonC ?nxt = horizonC ?c" using un by (auto simp: horizonC_def unresolved_def clone_outbound)
  show ?thesis unfolding markUnknown_def
  proof (rule safeA_seqP, rule safe_save [OF I])
    fix s
    assume "validateStored s = Inr ()" "keyboardless (sc_Checkpoint s) = keyboardless ?nxt"
      "unat (sc_Revision s) = Suc (unat (revision (Some stored)))"
    then show "L (Some s, tr)" using L keyboardless_facts(1,3) [of "sc_Checkpoint s" ?nxt] u by simp
  next
    fix v
    assume "v \<in> set (lastPoll tr)" "v < horizonC ?nxt"
    then show "Decided v \<in> set tr" using I h coreD(3) [of "Some stored" tr] by (simp add: kept_def)
  qed (use h in simp_all)
qed

section \<open>Operations of the owner\<close>

definition advanced :: "durable \<Rightarrow> durable \<Rightarrow> bool" where
  "advanced d d' \<longleftrightarrow> unat (revision d) \<le> unat (revision d') \<and> offset d \<le> offset d' \<and> (d \<noteq> None \<longrightarrow> d' \<noteq> None)"

text \<open>What the loop may see of the owner's operations between two of its steps.\<close>

definition later :: "durable \<Rightarrow> durable \<Rightarrow> bool" where
  "later d d' \<longleftrightarrow> d' = d \<or>
     unat (revision d) < unat (revision d') \<and> offset d \<le> offset d' \<and> d' \<noteq> None \<and>
     (\<forall>s. d = Some s \<longrightarrow> \<not> unresolved (sc_Checkpoint s) \<longrightarrow>
       \<not> unresolved (sc_Checkpoint (the d')) \<and> offset d' = offset d)"

lemma advanced_trans: "advanced a b \<Longrightarrow> advanced b c \<Longrightarrow> advanced a c"
  by (auto simp: advanced_def)

lemma later_advanced: "later a b \<Longrightarrow> advanced a b"
  by (auto simp: later_def advanced_def)

lemma later_trans: "later a b \<Longrightarrow> later b c \<Longrightarrow> later a c"
  unfolding later_def by (cases b) (auto simp: dest: less_trans)

lemma later_step:
  assumes "stored_ok (Some s)" and "unat (sc_Revision t) = Suc (unat (sc_Revision s))"
    and "cp_NextUpdateID (sc_Checkpoint t) = horizon (Some s)" and "\<not> unresolved (sc_Checkpoint t)"
  shows "later (Some s) (Some t)"
  using assms offset_le_horizon [OF assms(1)] by (auto simp: later_def horizonC_def)

definition sinceOwner :: "durable \<Rightarrow> int list \<Rightarrow> ghost \<Rightarrow> bool" where
  "sinceOwner d ids g \<longleftrightarrow> later d (fst g) \<and> lastPoll (snd g) = ids"

lemma safe_confirm_owner:
  assumes "kept (sinceOwner (Some s) ids) (Some s, tr)" and "cp_Outbound (sc_Checkpoint s) = Some ob"
  shows "safeA w R (kept (sinceOwner (Some s) ids)) (confirmOutbound s receipt) (\<lambda>_ _. True) (Some s, tr)"
  using assms
  by (intro safeA_mono [OF safe_confirmOutbound [OF assms]])
    (auto simp: sinceOwner_def kept_def core_def intro!: later_step)

lemma safe_loadExact:
  assumes "I (d, tr)" and "\<And>s ob. d = Some s \<Longrightarrow> cp_Outbound (sc_Checkpoint s) = Some ob \<Longrightarrow>
    safeA w R I (f (s, ob)) Q (d, tr)"
  shows "safeA w R I (seqP (loadExact ph q u) f) Q (d, tr)"
  using assms by (intro safeA_seqP) (auto simp: loadExact_def split: option.split)

lemma owner_safe:
  assumes "p \<in> ownerOperations lp" and "core (d, tr)"
  shows "safeA False R (kept (sinceOwner d (lastPoll tr))) p (\<lambda>_ _. True) (d, tr)"
proof -
  let ?I = "kept (sinceOwner d (lastPoll tr))"
  have I: "?I (d, tr)" using assms(2) by (simp add: kept_def sinceOwner_def later_def)
  have resolved: "safeA False R ?I (confirmResolved lp q s) (\<lambda>_ _. True) (d, tr)"
    if "d = Some s" "cp_Outbound (sc_Checkpoint s) = Some ob" for q s ob
    unfolding confirmResolved_def
    using I that safe_confirm_owner [of s "lastPoll tr" tr ob False R]
    by (intro safeA_seqP) (auto simp: resolveOutboundReceipt_def split: option.split sum.split)
  have sent: "?I (d, tr @ [Sent False q st b e])" for q st b e
    using assms(2) by (simp add: kept_def sinceOwner_def later_def core_owner_sent)
  from assms(1) consider q u where "p = ConfirmUnknownOutbound lp q u"
    | q u where "p = ConfirmEnqueuedOutbound lp q u" | q u where "p = RetryUnknownOutbound lp q u"
    by (auto simp: ownerOperations_def)
  then show ?thesis
  proof cases
    case 1
    show ?thesis unfolding 1 ConfirmUnknownOutbound_def loadExactUnknown_def
      by (rule safe_loadExact, rule I, unfold prod.case, rule resolved)
  next
    case 2
    show ?thesis unfolding 2 ConfirmEnqueuedOutbound_def
      by (rule safe_loadExact, rule I, unfold prod.case, rule resolved)
  next
    case (3 q u)
    show ?thesis unfolding 3 RetryUnknownOutbound_def loadExactUnknown_def
    proof (rule safe_loadExact, rule I, unfold prod.case)
      fix s ob
      assume s: "d = Some s" "cp_Outbound (sc_Checkpoint s) = Some ob"
      show "safeA False R ?I (deliverStatus lp q (ob_Status ob) (ob_Keyboard ob) (\<lambda>r. case r of
         Inl _ \<Rightarrow> failP ErrDeliveryUnknown
       | Inr receipt \<Rightarrow> if rc_MessageID receipt \<le> 0 then failP ErrDeliveryUnknown
                       else confirmOutbound s receipt)) (\<lambda>_ _. True) (d, tr)"
        using I sent s safe_confirm_owner [of s "lastPoll tr" _ ob False R]
        by (auto simp: deliverStatus_def split: sum.split)
    qed
  qed
qed

lemma owner_core:
  assumes "owner lp d tr d'" and "core (d, tr0)"
  shows "core (d', tr0 @ tr) \<and> later d d' \<and> lastPoll (tr0 @ tr) = lastPoll tr0"
  using assms
proof (induction rule: owner.induct)
  case (owner_none d)
  then show ?case by (simp add: later_def)
next
  case (owner_step d tr d1 p tr' d2 r)
  then have c: "core (d1, tr0 @ tr)" "later d d1" "lastPoll (tr0 @ tr) = lastPoll tr0" by auto
  from safeA_exec(1) [OF owner_step.hyps(3) owner_safe [OF owner_step.hyps(2) c(1)]] c(2,3)
  show ?case by (auto simp: kept_def sinceOwner_def intro: later_trans)
qed

section \<open>Steps of the loop\<close>

definition running :: "durable \<Rightarrow> ghost \<Rightarrow> bool" where
  "running d0 = kept (\<lambda>g. advanced d0 (fst g))"

lemma safe_run_save:
  assumes I: "running d0 (d, tr)" and rev: "sc_Revision current = revision d"
    and "loop_validateCheckpoint nxt = Inr () \<Longrightarrow> offset d \<le> cp_NextUpdateID nxt"
    and "loop_validateCheckpoint nxt = Inr () \<Longrightarrow> horizon d \<le> horizonC nxt"
    and "\<And>v. loop_validateCheckpoint nxt = Inr () \<Longrightarrow> v \<in> set (lastPoll tr) \<Longrightarrow> v < horizonC nxt \<Longrightarrow>
      Decided v \<in> set tr"
    and "\<And>s. sc_Checkpoint s = nxt \<Longrightarrow> validateStored s = Inr () \<Longrightarrow> running d0 (Some s, tr) \<Longrightarrow> Q s (Some s, tr)"
  shows "safeA w R (running d0) (saveVerified current nxt) Q (d, tr)"
  unfolding running_def
proof (rule safe_save [OF I [unfolded running_def] rev])
  fix s :: StoredCheckpoint
  assume s: "keyboardless (sc_Checkpoint s) = keyboardless nxt" "loop_validateCheckpoint nxt = Inr ()"
    "unat (sc_Revision s) = Suc (unat (revision d))"
  have "advanced d0 d" using I by (simp add: running_def kept_def)
  then have "advanced d0 (Some s)" using assms(3) [OF s(2)] s(3) keyboardless_facts(1) [OF s(1)]
    by (auto simp: advanced_def)
  then show "advanced d0 (fst (Some s, tr))" by simp
qed (use assms in \<open>auto simp: running_def\<close>)

lemma runningD:
  assumes "running d0 (d, tr)"
  shows "stored_ok d" "u \<in> set (sentUpdates tr) \<Longrightarrow> u < horizon d"
    "u \<in> set (lastPoll tr) \<Longrightarrow> u < horizon d \<Longrightarrow> Decided u \<in> set tr"
  using assms coreD [of d tr] by (auto simp: running_def kept_def)

lemma running_decided: "running d0 (d, tr) \<Longrightarrow> running d0 (d, tr @ [Decided u])"
  by (simp add: running_def kept_def core_decided)

lemma safe_markUnknown:
  assumes "running d0 (Some s, tr)" and "unresolved (sc_Checkpoint s)"
  shows "safeA w R (running d0) (markUnknown s) Q (Some s, tr)"
  using assms unfolding running_def
  by (intro safe_setPhaseUnknown) (auto simp: kept_def advanced_def)

text \<open>It is the turn of update \<open>u\<close>: nothing is unresolved and every earlier update of the batch is acknowledged.\<close>

definition turn :: "durable \<Rightarrow> int \<Rightarrow> StoredCheckpoint \<Rightarrow> event list \<Rightarrow> bool" where
  "turn d0 u s tr \<longleftrightarrow> running d0 (Some s, tr) \<and> \<not> unresolved (sc_Checkpoint s) \<and>
     cp_NextUpdateID (sc_Checkpoint s) \<le> u \<and> Decided u \<in> set tr \<and>
     (\<forall>v\<in>set (lastPoll tr). v < u \<longrightarrow> v < cp_NextUpdateID (sc_Checkpoint s))"

lemma turnD:
  assumes "turn d0 u s tr"
  shows "running d0 (Some s, tr)" "horizon (Some s) \<le> u" "\<not> unresolved (sc_Checkpoint s)"
    "cp_NextUpdateID (sc_Checkpoint s) \<le> u"
    "v \<in> set (sentUpdates tr) \<Longrightarrow> v < u"
    "v \<in> set (lastPoll tr) \<Longrightarrow> v < u + 1 \<Longrightarrow> Decided v \<in> set tr"
proof -
  show r: "running d0 (Some s, tr)" and u: "\<not> unresolved (sc_Checkpoint s)"
    and n: "cp_NextUpdateID (sc_Checkpoint s) \<le> u" using assms by (auto simp: turn_def)
  then show h: "horizon (Some s) \<le> u" by (simp add: horizonC_def)
  show "v < u" if "v \<in> set (sentUpdates tr)" using runningD(2) [OF r that] h by simp
  show "Decided v \<in> set tr" if "v \<in> set (lastPoll tr)" "v < u + 1"
    using assms that runningD(3) [OF r that(1)] u
    by (cases "v = u") (auto simp: turn_def horizonC_def)
qed

text \<open>Acknowledging the update of the prepared outbound.\<close>

lemma safe_finish:
  assumes I: "running d0 (Some s, tr)" and ob: "cp_Outbound (sc_Checkpoint s) = Some (newOutbound q u st b)"
    and n: "cp_NextUpdateID (sc_Checkpoint s) \<le> u"
    and f: "\<And>ob. ob_Phase (f ob) = OutboundEnqueued \<or> ob_Phase (f ob) = OutboundConfirmed"
  shows "safeA w R (running d0) (saveVerified s (setOutbound f ((cloneCheckpoint (sc_Checkpoint s))\<lparr>cp_NextUpdateID := u + 1\<rparr>)))
    (settled (u + 1) (lastPoll tr)) (Some s, tr)"
proof -
  let ?nxt = "setOutbound f ((cloneCheckpoint (sc_Checkpoint s))\<lparr>cp_NextUpdateID := u + 1\<rparr>)"
  have un: "\<not> unresolved ?nxt" using f by (auto simp: unresolved_def) (metis OutboundPhase.distinct)+
  have h: "horizonC ?nxt = u + 1" using un by (simp add: horizonC_def)
  have h': "horizon (Some s) = u + 1" using ob by (simp add: horizonC_def unresolved_def newOutbound_def)
  show ?thesis
    by (rule safe_run_save [OF I]) (use h h' n un runningD(3) [OF I] in \<open>auto simp: settled_def\<close>)
qed

lemma safe_prepare:
  assumes t: "turn d0 u s tr"
    and cont: "\<And>p. running d0 (Some p, tr) \<Longrightarrow> cp_Outbound (sc_Checkpoint p) = Some (newOutbound q u st b) \<Longrightarrow>
      cp_NextUpdateID (sc_Checkpoint p) \<le> u \<Longrightarrow> unresolved (sc_Checkpoint p) \<Longrightarrow> safeA w R (running d0) (f p) Q (Some p, tr)"
    and nxt: "cp_Outbound nxt = Some (newOutbound q u st b)" "cp_NextUpdateID nxt = cp_NextUpdateID (sc_Checkpoint s)"
  shows "safeA w R (running d0) (seqP (saveVerified s nxt) f) Q (Some s, tr)"
proof -
  have un: "unresolved nxt" "horizonC nxt = u + 1" using nxt by (simp_all add: unresolved_def horizonC_def newOutbound_def)
  show ?thesis
    by (rule safeA_seqP, rule safe_run_save [OF turnD(1) [OF t]])
      (use un nxt turnD [OF t] cont in auto)
qed

lemma running_sent:
  assumes "running d0 (Some p, tr)" and "cp_Outbound (sc_Checkpoint p) = Some (newOutbound q u st b)"
    and "\<And>v. v \<in> set (sentUpdates tr) \<Longrightarrow> v < u"
  shows "running d0 (Some p, tr @ [Sent True q st b (Some p)])"
  using assms core_sent [of p tr q u st b] by (simp add: running_def kept_def)

lemma safe_enqueuePrepared:
  assumes I: "running d0 (Some p, tr)" and ob: "cp_Outbound (sc_Checkpoint p) = Some (newOutbound q u st b)"
    and n: "cp_NextUpdateID (sc_Checkpoint p) \<le> u" and un: "unresolved (sc_Checkpoint p)"
    and sent: "\<And>v. v \<in> set (sentUpdates tr) \<Longrightarrow> v < u"
  shows "safeA True R (running d0) (enqueuePrepared p u q st b) (settled (u + 1) (lastPoll tr)) (Some p, tr)"
proof -
  let ?tr = "tr @ [Sent True q st b (Some p)]"
  have I': "running d0 (Some p, ?tr)" by (rule running_sent [OF I ob sent])
  from safe_finish [OF I' ob n] safe_markUnknown [OF I' un] I show ?thesis
    by (auto simp: enqueuePrepared_def split: sum.split)
qed

lemma safe_sendPrepared:
  assumes t: "turn d0 u s tr"
  shows "safeA True R (running d0) (sendPrepared lp s u q st b) (settled (u + 1) (lastPoll tr)) (Some s, tr)"
  unfolding sendPrepared_def
proof (rule safe_prepare [OF t])
  fix p
  assume p: "running d0 (Some p, tr)" "cp_Outbound (sc_Checkpoint p) = Some (newOutbound q u st b)"
    "cp_NextUpdateID (sc_Checkpoint p) \<le> u" "unresolved (sc_Checkpoint p)"
  let ?tr = "tr @ [Sent True q st b (Some p)]"
  have I': "running d0 (Some p, ?tr)" by (rule running_sent [OF p(1,2)]) (rule turnD(5) [OF t])
  from safe_finish [OF I' p(2,3)] safe_markUnknown [OF I' p(4)] p(1)
    safe_enqueuePrepared [OF p turnD(5) [OF t]]
  show "safeA True R (running d0) (if sn_DurableStatusSender (lp_sender lp) then enqueuePrepared p u q st b
     else
       deliverStatus lp q st b (\<lambda>r. case r of Inl _ \<Rightarrow> markUnknown p
         | Inr receipt \<Rightarrow>
             if rc_MessageID receipt \<le> 0 then markUnknown p
             else
               saveVerified p (setOutbound (\<lambda>ob. ob\<lparr>ob_Phase := OutboundConfirmed,
                   ob_Receipt := Some \<lparr>rc_MessageID = rc_MessageID receipt\<rparr>\<rparr>)
                 ((cloneCheckpoint (sc_Checkpoint p))\<lparr>cp_NextUpdateID := u + 1\<rparr>))))
    (settled (u + 1) (lastPoll tr)) (Some p, tr)"
    by (auto simp: deliverStatus_def split: sum.split)
qed simp_all

lemma safe_acknowledge:
  assumes t: "turn d0 u s tr" and "cp_NextUpdateID nxt = u + 1" and "\<not> unresolved nxt"
  shows "safeA w R (running d0) (saveVerified s nxt) (settled (u + 1) (lastPoll tr)) (Some s, tr)"
  using assms(2,3) turnD [OF t]
  by (intro safe_run_save [OF turnD(1) [OF t]]) (auto simp: horizonC_def settled_def)

lemma safe_sendStatus:
  assumes t: "turn d0 (up_ID u) s tr"
  shows "safeA True R (running d0) (sendStatus lp s u st b) (settled (up_ID u + 1) (lastPoll tr)) (Some s, tr)"
proof -
  have "safeA True R (running d0) (saveVerified s ((cloneCheckpoint (sc_Checkpoint s))
      \<lparr>cp_NextUpdateID := up_ID u + 1, cp_Outbound := Some ((newOutbound q (up_ID u) st b)
        \<lparr>ob_Phase := OutboundConfirmed, ob_Receipt := r\<rparr>)\<rparr>)) (settled (up_ID u + 1) (lastPoll tr)) (Some s, tr)" for q r
    by (rule safe_acknowledge [OF t]) (simp_all add: unresolved_def)
  then show ?thesis
    using safe_sendPrepared [OF t] turnD(1) [OF t]
    by (auto simp: sendStatus_def Let_def split: option.split)
qed

lemma safe_enqueueRecoveryPrompt:
  assumes t: "turn d0 (up_ID u) s tr"
  shows "safeA True R (running d0) (enqueueRecoveryPrompt lp s u ct pr) (settled (up_ID u + 1) (lastPoll tr)) (Some s, tr)"
proof -
  have "safeA True R (running d0) (seqP (saveVerified s ((cloneCheckpoint (sc_Checkpoint s))
      \<lparr>cp_Recovery := Some ct,
       cp_Outbound := Some (newOutbound (ct_PromptOperationID ct) (up_ID u) (dn_Status pr) (dn_Keyboard pr))\<rparr>)) (\<lambda>p.
      enqueuePrepared p (up_ID u) (ct_PromptOperationID ct) (dn_Status pr) (dn_Keyboard pr)))
      (settled (up_ID u + 1) (lastPoll tr)) (Some s, tr)"
    by (rule safe_prepare [OF t]) (use safe_enqueuePrepared turnD(5) [OF t] in auto)
  then show ?thesis using turnD(1) [OF t] by (auto simp: enqueueRecoveryPrompt_def)
qed

lemma safe_decide:
  assumes t: "turn d0 (up_ID u) s tr"
  shows "safeA True R (running d0) (decide lp s u dn) (settled (up_ID u + 1) (lastPoll tr)) (Some s, tr)"
proof -
  let ?blocked = "(cloneCheckpoint (sc_Checkpoint s))
    \<lparr>cp_Blocked := Some \<lparr>bu_UpdateID = up_ID u, bu_Reason = dn_BlockReason dn\<rparr>\<rparr>"
  have I: "running d0 (Some s, tr)" by (rule turnD(1) [OF t])
  have un: "unresolved (c\<lparr>cp_NextUpdateID := n\<rparr>) = unresolved c" "unresolved (c\<lparr>cp_Blocked := b\<rparr>) = unresolved c" for c n b
    by (simp_all add: unresolved_def)
  have "horizonC ?blocked = horizon (Some s)" using turnD(3) [OF t] by (simp add: horizonC_def un)
  then have "safeA True R (running d0) (seqP (saveVerified s ?blocked) (\<lambda>_. failP ErrUpdateBlocked))
      (settled (up_ID u + 1) (lastPoll tr)) (Some s, tr)"
    using runningD(3) [OF I] by (intro safeA_seqP safe_run_save [OF I]) auto
  moreover have "safeA True R (running d0) (saveVerified s ((cloneCheckpoint (sc_Checkpoint s))\<lparr>cp_NextUpdateID := up_ID u + 1\<rparr>))
      (settled (up_ID u + 1) (lastPoll tr)) (Some s, tr)"
    by (rule safe_acknowledge [OF t]) (simp_all add: un turnD(3) [OF t])
  ultimately show ?thesis
    by (auto simp: decide_def checkP_def I safe_sendStatus [OF t] split: DecisionKind.split sum.split)
qed

lemma turn_decided:
  assumes "running d0 (Some s, tr)" and "\<not> unresolved (sc_Checkpoint s)" and "cp_NextUpdateID (sc_Checkpoint s) \<le> u"
    and "\<And>v. v \<in> set (lastPoll tr) \<Longrightarrow> v < u \<Longrightarrow> v < cp_NextUpdateID (sc_Checkpoint s)"
  shows "turn d0 u s (tr @ [Decided u])"
  using assms by (simp add: turn_def running_decided)

lemma safe_handleUpdate:
  assumes I: "running d0 (Some s, tr)" and un: "\<not> unresolved (sc_Checkpoint s)"
    and n: "cp_NextUpdateID (sc_Checkpoint s) \<le> up_ID u"
    and before: "\<And>v. v \<in> set (lastPoll tr) \<Longrightarrow> v < up_ID u \<Longrightarrow> v < cp_NextUpdateID (sc_Checkpoint s)"
    and same: "sc_Revision s = sc_Revision stored \<Longrightarrow> s = stored"
  shows "safeA True R (running d0) (handleUpdate lp stored u) (settled (up_ID u + 1) (lastPoll tr)) (Some s, tr)"
proof -
  let ?tr = "tr @ [Decided (up_ID u)]"
  have t: "turn d0 (up_ID u) s ?tr" by (rule turn_decided [OF I un n before])
  have "safeA True R (running d0) (recoverUpdate lp s u) (settled (up_ID u + 1) (lastPoll tr)) (Some s, tr)"
    using I turnD(1) [OF t] safe_enqueueRecoveryPrompt [OF t]
    by (auto simp: recoverUpdate_def checkP_def split: sum.split)
  moreover have "(if sc_Revision s \<noteq> sc_Revision stored then s else stored) = s" using same by auto
  ultimately show ?thesis
    using I safe_decide [OF t]
    by (auto simp: handleUpdate_def checkP_def Let_def split: sum.split)
qed

text \<open>The owner may act before the loop takes the lock.\<close>

lemma owner_running:
  assumes "owner lp (Some s) tr' d'" and "running d0 (Some s, tr)" and "\<not> unresolved (sc_Checkpoint s)"
  obtains s' where "d' = Some s'" "running d0 (Some s', tr @ tr')" "\<not> unresolved (sc_Checkpoint s')"
    "cp_NextUpdateID (sc_Checkpoint s') = cp_NextUpdateID (sc_Checkpoint s)" "lastPoll (tr @ tr') = lastPoll tr"
    "sc_Revision s' = sc_Revision s \<Longrightarrow> s' = s"
proof -
  from owner_core [OF assms(1), of tr] assms(2)
  have c: "core (d', tr @ tr')" "later (Some s) d'" "lastPoll (tr @ tr') = lastPoll tr" and a: "advanced d0 (Some s)"
    by (auto simp: running_def kept_def)
  from c(2) obtain s' where s': "d' = Some s'" by (auto simp: later_def)
  have "running d0 (Some s', tr @ tr')"
    using c(1) advanced_trans [OF a later_advanced [OF c(2)]] by (simp add: running_def kept_def s')
  with s' c assms(3) show thesis by (intro that [of s']) (auto simp: later_def)
qed

lemma safe_handleBatch:
  assumes "running d0 (Some s, tr)" and "\<not> unresolved (sc_Checkpoint s)"
    and "sorted_wrt (<) (map up_ID us)" and "\<And>u. u \<in> set us \<Longrightarrow> cp_NextUpdateID (sc_Checkpoint s) \<le> up_ID u"
    and "set (lastPoll tr) \<subseteq> {..<cp_NextUpdateID (sc_Checkpoint s)} \<union> up_ID ` set us"
  shows "safeA True (owner lp) (running d0) (handleBatch lp s us)
    (\<lambda>s' g. fst g = Some s' \<and> \<not> unresolved (sc_Checkpoint s')) (Some s, tr)"
  using assms
proof (induction us arbitrary: s tr)
  case Nil
  then show ?case by simp
next
  case (Cons u us)
  have "safeA True (owner lp) (running d0) (handleUpdate lp s u) (settled (up_ID u + 1) (lastPoll tr)) (d', tr @ tr')"
    if o: "owner lp (Some s) tr' d'" for tr' d'
  proof -
    from owner_running [OF o Cons.prems(1,2)] obtain s' where
      s': "d' = Some s'" "running d0 (Some s', tr @ tr')" "\<not> unresolved (sc_Checkpoint s')"
        "cp_NextUpdateID (sc_Checkpoint s') = cp_NextUpdateID (sc_Checkpoint s)" "lastPoll (tr @ tr') = lastPoll tr"
        "sc_Revision s' = sc_Revision s \<Longrightarrow> s' = s" by blast
    have "safeA True (owner lp) (running d0) (handleUpdate lp s u) (settled (up_ID u + 1) (lastPoll (tr @ tr'))) (Some s', tr @ tr')"
    proof (rule safe_handleUpdate)
      fix v
      assume "v \<in> set (lastPoll (tr @ tr'))" "v < up_ID u"
      then show "v < cp_NextUpdateID (sc_Checkpoint s')" using Cons.prems(3,5) s'(4,5) by fastforce
    qed (use s' Cons.prems in auto)
    then show ?thesis using s' by simp
  qed
  then have a: "safeA True (owner lp) (running d0) (Unlocked (handleUpdate lp s u)) (settled (up_ID u + 1) (lastPoll tr)) (Some s, tr)"
    using Cons.prems(1) by simp
  have b: "safeA True (owner lp) (running d0) (handleBatch lp s' us)
      (\<lambda>s' g. fst g = Some s' \<and> \<not> unresolved (sc_Checkpoint s')) g"
    if g: "running d0 g" "settled (up_ID u + 1) (lastPoll tr) s' g" for s' g
  proof -
    obtain tr' where g': "g = (Some s', tr')" using g(2) by (cases g) (simp add: settled_def)
    with g Cons.prems show ?thesis
      by (auto simp: settled_def intro!: Cons.IH) force+
  qed
  show ?case unfolding handleBatch.simps by (rule safeA_seqP, rule safeA_mono [OF a], rule b)
qed

lemma validateUpdatesFrom_Inr:
  "validateUpdatesFrom n prev us = Inr () \<Longrightarrow>
   sorted_wrt (<) (map up_ID us) \<and> (\<forall>u\<in>set us. n \<le> up_ID u \<and> (\<forall>p. prev = Some p \<longrightarrow> p < up_ID u))"
proof (induction us arbitrary: prev)
  case (Cons u us)
  then show ?case by (fastforce simp: result_simps split: option.splits)
qed simp

lemma safe_pollLoop:
  assumes "running d0 (Some s, tr)" and "\<not> unresolved (sc_Checkpoint s)"
  shows "safeA True (owner lp) (running d0) (pollLoop lp n s) (\<lambda>_ _. True) (Some s, tr)"
  using assms
proof (induction n arbitrary: s tr)
  case 0
  then show ?case by simp
next
  case (Suc n)
  let ?n = "cp_NextUpdateID (sc_Checkpoint s)"
  have polled: "running d0 (Some s, tr @ [polled ?n a])" for a
  proof -
    have "horizon (Some s) = ?n" using Suc.prems(2) by (simp add: horizonC_def)
    then show ?thesis
      using Suc.prems(1) by (auto simp: running_def kept_def core_def polled_def writtenAhead_def split: sum.split)
  qed
  have "safeA True (owner lp) (running d0) (seqP (handleBatch lp s us) (pollLoop lp n)) (\<lambda>_ _. True)
      (Some s, tr @ [polled ?n (Inr us)])" if "validateUpdates ?n us = Inr x" for us x
  proof -
    from that have v: "sorted_wrt (<) (map up_ID us)" "\<forall>u\<in>set us. ?n \<le> up_ID u"
      using validateUpdatesFrom_Inr [of ?n None us] by (simp_all add: validateUpdates_def)
    have "safeA True (owner lp) (running d0) (handleBatch lp s us)
        (\<lambda>s' g. fst g = Some s' \<and> \<not> unresolved (sc_Checkpoint s')) (Some s, tr @ [polled ?n (Inr us)])"
      by (rule safe_handleBatch [OF polled Suc.prems(2) v(1)]) (use v in \<open>auto simp: polled_def\<close>)
    then show ?thesis by (intro safeA_seqP, elim safeA_mono) (auto intro: Suc.IH)
  qed
  then show ?case using Suc.prems(1) polled by (auto split: option.split sum.split)
qed

lemma safe_resolve:
  assumes I: "running d0 (d, tr)"
  shows "safeA True R (running d0) (resolveInterruptedState lp)
    (\<lambda>s g. fst g = Some s \<and> \<not> unresolved (sc_Checkpoint s)) (d, tr)"
proof (cases d)
  case None
  then show ?thesis using I by (simp add: resolveInterruptedState_def)
next
  case (Some s)
  note I' = I [unfolded Some]
  let ?Q = "\<lambda>s (g :: ghost). fst g = Some s \<and> \<not> unresolved (sc_Checkpoint s)"
  have ok: "loop_validateCheckpoint (sc_Checkpoint s) = Inr ()"
    using runningD(1) [OF I'] by (simp add: validateStored_iff)
  show ?thesis
  proof (cases "cp_Outbound (sc_Checkpoint s)")
    case None
    then have "\<not> unresolved (sc_Checkpoint s)" by (simp add: unresolved_def)
    with None show ?thesis using I' Some by (auto simp: resolveInterruptedState_def checkP_def Let_def split: sum.split)
  next
    case (Some ob)
    have ur: "unresolved (sc_Checkpoint s) \<longleftrightarrow> ob_Phase ob = OutboundPrepared \<or> ob_Phase ob = OutboundUnknown"
      using Some by (simp add: unresolved_def)
    have phase: "ob_Phase ob \<in> {OutboundPrepared, OutboundUnknown, OutboundEnqueued, OutboundConfirmed}"
      using ok Some by (auto simp: loop_validateCheckpoint_def loop_validateOutbound_def result_simps
          split: option.splits OutboundPhase.splits)
    have c: "safeA True R (running d0) (confirmOutbound s receipt) ?Q (Some s, tr)" for receipt
    proof -
      have a: "advanced d0 (Some s)" using I' by (simp add: running_def kept_def)
      have "safeA True R (running d0) (confirmOutbound s receipt) (settled (horizon (Some s)) (lastPoll tr)) (Some s, tr)"
        unfolding running_def
      proof (rule safe_confirmOutbound [OF I' [unfolded running_def] Some])
        fix t :: StoredCheckpoint
        assume "\<not> unresolved (sc_Checkpoint t)" "cp_NextUpdateID (sc_Checkpoint t) = horizon (Some s)"
          "unat (sc_Revision t) = Suc (unat (sc_Revision s))"
        from later_advanced [OF later_step [OF runningD(1) [OF I'] this(3,2,1)]]
        show "advanced d0 (fst (Some t, tr))" using advanced_trans [OF a] by simp
      qed
      then show ?thesis by (rule safeA_mono) (simp add: settled_def)
    qed
    have m: "safeA True R (running d0) (markUnknown s) ?Q (Some s, tr)" if "ob_Phase ob = OutboundPrepared"
      using that Some by (intro safe_markUnknown [OF I']) (simp add: ur)
    have "safeA True R (running d0) (seqP (resolveOutboundReceipt lp (ob_OperationID ob)) (\<lambda>found. case found of
               Some receipt \<Rightarrow> confirmOutbound s receipt
             | None \<Rightarrow>
                 if ob_Phase ob = OutboundEnqueued then okP s
                 else if ob_Phase ob = OutboundUnknown then failP ErrDeliveryUnknown
                 else markUnknown s)) ?Q (Some s, tr)" if "ob_Phase ob \<noteq> OutboundConfirmed"
      using I' Some c m phase that
      by (intro safeA_seqP) (auto simp: resolveOutboundReceipt_def ur split: sum.split option.split)
    then show ?thesis
      using I' Some \<open>d = Some s\<close> phase
      by (auto simp: resolveInterruptedState_def checkP_def Let_def ur simp flip: markUnknown_def
          split: sum.split)
  qed
qed

lemma safe_Run:
  assumes I: "running d0 (d, tr)"
  shows "safeA True (owner lp) (running d0) (Run lp n) (\<lambda>_ _. True) (d, tr)"
proof -
  let ?rest = "\<lambda>_. seqP (Unlocked (resolveInterruptedState lp)) (pollLoop lp n)"
  have rest: "safeA True (owner lp) (running d0) (?rest x) (\<lambda>_ _. True) g" if "running d0 g" for x g
  proof (rule safeA_seqP, unfold safeA_simps, intro conjI allI impI)
    fix tr' d'
    assume o: "owner lp (fst g) tr' d'"
    from that owner_core [OF o, of "snd g"]
    have "running d0 (d', snd g @ tr')"
      by (auto simp: running_def kept_def intro: advanced_trans later_advanced)
    then show "safeA True (owner lp) (running d0) (resolveInterruptedState lp)
        (\<lambda>x. safeA True (owner lp) (running d0) (pollLoop lp n x) (\<lambda>_ _. True)) (d', snd g @ tr')"
      by (rule safeA_mono [OF safe_resolve]) (auto intro: safe_pollLoop)
  qed (fact that)
  have boot: "safeA True (owner lp) (running d0) bootstrap (\<lambda>_ _. True) (d, tr)" if "d = None"
  proof -
    have "lastPoll tr = []" using I that by (simp add: running_def kept_def core_def)
    then have "safeA True (owner lp) (running d0) (saveVerified zeroStored
        (zeroCheckpoint\<lparr>cp_Initialized := True, cp_NextUpdateID := m\<rparr>)) (\<lambda>_ _. True) (d, tr)" for m
      by (intro safe_run_save [OF I])
        (auto simp: that zeroStored_def zeroCheckpoint_def horizonC_def unresolved_def dest: valid_nonneg)
    then show ?thesis using I by (auto simp: bootstrap_def checkP_def Let_def split: sum.split)
  qed
  have "safeA True (owner lp) (running d0)
      (seqP (case d of None \<Rightarrow> bootstrap | Some stored \<Rightarrow> okP stored) ?rest) (\<lambda>_ _. True) (d, tr)"
    using I boot by (intro safeA_seqP) (auto split: option.split intro: rest safeA_mono)
  then show ?thesis using I by (auto simp: Run_def checkP_def split: sum.split option.split)
qed

lemma history_core: "history lp d tr \<Longrightarrow> core (d, tr)"
proof (induction rule: history.induct)
  case fresh
  show ?case by (simp add: core_def)
next
  case (runs d tr n tr' d' r)
  from runs.IH have "running d (d, tr)" by (simp add: running_def kept_def advanced_def)
  from safeA_exec(1) [OF runs.hyps(2) safe_Run [OF this]] show ?case by (simp add: running_def kept_def)
next
  case (owns d tr tr' d')
  then show ?case using owner_core by blast
qed

end
