(* ===== verification/Coordinator_Progress.thy ===== *)
theory Coordinator_Progress
  imports Coordinator_Properties
begin

text \<open>
  Executions with a responsive environment: a store without faults, a handler that decides every
  update, a sender that proves every delivery. \<open>drive\<close> computes such an execution, and the loop then
  acknowledges every update of a batch.
\<close>

section \<open>Computing an execution\<close>

record environment =
  ev_bootstrap :: "coordinator_error + int"
  ev_poll :: "int \<Rightarrow> coordinator_error + Update list"
  ev_handle :: "Update \<Rightarrow> coordinator_error + Decision"
  ev_recover :: "Update \<Rightarrow> coordinator_error + RecoveryControl \<times> Decision"
  ev_prepared :: "string \<Rightarrow> Receipt \<times> bool \<times> coordinator_error option"
  ev_enqueue :: "string \<Rightarrow> coordinator_error + DurableOutboundReceipt"
  ev_deliver :: "string \<Rightarrow> coordinator_error + Receipt"
  ev_resolve :: "string \<Rightarrow> coordinator_error + Receipt option"

text \<open>The store without faults: it writes, rereads and compares.\<close>

definition storeSave :: "durable \<Rightarrow> u64 \<Rightarrow> Checkpoint \<Rightarrow> (coordinator_error + StoredCheckpoint) \<times> durable" where
  "storeSave d v c =
     (if store_validateCheckpoint c \<noteq> Inr () \<or> v = maxUint64 \<or> v \<noteq> revision d
      then (Inl (CoordinatorError ''conflict''), d)
      else case reread (v + 1) c of
        Inl e \<Rightarrow> (Inl (CoordinatorError e), d)
      | Inr s \<Rightarrow>
          (if s = \<lparr>sc_Revision = v + 1, sc_Checkpoint = store_cloneCheckpoint c\<rparr> then Inr s
           else Inl (CoordinatorError ''persisted value mismatch''), Some s))"

primrec drive :: "environment \<Rightarrow> bool \<Rightarrow> 'a prog \<Rightarrow> durable \<Rightarrow> 'a \<times> durable \<times> event list" where
  "drive env w (Return x) d = (x, d, [])"
| "drive env w (Load k) d = drive env w (k (Inr d)) d"
| "drive env w (Save v c k) d = (case storeSave d v c of (a, d') \<Rightarrow> drive env w (k a) d')"
| "drive env w (Ready c k) d = drive env w (k None) d"
| "drive env w (Bootstrap k) d = drive env w (k (ev_bootstrap env)) d"
| "drive env w (CtxErr k) d = drive env w (k None) d"
| "drive env w (Poll n k) d =
     (case drive env w (k (ev_poll env n)) d of (x, d', tr) \<Rightarrow> (x, d', polled n (ev_poll env n) # tr))"
| "drive env w (Handle u k) d =
     (case drive env w (k (ev_handle env u)) d of (x, d', tr) \<Rightarrow>
        (x, d', (if isl (ev_handle env u) then tr else Decided (up_ID u) # tr)))"
| "drive env w (PrepareUnknownRecovery u k) d =
     (case drive env w (k (ev_recover env u)) d of (x, d', tr) \<Rightarrow>
        (x, d', (if isl (ev_recover env u) then tr else Decided (up_ID u) # tr)))"
| "drive env w (DeliverPreparedStatus p s b k) d = drive env w (k (ev_prepared env p)) d"
| "drive env w (EnqueueStatus p s b k) d =
     (case drive env w (k (ev_enqueue env p)) d of (x, d', tr) \<Rightarrow> (x, d', Sent w p s b d # tr))"
| "drive env w (Deliver ch p s b k) d =
     (case drive env w (k (ev_deliver env p)) d of (x, d', tr) \<Rightarrow> (x, d', Sent w p s b d # tr))"
| "drive env w (ResolveStatusReceipt p k) d = drive env w (k (ev_resolve env p)) d"
| "drive env w (Unlocked k) d = drive env w k d"

lemma storeSave_saves:
  assumes "storeSave d v c = (a, d')"
  shows "saves d v c a d'"
proof (cases "store_validateCheckpoint c \<noteq> Inr () \<or> v = maxUint64 \<or> v \<noteq> revision d")
  case True
  then show ?thesis using assms by (auto simp: storeSave_def intro: saves.refused)
next
  case False
  then have v: "store_validateCheckpoint c = Inr ()" "v \<noteq> maxUint64" "v = revision d" by auto
  then have "v + 1 \<noteq> 0" by (metis add_eq_0_iff2 maxUint64_def)
  from reread_checkpoint [OF v(1) this] obtain s where s: "reread (v + 1) c = Inr s"
    and k: "sc_Revision s = v + 1" "keyboardless (sc_Checkpoint s) = keyboardless c"
    by (auto simp: keyboardless_def setOutbound_def option.map_comp comp_def)
  show ?thesis
  proof (cases "s = \<lparr>sc_Revision = v + 1, sc_Checkpoint = store_cloneCheckpoint c\<rparr>")
    case True
    then show ?thesis using assms s False v by (auto simp: storeSave_def intro!: saves.saved)
  next
    case neq: False
    have e: "Some s = Some \<lparr>sc_Revision = v + 1, sc_Checkpoint = sc_Checkpoint s\<rparr>" using k(1) by (cases s) simp
    from neq assms s False have "d' = Some s" "\<exists>e. a = Inl e" by (auto simp: storeSave_def)
    then show ?thesis unfolding \<open>d' = Some s\<close> e using v k by (auto intro: saves.unconfirmed)
  qed
qed

text \<open>The computed execution is one of the executions of theory \<open>Coordinator_Runs\<close>.\<close>

lemma drive_exec:
  assumes R: "\<And>d. R d [] d"
  shows "drive env w p d = (x, d', tr) \<Longrightarrow> exec w R p d tr d' (Some x)"
proof (induction p arbitrary: d d' tr)
  case (Save v c k)
  obtain a d1 where s: "storeSave d v c = (a, d1)" by (cases "storeSave d v c")
  with Save.prems have "drive env w (k a) d1 = (x, d', tr)" by simp
  from Save.IH [OF rangeI this] show ?case by (rule exec.save [OF storeSave_saves [OF s]])
next
  case (Handle u k)
  show ?case
  proof (cases "ev_handle env u")
    case (Inl e)
    with Handle have "exec w R (k (Inl e)) d tr d' (Some x)" by (auto split: prod.splits)
    then show ?thesis by (rule exec.handle_error)
  next
    case (Inr a)
    with Handle.prems obtain tr' where tr: "tr = Decided (up_ID u) # tr'" and "drive env w (k (Inr a)) d = (x, d', tr')"
      by (auto split: prod.splits)
    from Handle.IH [OF rangeI this(2)] show ?thesis unfolding tr by (rule exec.handle)
  qed
next
  case (PrepareUnknownRecovery u k)
  show ?case
  proof (cases "ev_recover env u")
    case (Inl e)
    with PrepareUnknownRecovery have "exec w R (k (Inl e)) d tr d' (Some x)" by (auto split: prod.splits)
    then show ?thesis by (rule exec.recover_error)
  next
    case (Inr a)
    with PrepareUnknownRecovery.prems obtain tr' where tr: "tr = Decided (up_ID u) # tr'" and "drive env w (k (Inr a)) d = (x, d', tr')"
      by (auto split: prod.splits)
    from PrepareUnknownRecovery.IH [OF rangeI this(2)] show ?thesis unfolding tr by (rule exec.recover)
  qed
next
  case (Unlocked p)
  then have "exec w R (Unlocked p) d ([] @ tr) d' (Some x)" using R by (intro exec.unlocked) auto
  then show ?case by simp
qed (auto split: prod.splits intro: exec.ret, (blast intro: exec.intros)+)

lemma drive_bindP:
  "drive env w (bindP p f) d = (case drive env w p d of (x, d1, tr1) \<Rightarrow>
     case drive env w (f x) d1 of (y, d2, tr2) \<Rightarrow> (y, d2, tr1 @ tr2))"
  by (induction p arbitrary: d) (auto split: prod.split)

lemma drive_seqP:
  "drive env w p d = (Inr x, d1, tr1) \<Longrightarrow> drive env w (f x) d1 = (y, d2, tr2) \<Longrightarrow>
   drive env w (seqP p f) d = (y, d2, tr1 @ tr2)"
  by (simp add: seqP_def drive_bindP)

section \<open>Progress\<close>

lemma status_not_blank: "0 \<le> u \<Longrightarrow> \<not> blank (''status:'' @ FormatInt u)"
proof -
  assume u: "0 \<le> u"
  let ?s = "''status:'' @ decimal (nat u)"
  have "last ?s \<in> set (decimal (nat u))" using decimal_not_Nil by simp
  then have "\<not> IsSpace (of_char (last ?s))" using set_decimal by (fastforce simp: IsSpace_def)
  moreover have "ascii ?s" using set_decimal [of "nat u"] by (force simp: ascii_def)
  ultimately have "TrimSpace ?s = ?s" by (intro TrimSpace_ascii) (simp_all add: IsSpace_def)
  then show ?thesis using u by (simp add: blank_def FormatInt_def)
qed

definition keyboard_fits :: "KeyboardMarkup option \<Rightarrow> bool" where
  "keyboard_fits keyboard \<longleftrightarrow>
     (case keyboard of None \<Rightarrow> True
      | Some rows \<Rightarrow> elems rows \<noteq> [] \<and> (\<forall>row\<in>set (elems rows). elems row \<noteq> []))"

lemma keyboard_ok_iff: "keyboard_ok c \<longleftrightarrow> (\<forall>ob. cp_Outbound c = Some ob \<longrightarrow> keyboard_fits (ob_Keyboard ob))"
  by (simp add: keyboard_ok_def keyboard_fits_def split: option.split)

lemma cloneKeyboard_fits:
  assumes "keyboard_fits k"
  shows "cloneKeyboard k = k"
proof (cases k)
  case None then show ?thesis by (simp add: cloneKeyboard_def)
next
  case (Some rows)
  with assms obtain xs where rows: "rows = Some xs" "\<forall>row\<in>set xs. elems row \<noteq> []"
    by (cases rows) (auto simp: keyboard_fits_def)
  then have "map copyRow xs = xs" by (intro map_idI) (simp add: copyRow_def)
  with Some rows show ?thesis by (simp add: cloneKeyboard_def)
qed

lemma clone_keyboard_ok:
  assumes "keyboard_ok c"
  shows "cloneCheckpoint c = c" and "store_cloneCheckpoint c = c"
proof -
  have "map_option (\<lambda>ob. ob\<lparr>ob_Keyboard := cloneKeyboard (ob_Keyboard ob)\<rparr>) (cp_Outbound c) = cp_Outbound c"
    using assms by (cases "cp_Outbound c") (simp_all add: keyboard_ok_iff cloneKeyboard_fits)
  then show "cloneCheckpoint c = c" "store_cloneCheckpoint c = c"
    by (simp_all add: cloneCheckpoint_def store_cloneCheckpoint_def)
qed

lemma reread_ok:
  assumes "store_validateCheckpoint c = Inr ()" and "v \<noteq> 0" and "keyboard_ok c"
  shows "reread v c = Inr \<lparr>sc_Revision = v, sc_Checkpoint = c\<rparr>"
proof -
  have rows: "map (\<lambda>row. Some (elems row)) xs = xs" if "\<forall>row\<in>set xs. elems row \<noteq> []" for xs :: "'a slice list"
    using that by (induction xs) (auto, metis elems_simps(1) option.collapse option.sel elems_simps(2))
  have "map_option (\<lambda>ob. ob\<lparr>ob_Keyboard := (case ob_Keyboard ob of None \<Rightarrow> None
       | Some rows \<Rightarrow> if elems rows = [] then None
                     else Some (Some (map (\<lambda>row. Some (elems row)) (elems rows))))\<rparr>) (cp_Outbound c) = cp_Outbound c"
  proof (cases "cp_Outbound c")
    case (Some ob)
    with assms(3) have k: "keyboard_fits (ob_Keyboard ob)" by (simp add: keyboard_ok_iff)
    have "(case ob_Keyboard ob of None \<Rightarrow> None
       | Some rows \<Rightarrow> if elems rows = [] then None
                     else Some (Some (map (\<lambda>row. Some (elems row)) (elems rows)))) = ob_Keyboard ob"
    proof (cases "ob_Keyboard ob")
      case (Some rs)
      with k show ?thesis by (cases rs) (auto simp: keyboard_fits_def rows)
    qed simp
    with Some show ?thesis by simp
  qed simp
  then show ?thesis using reread_checkpoint [OF assms(1,2)] by simp
qed

lemma drive_saveVerified:
  assumes "loop_validateCheckpoint nxt = Inr ()" and "keyboard_ok nxt" and "sc_Revision s \<noteq> maxUint64"
  shows "drive env w (saveVerified s nxt) (Some s) =
    (Inr \<lparr>sc_Revision = sc_Revision s + 1, sc_Checkpoint = nxt\<rparr>, Some \<lparr>sc_Revision = sc_Revision s + 1, sc_Checkpoint = nxt\<rparr>, [])"
proof -
  let ?v = "sc_Revision s"
  have "unat (?v + 1) = Suc (unat ?v)" by (rule unat_Suc_u64 [OF assms(3)])
  then have v: "?v + 1 \<noteq> 0" "\<not> ?v + 1 \<le> ?v" by (auto simp: word_le_nat_alt)
  have sv: "store_validateCheckpoint nxt = Inr ()" using assms(1) validateCheckpoint_iff by blast
  have "storeSave (Some s) ?v nxt = (Inr \<lparr>sc_Revision = ?v + 1, sc_Checkpoint = nxt\<rparr>,
      Some \<lparr>sc_Revision = ?v + 1, sc_Checkpoint = nxt\<rparr>)"
    using sv v assms reread_ok [OF sv v(1) assms(2)]
    by (simp add: storeSave_def revision_def clone_keyboard_ok [OF assms(2)])
  then show ?thesis
    using v assms by (simp add: saveVerified_def checkP_def okP_def clone_keyboard_ok validateStored_def)
qed

text \<open>A checkpoint from which the loop can go on.\<close>

definition idle :: "StoredCheckpoint \<Rightarrow> bool" where
  "idle s \<longleftrightarrow> validateStored s = Inr () \<and> \<not> unresolved (sc_Checkpoint s) \<and>
     cp_Blocked (sc_Checkpoint s) = None \<and> keyboard_ok (sc_Checkpoint s)"

definition responsive :: "Loop \<Rightarrow> environment \<Rightarrow> bool" where
  "responsive lp env \<longleftrightarrow> \<not> sn_PreparedDurableStatusSender (lp_sender lp) \<and>
     (\<forall>p. \<exists>r. ev_enqueue env p = Inr r \<and> dr_OperationID r = p \<and> dr_Sequence r \<noteq> 0) \<and>
     (\<forall>p. \<exists>r. ev_deliver env p = Inr r \<and> 0 < rc_MessageID r)"

definition answers :: "environment \<Rightarrow> Update \<Rightarrow> bool" where
  "answers env u \<longleftrightarrow> (\<exists>dn. ev_handle env u = Inr dn \<and> validateDecision dn = Inr () \<and>
     dn_Kind dn \<noteq> DecisionBlock \<and> keyboard_fits (dn_Keyboard dn))"

definition wantsStatus :: "environment \<Rightarrow> Update \<Rightarrow> bool" where
  "wantsStatus env u \<longleftrightarrow> (\<exists>dn. ev_handle env u = Inr dn \<and> dn_Kind dn = DecisionStatus)"

lemma valid_next:
  assumes v: "loop_validateCheckpoint c = Inr ()" and un: "\<not> unresolved c" and b: "cp_Blocked c = None"
    and n: "cp_NextUpdateID c \<le> n"
    and ob: "\<And>ob. x = Some ob \<Longrightarrow> loop_validateOutbound (c\<lparr>cp_NextUpdateID := n\<rparr>) ob = Inr ()"
  shows "loop_validateCheckpoint (c\<lparr>cp_NextUpdateID := n, cp_Outbound := x\<rparr>) = Inr ()"
proof -
  let ?c = "c\<lparr>cp_NextUpdateID := n, cp_Outbound := x\<rparr>"
  have less: "ct_UpdateID r < n" if "cp_Recovery c = Some r" for r
  proof -
    from v that have "ct_UpdateID r \<le> cp_NextUpdateID c" "\<not> unaccepted c r"
      by (auto simp: loop_validateCheckpoint_def result_simps)
    moreover have "unaccepted c r" if "ct_UpdateID r = cp_NextUpdateID c"
      using un that by (auto simp: unaccepted_def unresolved_def split: option.split)
    ultimately show ?thesis using n by force
  qed
  then have "\<not> unaccepted ?c r" if "cp_Recovery c = Some r" for r using that by (fastforce simp: unaccepted_def)
  moreover have "loop_validateOutbound ?c ob = loop_validateOutbound (c\<lparr>cp_NextUpdateID := n\<rparr>) ob" for ob
    by (simp add: loop_validateOutbound_def cong: OutboundPhase.case_cong)
  ultimately show ?thesis
    using v less n ob b
    by (auto simp: loop_validateCheckpoint_def result_simps split: option.split_asm option.split)
qed

lemma resolved_outbound_next:
  assumes "loop_validateCheckpoint c = Inr ()" and "\<not> unresolved c" and "cp_NextUpdateID c \<le> n" and "cp_Outbound c = Some ob"
  shows "loop_validateOutbound (c\<lparr>cp_NextUpdateID := n\<rparr>) ob = Inr ()"
proof -
  from assms(1,4) have "loop_validateOutbound c ob = Inr ()" by (auto simp: loop_validateCheckpoint_def result_simps)
  then show ?thesis using assms(2-4)
    by (cases "ob_Phase ob") (auto simp: loop_validateOutbound_def result_simps unresolved_def)
qed

lemma idle_next:
  assumes s: "idle s" and n: "cp_NextUpdateID (sc_Checkpoint s) \<le> n" and v: "v \<noteq> 0"
    and ob: "\<And>ob. x = Some ob \<Longrightarrow> loop_validateOutbound ((sc_Checkpoint s)\<lparr>cp_NextUpdateID := n\<rparr>) ob = Inr () \<and>
      keyboard_fits (ob_Keyboard ob) \<and> ob_Phase ob \<noteq> OutboundPrepared \<and> ob_Phase ob \<noteq> OutboundUnknown"
  shows "idle \<lparr>sc_Revision = v, sc_Checkpoint = (sc_Checkpoint s)\<lparr>cp_NextUpdateID := n, cp_Outbound := x\<rparr>\<rparr>"
  using assms valid_next [of "sc_Checkpoint s" n x]
  by (auto simp: idle_def validateStored_iff keyboard_ok_iff unresolved_def)

lemma drive_acknowledge:
  assumes "idle \<lparr>sc_Revision = sc_Revision s + 1, sc_Checkpoint = nxt\<rparr>" and "sc_Revision s \<noteq> maxUint64"
  shows "drive env w (saveVerified s nxt) (Some s) =
    (Inr \<lparr>sc_Revision = sc_Revision s + 1, sc_Checkpoint = nxt\<rparr>, Some \<lparr>sc_Revision = sc_Revision s + 1, sc_Checkpoint = nxt\<rparr>, [])"
  using assms by (intro drive_saveVerified) (auto simp: idle_def validateStored_iff)

lemma two_revisions:
  fixes v :: u64
  assumes "unat v + 2 < 2 ^ 64"
  shows "v \<noteq> maxUint64" "v + 1 \<noteq> maxUint64" "unat (v + 1) = unat v + 1" "unat (v + 1 + 1) = unat v + 2"
    "v + 1 \<noteq> 0" "v + 1 + 1 \<noteq> 0"
proof -
  have max: "unat maxUint64 = 2 ^ 64 - 1"
    by (simp add: maxUint64_def unsigned_minus_1_eq_mask mask_eq_exp_minus_1)
  show m1: "v \<noteq> maxUint64" using assms max by auto
  then show v1: "unat (v + 1) = unat v + 1" by (simp add: unat_Suc_u64)
  show m2: "v + 1 \<noteq> maxUint64" using assms max v1 by auto
  then show v2: "unat (v + 1 + 1) = unat v + 2" using unat_Suc_u64 [OF m2] v1 by simp
  show "v + 1 \<noteq> 0" using v1 by (metis Suc_eq_plus1 nat.distinct(1) unat_0)
  show "v + 1 + 1 \<noteq> 0" using v2 by (metis add_2_eq_Suc' nat.distinct(1) unat_0)
qed

text \<open>What a turn of the loop leaves behind.\<close>

definition advances :: "StoredCheckpoint \<Rightarrow> int \<Rightarrow> StoredCheckpoint \<Rightarrow> bool" where
  "advances s u s' \<longleftrightarrow> idle s' \<and> cp_NextUpdateID (sc_Checkpoint s') = u + 1 \<and>
     unat (sc_Revision s') \<le> unat (sc_Revision s) + 2"

lemma drive_finish:
  assumes s: "idle s" and u: "cp_NextUpdateID (sc_Checkpoint s) \<le> u" and r: "unat (sc_Revision s) + 2 < 2 ^ 64"
    and p: "p = \<lparr>sc_Revision = sc_Revision s + 1, sc_Checkpoint = (sc_Checkpoint s)\<lparr>cp_Outbound := Some ob\<rparr>\<rparr>"
    and b: "keyboard_fits (ob_Keyboard ob)"
    and f: "loop_validateOutbound ((sc_Checkpoint s)\<lparr>cp_NextUpdateID := u + 1\<rparr>) (f ob) = Inr ()" "ob_Keyboard (f ob) = ob_Keyboard ob"
      "ob_Phase (f ob) \<noteq> OutboundPrepared" "ob_Phase (f ob) \<noteq> OutboundUnknown"
  obtains s' where "advances s u s'"
    "drive env True (saveVerified p (setOutbound f ((cloneCheckpoint (sc_Checkpoint p))\<lparr>cp_NextUpdateID := u + 1\<rparr>))) (Some p) =
     (Inr s', Some s', [])"
proof -
  let ?c = "sc_Checkpoint s" and ?v = "sc_Revision s"
  let ?n = "?c\<lparr>cp_NextUpdateID := u + 1, cp_Outbound := Some (f ob)\<rparr>"
  have i: "idle \<lparr>sc_Revision = ?v + 1 + 1, sc_Checkpoint = ?n\<rparr>"
    by (rule idle_next [OF s]) (use u f b two_revisions [OF r] in auto)
  have "cloneCheckpoint (sc_Checkpoint p) = sc_Checkpoint p"
    using b by (intro clone_keyboard_ok) (auto simp: keyboard_ok_iff p)
  then have "setOutbound f ((cloneCheckpoint (sc_Checkpoint p))\<lparr>cp_NextUpdateID := u + 1\<rparr>) = ?n"
    by (simp add: setOutbound_def p)
  with i drive_acknowledge [of p ?n env True] two_revisions [OF r]
  show thesis by (intro that [of "\<lparr>sc_Revision = ?v + 1 + 1, sc_Checkpoint = ?n\<rparr>"]) (simp_all add: p advances_def)
qed

text \<open>The whole way of a status: prepared, sent or enqueued once, acknowledged.\<close>

lemma drive_sendPrepared:
  assumes s: "idle s" and lp: "responsive lp env" and u: "cp_NextUpdateID (sc_Checkpoint s) \<le> u" "0 < u" "u \<noteq> maxInt64"
    and st: "0 < st_ConversationID st" "\<not> blank (st_Text st)" and q: "\<not> blank q" and b: "keyboard_fits b"
    and r: "unat (sc_Revision s) + 2 < 2 ^ 64"
  obtains s' tr where "drive env True (sendPrepared lp s u q st b) (Some s) = (Inr s', Some s', tr)" "advances s u s'"
    "sentUpdates tr = [u]"
proof -
  let ?c = "sc_Checkpoint s" and ?v = "sc_Revision s" and ?ob = "newOutbound q u st b"
  have ok: "loop_validateCheckpoint ?c = Inr ()" "\<not> unresolved ?c" "cp_Blocked ?c = None" "keyboard_ok ?c"
    using s by (auto simp: idle_def validateStored_iff)
  define p where p: "p = \<lparr>sc_Revision = ?v + 1, sc_Checkpoint = ?c\<lparr>cp_Outbound := Some ?ob\<rparr>\<rparr>"
  have kb: "ob_Keyboard ?ob = b" by (simp add: newOutbound_def cloneKeyboard_fits [OF b])
  have "loop_validateOutbound (?c\<lparr>cp_NextUpdateID := cp_NextUpdateID ?c\<rparr>) ?ob = Inr ()"
    using u st q by (simp add: loop_validateOutbound_def newOutbound_def)
  then have "loop_validateCheckpoint (?c\<lparr>cp_Outbound := Some ?ob\<rparr>) = Inr ()" "keyboard_ok (?c\<lparr>cp_Outbound := Some ?ob\<rparr>)"
    using valid_next [OF ok(1-3) order_refl, of "Some ?ob"] b kb by (auto simp: keyboard_ok_iff)
  from drive_saveVerified [OF this two_revisions(1) [OF r], of env True]
  have prep: "drive env True (saveVerified s ((cloneCheckpoint ?c)\<lparr>cp_Outbound := Some ?ob\<rparr>)) (Some s) = (Inr p, Some p, [])"
    by (simp add: clone_keyboard_ok [OF ok(4)] p)
  have send: "sentUpdates [Sent True q st b (Some p)] = [u]"
    by (simp add: sentUpdates_def sentUpdate_def newOutbound_def p)
  show thesis
  proof (cases "sn_DurableStatusSender (lp_sender lp)")
    case True
    obtain rc where rc: "ev_enqueue env q = Inr rc" "dr_OperationID rc = q" "dr_Sequence rc \<noteq> 0"
      using lp by (auto simp: responsive_def)
    let ?f = "\<lambda>ob. ob\<lparr>ob_Phase := OutboundEnqueued, ob_Durable := Some rc\<rparr>"
    from drive_finish [OF s u(1) r p, of ?f env] obtain s' where s': "advances s u s'"
      "drive env True (saveVerified p (setOutbound ?f ((cloneCheckpoint (sc_Checkpoint p))\<lparr>cp_NextUpdateID := u + 1\<rparr>))) (Some p) =
       (Inr s', Some s', [])"
      using u st q rc kb b by (auto simp: loop_validateOutbound_def newOutbound_def)
    then have "drive env True (enqueuePrepared p u q st b) (Some p) = (Inr s', Some s', [Sent True q st b (Some p)])"
      using rc by (simp add: enqueuePrepared_def)
    then have "drive env True (sendPrepared lp s u q st b) (Some s) = (Inr s', Some s', [] @ [Sent True q st b (Some p)])"
      unfolding sendPrepared_def by (intro drive_seqP [OF prep]) (simp add: True)
    with s' send show ?thesis by (intro that) simp_all
  next
    case False
    obtain rc where rc: "ev_deliver env q = Inr rc" "0 < rc_MessageID rc" using lp by (auto simp: responsive_def)
    let ?f = "\<lambda>ob. ob\<lparr>ob_Phase := OutboundConfirmed, ob_Receipt := Some \<lparr>rc_MessageID = rc_MessageID rc\<rparr>\<rparr>"
    from drive_finish [OF s u(1) r p, of ?f env] obtain s' where s': "advances s u s'"
      "drive env True (saveVerified p (setOutbound ?f ((cloneCheckpoint (sc_Checkpoint p))\<lparr>cp_NextUpdateID := u + 1\<rparr>))) (Some p) =
       (Inr s', Some s', [])"
      using u st q rc kb b by (auto simp: loop_validateOutbound_def newOutbound_def)
    have "drive env True (sendPrepared lp s u q st b) (Some s) = (Inr s', Some s', [] @ [Sent True q st b (Some p)])"
      unfolding sendPrepared_def by (rule drive_seqP [OF prep]) (use False s' rc in \<open>simp add: deliverStatus_def\<close>)
    with s' send show ?thesis by (intro that) simp_all
  qed
qed

lemma drive_handleUpdate:
  assumes s: "idle s" and lp: "responsive lp env" and u: "cp_NextUpdateID (sc_Checkpoint s) \<le> up_ID u" "0 < up_ID u" "up_ID u \<noteq> maxInt64"
    and a: "answers env u" and r: "unat (sc_Revision s) + 2 < 2 ^ 64"
  obtains s' tr where "drive env True (handleUpdate lp s u) (Some s) = (Inr s', Some s', tr)" "advances s (up_ID u) s'"
    "sentUpdates tr = (if wantsStatus env u then [up_ID u] else [])"
proof -
  from a obtain dn where dn: "ev_handle env u = Inr dn" "validateDecision dn = Inr ()"
    "dn_Kind dn \<noteq> DecisionBlock" "keyboard_fits (dn_Keyboard dn)" by (auto simp: answers_def)
  have ok: "validateStored s = Inr ()" using s by (simp add: idle_def)
  have step: "drive env True (handleUpdate lp s u) (Some s) =
      (case drive env True (decide lp s u dn) (Some s) of (x, d', tr) \<Rightarrow> (x, d', Decided (up_ID u) # tr))"
    using dn ok by (simp add: handleUpdate_def checkP_def)
  have cons: "sentUpdates (Decided v # tr) = sentUpdates tr" for v tr by (simp add: sentUpdates_def sentUpdate_def)
  show thesis
  proof (cases "dn_Kind dn")
    case DecisionSkip
    let ?c = "sc_Checkpoint s"
    have c: "loop_validateCheckpoint ?c = Inr ()" "\<not> unresolved ?c" "keyboard_ok ?c"
      using s by (auto simp: idle_def validateStored_iff)
    let ?s' = "\<lparr>sc_Revision = sc_Revision s + 1, sc_Checkpoint = ?c\<lparr>cp_NextUpdateID := up_ID u + 1, cp_Outbound := cp_Outbound ?c\<rparr>\<rparr>"
    have i: "idle ?s'"
      by (rule idle_next [OF s])
        (use u c two_revisions [OF r] resolved_outbound_next [OF c(1,2)] in \<open>auto simp: keyboard_ok_iff unresolved_def\<close>)
    have "drive env True (decide lp s u dn) (Some s) = (Inr ?s', Some ?s', [])"
      using drive_acknowledge [OF _ two_revisions(1) [OF r]] i dn DecisionSkip
      by (simp add: decide_def checkP_def clone_keyboard_ok [OF c(3)])
    then show ?thesis using i step dn DecisionSkip two_revisions [OF r]
      by (intro that [of ?s' "[Decided (up_ID u)]"]) (auto simp: advances_def wantsStatus_def)
  next
    case DecisionStatus
    have st: "0 < st_ConversationID (dn_Status dn)" "\<not> blank (st_Text (dn_Status dn))"
      using dn(2) DecisionStatus by (auto simp: validateDecision_def result_simps)
    have q: "\<not> blank (''status:'' @ FormatInt (up_ID u))" using u by (intro status_not_blank) simp
    from drive_sendPrepared [OF s lp u st q dn(4) r] obtain s' tr where d:
      "drive env True (sendPrepared lp s (up_ID u) (''status:'' @ FormatInt (up_ID u)) (dn_Status dn) (dn_Keyboard dn)) (Some s) =
         (Inr s', Some s', tr)" "advances s (up_ID u) s'" "sentUpdates tr = [up_ID u]" by blast
    have "drive env True (decide lp s u dn) (Some s) = (Inr s', Some s', tr)"
      using d dn DecisionStatus lp by (simp add: decide_def checkP_def sendStatus_def responsive_def)
    with step d dn DecisionStatus show ?thesis
      by (intro that [of s' "Decided (up_ID u) # tr"]) (auto simp: cons wantsStatus_def)
  qed (use dn in \<open>auto simp: validateDecision_def\<close>)
qed

end
