(* ===== verification/Coordinator_Claims.thy ===== *)
theory Coordinator_Claims
  imports Coordinator_Progress
begin

text \<open>
  The properties of the coordinator and of its checkpoint, with an installation that has polled and
  answered one message as their common example.
\<close>

section \<open>An example\<close>

definition exampleLoop :: Loop where
  "exampleLoop = \<lparr>lp_sender = \<lparr>sn_PreparedDurableStatusSender = False, sn_DurableStatusSender = False,
     sn_CarrierEditor = False, sn_KeyboardSender = True, sn_OutboundReceiptResolver = False\<rparr>,
     lp_UnknownRecoveryHandler = True\<rparr>"

definition exampleUpdate :: Update where
  "exampleUpdate = zeroUpdate\<lparr>up_ID := 5, up_Kind := UpdateMessage, up_ActorID := 1, up_ConversationID := 1,
     up_ConversationKind := ''private'', up_Text := ''hi''\<rparr>"

definition exampleStatus :: Status where
  "exampleStatus = zeroStatus\<lparr>st_ConversationID := 1, st_Text := ''ok''\<rparr>"

definition exampleEnv :: environment where
  "exampleEnv = \<lparr>ev_bootstrap = Inr 5, ev_poll = (\<lambda>_. Inr [exampleUpdate]),
     ev_handle = (\<lambda>_. Inr \<lparr>dn_Kind = DecisionStatus, dn_Status = exampleStatus, dn_BlockReason = [], dn_Keyboard = None\<rparr>),
     ev_recover = (\<lambda>_. Inl ErrDeliveryUnknown), ev_prepared = (\<lambda>_. (\<lparr>rc_MessageID = 0\<rparr>, False, None)),
     ev_enqueue = (\<lambda>p. Inr \<lparr>dr_OperationID = p, dr_Sequence = 1\<rparr>), ev_deliver = (\<lambda>_. Inr \<lparr>rc_MessageID = 9\<rparr>),
     ev_resolve = (\<lambda>_. Inr None)\<rparr>"

definition exampleStart :: StoredCheckpoint where
  "exampleStart = \<lparr>sc_Revision = 1, sc_Checkpoint = zeroCheckpoint\<lparr>cp_Initialized := True, cp_NextUpdateID := 5\<rparr>\<rparr>"

definition examplePrepared :: StoredCheckpoint where
  "examplePrepared = \<lparr>sc_Revision = 2, sc_Checkpoint = (sc_Checkpoint exampleStart)
     \<lparr>cp_Outbound := Some (newOutbound ''status:5'' 5 exampleStatus None)\<rparr>\<rparr>"

definition exampleEnd :: StoredCheckpoint where
  "exampleEnd = \<lparr>sc_Revision = 3, sc_Checkpoint = (sc_Checkpoint exampleStart)
     \<lparr>cp_NextUpdateID := 6, cp_Outbound := Some ((newOutbound ''status:5'' 5 exampleStatus None)
        \<lparr>ob_Phase := OutboundConfirmed, ob_Receipt := Some \<lparr>rc_MessageID = 9\<rparr>\<rparr>)\<rparr>\<rparr>"

definition exampleTrace :: "event list" where
  "exampleTrace = [Polled [5], Decided 5, Sent True ''status:5'' exampleStatus None (Some examplePrepared)]"

lemma example_drive: "drive exampleEnv True (Run exampleLoop 1) None = (Inr (), Some exampleEnd, exampleTrace)"
  by code_simp

lemma example_history: "history exampleLoop (Some exampleEnd) exampleTrace"
proof -
  have "exec True (owner exampleLoop) (Run exampleLoop 1) None exampleTrace (Some exampleEnd) (Some (Inr ()))"
    by (rule drive_exec, rule owner_none, rule example_drive)
  from history.runs [OF history.fresh this] show ?thesis by simp
qed

section \<open>Sending\<close>



text \<open>
  C21. An update of the last polled batch below the durable offset, so one that the source will not
  deliver again, has been decided by the handler or by its recovery.
\<close>

theorem acknowledged_decided:
  assumes "history lp d tr" and "u \<in> set (lastPoll tr)" and "u < offset d"
  shows "Decided u \<in> set tr"
  using coreD(3) [OF history_core [OF assms(1)] assms(2)] assms(3)
    offset_le_horizon [OF coreD(1) [OF history_core [OF assms(1)]]] by simp

theorem acknowledged_decided_witness:
  "history exampleLoop (Some exampleEnd) exampleTrace \<and> 5 \<in> set (lastPoll exampleTrace) \<and>
   5 < offset (Some exampleEnd) \<and> Decided 5 \<in> set exampleTrace"
proof -
  have "5 \<in> set (lastPoll exampleTrace)" "5 < offset (Some exampleEnd)" by code_simp+
  with acknowledged_decided [OF example_history, of 5] example_history show ?thesis by blast
qed



section \<open>Progress\<close>







section \<open>The checkpoint\<close>

text \<open>
  C24. The coordinator and the store check a checkpoint with separately written code. They accept the
  same checkpoints.
\<close>

theorem validations_agree:
  "loop_validateCheckpoint c = Inr () \<longleftrightarrow> store_validateCheckpoint c = Inr ()"
  by (rule validateCheckpoint_iff)



section \<open>Recovery prompts and gaps\<close>

lemma seqP_fail: "seqP (failP e) f = failP e"
  by (simp add: seqP_def failP_def)

text \<open>
  C38. Update IDs may have gaps, and the loop accepts them. A failed callback whose ID is not exactly the
  offset cannot be answered with a recovery prompt, though: the checkpoint that prepares the prompt is
  refused because the control refers to an update after the offset. Nothing is stored or sent, and the
  handling ends in an error.
\<close>

theorem recovery_gap:
  assumes "cp_NextUpdateID (sc_Checkpoint s) < up_ID u" and "exec w R (recoverUpdate lp s u) d tr d' r"
  shows "d' = d \<and> sentUpdates tr = [] \<and> (\<forall>x. r = Some x \<longrightarrow> isl x)"
proof -
  let ?nxt = "\<lambda>ct pr. (cloneCheckpoint (sc_Checkpoint s))\<lparr>cp_Recovery := Some ct,
     cp_Outbound := Some (newOutbound (ct_PromptOperationID ct) (up_ID u) (dn_Status pr) (dn_Keyboard pr))\<rparr>"
  let ?I = "\<lambda>g. fst g = d \<and> sentUpdates (snd g) = []"
  have "loop_validateCheckpoint (?nxt ct pr) \<noteq> Inr ()" if "recoverycontrol_Validate ct (up_ID u) = Inr ()" for ct pr
    using assms(1) that by (auto simp: loop_validateCheckpoint_def recoverycontrol_Validate_def result_simps)
  then have fail: "saveVerified s (?nxt ct pr) = failP ErrInvalidCheckpoint"
    if "recoverycontrol_Validate ct (up_ID u) = Inr ()" for ct pr
    using that by (cases "loop_validateCheckpoint (?nxt ct pr)") (auto simp: saveVerified_def checkP_def)
  have "safeA w R ?I (recoverUpdate lp s u) (\<lambda>_ _. False) (d, [])"
    by (auto simp: recoverUpdate_def enqueueRecoveryPrompt_def checkP_def fail seqP_fail split: sum.split)
  from safeA_exec [OF assms(2) this] show ?thesis by (auto simp: isl_def) (metis obj_sumE)
qed

definition gapLoop :: Loop where
  "gapLoop = exampleLoop\<lparr>lp_sender := (lp_sender exampleLoop)\<lparr>sn_DurableStatusSender := True\<rparr>\<rparr>"

definition gapEnv :: environment where
  "gapEnv = exampleEnv\<lparr>ev_recover := (\<lambda>_. Inr (\<lparr>ct_OriginalOperationID = ''status:4'',
     ct_PromptOperationID = ''recovery:callback:5'', ct_UpdateID = 5\<rparr>,
     \<lparr>dn_Kind = DecisionStatus, dn_Status = exampleStatus, dn_BlockReason = [], dn_Keyboard = None\<rparr>))\<rparr>"

definition gapStart :: StoredCheckpoint where
  "gapStart = \<lparr>sc_Revision = 1, sc_Checkpoint = zeroCheckpoint\<lparr>cp_Initialized := True, cp_NextUpdateID := 3\<rparr>\<rparr>"

theorem recovery_gap_witness:
  "exec True (owner gapLoop) (recoverUpdate gapLoop gapStart exampleUpdate) (Some gapStart) [Decided 5] (Some gapStart)
     (Some (Inl ErrInvalidCheckpoint)) \<and> sentUpdates [Decided 5] = []"
proof -
  have "drive gapEnv True (recoverUpdate gapLoop gapStart exampleUpdate) (Some gapStart) =
      (Inl ErrInvalidCheckpoint, Some gapStart, [Decided 5])" by code_simp
  then have e: "exec True (owner gapLoop) (recoverUpdate gapLoop gapStart exampleUpdate) (Some gapStart) [Decided 5] (Some gapStart)
     (Some (Inl ErrInvalidCheckpoint))" by (rule drive_exec [rotated]) (rule owner_none)
  have "cp_NextUpdateID (sc_Checkpoint gapStart) < up_ID exampleUpdate" by code_simp
  from recovery_gap [OF this e] e show ?thesis by blast
qed

end
