(* ===== verification/State_Json.thy ===== *)
theory State_Json
  imports Prelude
begin

text \<open>
  Canonical keys of a JSON document, package \<^verbatim>\<open>src/internal/statejson\<close>. \<open>ValidateKeys\<close> walks the
  tokens of \<^verbatim>\<open>json.Decoder\<close>; the tree predicate \<open>canonical\<close> says what it decides. A decoder is the
  list of tokens it still delivers; an exhausted list is the end of input or a syntax error, which
  \<open>Token\<close> returns as an error.
\<close>

section \<open>Tokens and values\<close>

datatype token =
    Delim char
  | StringToken string
  | ScalarToken

datatype json =
    JNull
  | JBool bool
  | JNumber int
  | JUnsigned u64
  | JString string
  | JArray "json list"
  | JObject "(string \<times> json) list"

text \<open>
  \<^verbatim>\<open>strings.ToLower\<close>. On ASCII strings it maps the letters; on other strings it goes through the
  Unicode tables of the standard library, which are the parameter \<open>lower\<close>.
\<close>

definition lowerASCII :: "char \<Rightarrow> char" where
  "lowerASCII c =
     (let n = (of_char c :: nat) in if 65 \<le> n \<and> n \<le> 90 then char_of (n + 32) else c)"

definition ToLower :: "(string \<Rightarrow> string) \<Rightarrow> string \<Rightarrow> string" where
  "ToLower lower s = (if ascii s then map lowerASCII s else lower s)"

section \<open>The walk over the tokens\<close>

definition Token :: "token list \<Rightarrow> string + token \<times> token list" where
  "Token ts = (case ts of [] \<Rightarrow> Inl ''unexpected end of JSON input'' | t # ts \<Rightarrow> Inr (t, ts))"

definition More :: "token list \<Rightarrow> bool" where
  "More ts = (case ts of [] \<Rightarrow> False | t # _ \<Rightarrow> t \<noteq> Delim (CHR ''}'') \<and> t \<noteq> Delim (CHR '']''))"

text \<open>
  The recursive closure, with the number of calls left. \<open>readMembers\<close> and \<open>readElements\<close> are the loops
  of its two branches, followed by their closing delimiter.
\<close>

fun readValue :: "(string \<Rightarrow> string) \<Rightarrow> nat \<Rightarrow> token list \<Rightarrow> string + token list"
  and readMembers :: "(string \<Rightarrow> string) \<Rightarrow> nat \<Rightarrow> string set \<Rightarrow> token list \<Rightarrow> string + token list"
  and readElements :: "(string \<Rightarrow> string) \<Rightarrow> nat \<Rightarrow> token list \<Rightarrow> string + token list" where
  "readValue lower 0 ts = Inl ''fuel''"
| "readValue lower (Suc n) ts =
     bindE (Token ts) (\<lambda>(t, ts).
     case t of
       Delim d \<Rightarrow>
         if d = CHR ''{'' then readMembers lower n {} ts
         else if d = CHR ''['' then readElements lower n ts
         else Inl ''unexpected delimiter''
     | _ \<Rightarrow> Inr ts)"
| "readMembers lower 0 seen ts = Inl ''fuel''"
| "readMembers lower (Suc n) seen ts =
     (if More ts then
        bindE (Token ts) (\<lambda>(t, ts).
        case t of
          StringToken key \<Rightarrow>
            bindE (failIf (key \<noteq> ToLower lower key) ''non-canonical object key'') (\<lambda>_.
            bindE (failIf (key \<in> seen) ''duplicate object key'') (\<lambda>_.
            bindE (readValue lower n ts) (\<lambda>ts.
            readMembers lower n (insert key seen) ts)))
        | _ \<Rightarrow> Inl ''object key is not a string'')
      else
        bindE (Token ts) (\<lambda>(t, ts).
        bindE (failIf (t \<noteq> Delim (CHR ''}'')) ''object has invalid closing delimiter'') (\<lambda>_.
        Inr ts)))"
| "readElements lower 0 ts = Inl ''fuel''"
| "readElements lower (Suc n) ts =
     (if More ts then bindE (readValue lower n ts) (readElements lower n)
      else
        bindE (Token ts) (\<lambda>(t, ts).
        bindE (failIf (t \<noteq> Delim (CHR '']'')) ''array has invalid closing delimiter'') (\<lambda>_.
        Inr ts)))"

text \<open>A value reads a token before its loop, and a loop reads a token or calls one value first, so twice the
  number of tokens and one call more are enough.\<close>

definition ValidateKeys :: "(string \<Rightarrow> string) \<Rightarrow> token list \<Rightarrow> string + unit" where
  "ValidateKeys lower ts = bindE (readValue lower (Suc (2 * length ts)) ts) (\<lambda>_. Inr ())"

section \<open>What it decides\<close>

fun tokens :: "json \<Rightarrow> token list" where
  "tokens JNull = [ScalarToken]"
| "tokens (JBool _) = [ScalarToken]"
| "tokens (JNumber _) = [ScalarToken]"
| "tokens (JUnsigned _) = [ScalarToken]"
| "tokens (JString s) = [StringToken s]"
| "tokens (JArray vs) = Delim (CHR ''['') # concat (map tokens vs) @ [Delim (CHR '']'')]"
| "tokens (JObject ms) =
     Delim (CHR ''{'') # concat (map (\<lambda>(k, v). StringToken k # tokens v) ms) @ [Delim (CHR ''}'')]"

fun canonical :: "(string \<Rightarrow> string) \<Rightarrow> json \<Rightarrow> bool" where
  "canonical lower (JArray vs) = list_all (canonical lower) vs"
| "canonical lower (JObject ms) =
     (distinct (map fst ms) \<and> list_all (\<lambda>(k, v). ToLower lower k = k \<and> canonical lower v) ms)"
| "canonical lower _ = True"

section \<open>The number of calls\<close>

text \<open>A call leaves fewer tokens than it was given, and more calls than tokens make no difference.\<close>

lemma read_shorter:
  "readValue lower n ts = Inr r \<Longrightarrow> length r < length ts"
  "readMembers lower n seen ts = Inr r \<Longrightarrow> length r < length ts"
  "readElements lower n ts = Inr r \<Longrightarrow> length r < length ts"
proof (induction lower n ts and lower n seen ts and lower n ts arbitrary: r and r and r
    rule: readValue_readMembers_readElements.induct)
  case (2 lower n ts)
  then show ?case
    by (cases ts) (fastforce simp: Token_def split: token.splits if_splits)+
next
  case (4 lower n seen ts)
  then show ?case
    by (cases ts) (fastforce simp: Token_def result_simps split: token.splits if_splits)+
next
  case (6 lower n ts)
  then show ?case
    by (cases ts) (fastforce simp: Token_def result_simps split: if_splits)+
qed simp_all

lemma bindE_cong: "m = m' \<Longrightarrow> (\<And>x. m' = Inr x \<Longrightarrow> f x = f' x) \<Longrightarrow> bindE m f = bindE m' f'"
  by (cases m') simp_all

lemma read_enough:
  "(\<forall>n m. 2 * length ts < n \<longrightarrow> 2 * length ts < m \<longrightarrow> readValue lower n ts = readValue lower m ts) \<and>
   (\<forall>n m seen. 2 * length ts < n \<longrightarrow> 2 * length ts < m \<longrightarrow> readMembers lower n seen ts = readMembers lower m seen ts) \<and>
   (\<forall>n m. 2 * length ts + 1 < n \<longrightarrow> 2 * length ts + 1 < m \<longrightarrow> readElements lower n ts = readElements lower m ts)"
proof (induction ts rule: length_induct)
  case (1 ts)
  have IH: "length us < length ts \<Longrightarrow> 2 * length us < n \<Longrightarrow> 2 * length us < m \<Longrightarrow> readValue lower n us = readValue lower m us"
    "length us < length ts \<Longrightarrow> 2 * length us < n \<Longrightarrow> 2 * length us < m \<Longrightarrow> readMembers lower n seen us = readMembers lower m seen us"
    "length us < length ts \<Longrightarrow> 2 * length us + 1 < n \<Longrightarrow> 2 * length us + 1 < m \<Longrightarrow> readElements lower n us = readElements lower m us"
    for us n m seen using 1 by blast+
  have val: "readValue lower n ts = readValue lower m ts" if l: "2 * length ts < n" "2 * length ts < m" for n m
  proof (cases ts)
    case (Cons t us)
    obtain n' m' where n: "n = Suc n'" "m = Suc m'" using l [THEN gr_implies_not0] not0_implies_Suc by blast
    have "readMembers lower n' {} us = readMembers lower m' {} us" "readElements lower n' us = readElements lower m' us"
      using l n Cons by (auto intro!: IH)
    then show ?thesis by (simp add: n Cons Token_def split: token.split)
  qed (use l in \<open>cases n; cases m; simp add: Token_def\<close>)
  have mem: "readMembers lower n seen ts = readMembers lower m seen ts" if l: "2 * length ts < n" "2 * length ts < m" for n m seen
  proof (cases ts)
    case (Cons t us)
    obtain n' m' where n: "n = Suc n'" "m = Suc m'" using l [THEN gr_implies_not0] not0_implies_Suc by blast
    have "bindE (readValue lower n' us) (readMembers lower n' k) = bindE (readValue lower m' us) (readMembers lower m' k)" for k
    proof (rule bindE_cong)
      show "readValue lower n' us = readValue lower m' us" using l n Cons by (intro IH) auto
      fix x
      assume "readValue lower m' us = Inr x"
      from read_shorter(1) [OF this] show "readMembers lower n' k x = readMembers lower m' k x"
        using l n Cons by (intro IH) auto
    qed
    then show ?thesis by (simp add: n Cons Token_def split: token.split)
  qed (use l in \<open>cases n; cases m; simp add: Token_def More_def\<close>)
  have "readElements lower n ts = readElements lower m ts" if l: "2 * length ts + 1 < n" "2 * length ts + 1 < m" for n m
  proof -
    obtain n' m' where n: "n = Suc n'" "m = Suc m'" using l [THEN gr_implies_not0] not0_implies_Suc by blast
    have "bindE (readValue lower n' ts) (readElements lower n') = bindE (readValue lower m' ts) (readElements lower m')"
    proof (rule bindE_cong)
      show "readValue lower n' ts = readValue lower m' ts" using l n by (intro val) auto
      fix x
      assume "readValue lower m' ts = Inr x"
      from read_shorter(1) [OF this] show "readElements lower n' x = readElements lower m' x" using l n by (intro IH) auto
    qed
    then show ?thesis by (simp add: n)
  qed
  with val mem show ?case by blast
qed

section \<open>Documents\<close>

lemma tokens_not_Nil: "tokens v \<noteq> []"
  by (cases v) auto

lemma More_tokens [simp]: "More (tokens v @ rest)"
  by (cases v) (simp_all add: More_def)

text \<open>The outcome of a walk that should leave \<open>rest\<close> when \<open>ok\<close> holds and fail otherwise.\<close>

definition decides :: "bool \<Rightarrow> token list \<Rightarrow> string + token list \<Rightarrow> bool" where
  "decides ok rest r \<longleftrightarrow> (if ok then r = Inr rest else isl r)"

lemma decides_bind:
  "decides ok rest r \<Longrightarrow> decides ok' rest' (f rest) \<Longrightarrow> decides (ok \<and> ok') rest' (bindE r f)"
  by (cases r) (auto simp: decides_def split: if_splits)

lemma decides_failIf: "decides ok rest r \<Longrightarrow> decides (\<not> b \<and> ok) rest (bindE (failIf b e) (\<lambda>_. r))"
  by (cases b) (auto simp: decides_def)

lemma readElements_tokens:
  assumes "\<And>v n rest. v \<in> set vs \<Longrightarrow> 2 * length (tokens v) \<le> n \<Longrightarrow>
    decides (canonical lower v) rest (readValue lower n (tokens v @ rest))"
    and "2 * length (concat (map tokens vs)) < n"
  shows "decides (list_all (canonical lower) vs) rest
    (readElements lower n (concat (map tokens vs) @ Delim (CHR '']'') # rest))"
  using assms
proof (induction vs arbitrary: n)
  case Nil
  then show ?case by (cases n) (simp_all add: More_def Token_def decides_def)
next
  case (Cons v vs)
  obtain n' where n: "n = Suc n'" using Cons.prems(2) by (cases n) auto
  have "0 < length (tokens v)" using tokens_not_Nil by simp
  with Cons.prems(2) n have l: "2 * length (concat (map tokens vs)) < n'" "2 * length (tokens v) \<le> n'"
    by (simp_all del: length_greater_0_conv)
  have v: "decides (canonical lower v) (concat (map tokens vs) @ Delim (CHR '']'') # rest)
      (readValue lower n' (tokens v @ concat (map tokens vs) @ Delim (CHR '']'') # rest))"
    and vs: "decides (list_all (canonical lower) vs) rest
      (readElements lower n' (concat (map tokens vs) @ Delim (CHR '']'') # rest))"
    using Cons.prems l by (auto intro!: Cons.IH)
  from decides_bind [OF v, of "list_all (canonical lower) vs" rest "readElements lower n'"] vs
  show ?case by (simp add: n)
qed

lemma readMembers_tokens:
  assumes "\<And>k v n rest. (k, v) \<in> set ms \<Longrightarrow> 2 * length (tokens v) \<le> n \<Longrightarrow>
    decides (canonical lower v) rest (readValue lower n (tokens v @ rest))"
    and "2 * length (concat (map (\<lambda>(k, v). StringToken k # tokens v) ms)) < n"
  shows "decides (distinct (map fst ms) \<and> set (map fst ms) \<inter> seen = {} \<and>
      list_all (\<lambda>(k, v). ToLower lower k = k \<and> canonical lower v) ms) rest
    (readMembers lower n seen (concat (map (\<lambda>(k, v). StringToken k # tokens v) ms) @ Delim (CHR ''}'') # rest))"
  using assms
proof (induction ms arbitrary: n seen)
  case Nil
  then show ?case by (cases n) (simp_all add: More_def Token_def decides_def)
next
  case (Cons m ms)
  obtain n' where n: "n = Suc n'" using Cons.prems(2) by (cases n) auto
  obtain k v where m: "m = (k, v)" by force
  let ?ts = "concat (map (\<lambda>(k, v). StringToken k # tokens v) ms) @ Delim (CHR ''}'') # rest"
  have v: "decides (canonical lower v) ?ts (readValue lower n' (tokens v @ ?ts))"
    using Cons.prems(1) [of k v n' ?ts] Cons.prems(2) n m by simp
  have vs: "decides (distinct (map fst ms) \<and> set (map fst ms) \<inter> insert k seen = {} \<and>
      list_all (\<lambda>(k, v). ToLower lower k = k \<and> canonical lower v) ms) rest (readMembers lower n' (insert k seen) ?ts)"
    using Cons.prems n m by (intro Cons.IH) auto
  have "readMembers lower n seen (concat (map (\<lambda>(k, v). StringToken k # tokens v) (m # ms)) @ Delim (CHR ''}'') # rest) =
      bindE (failIf (k \<noteq> ToLower lower k) ''non-canonical object key'') (\<lambda>_.
      bindE (failIf (k \<in> seen) ''duplicate object key'') (\<lambda>_.
      bindE (readValue lower n' (tokens v @ ?ts)) (readMembers lower n' (insert k seen))))"
    by (simp add: n m More_def Token_def)
  moreover have "decides (k = ToLower lower k \<and> k \<notin> seen \<and> canonical lower v \<and>
      (distinct (map fst ms) \<and> set (map fst ms) \<inter> insert k seen = {} \<and>
       list_all (\<lambda>(k, v). ToLower lower k = k \<and> canonical lower v) ms)) rest
      (bindE (failIf (k \<noteq> ToLower lower k) ''non-canonical object key'') (\<lambda>_.
      bindE (failIf (k \<in> seen) ''duplicate object key'') (\<lambda>_.
      bindE (readValue lower n' (tokens v @ ?ts)) (readMembers lower n' (insert k seen)))))"
    using decides_failIf [OF decides_failIf [OF decides_bind [where f = "readMembers lower n' (insert k seen)", OF v vs],
      of "k \<in> seen" "''duplicate object key''"], of "k \<noteq> ToLower lower k" "''non-canonical object key''"]
    by simp
  moreover have "(k = ToLower lower k \<and> k \<notin> seen \<and> canonical lower v \<and>
      (distinct (map fst ms) \<and> set (map fst ms) \<inter> insert k seen = {} \<and>
       list_all (\<lambda>(k, v). ToLower lower k = k \<and> canonical lower v) ms)) \<longleftrightarrow>
      (distinct (map fst (m # ms)) \<and> set (map fst (m # ms)) \<inter> seen = {} \<and>
       list_all (\<lambda>(k, v). ToLower lower k = k \<and> canonical lower v) (m # ms))"
    by (auto simp: m)
  ultimately show ?case by simp
qed

lemma readValue_tokens:
  "2 * length (tokens v) \<le> n \<Longrightarrow> decides (canonical lower v) rest (readValue lower n (tokens v @ rest))"
proof (induction v arbitrary: n rest)
  case (JArray vs)
  then obtain n' where n: "n = Suc n'" by (cases n) auto
  have "decides (list_all (canonical lower) vs) rest
    (readElements lower n' (concat (map tokens vs) @ Delim (CHR '']'') # rest))"
    by (rule readElements_tokens) (use JArray n in auto)
  then show ?case by (simp add: n Token_def)
next
  case (JObject ms)
  then obtain n' where n: "n = Suc n'" by (cases n) auto
  have "decides (distinct (map fst ms) \<and> set (map fst ms) \<inter> {} = {} \<and>
      list_all (\<lambda>(k, v). ToLower lower k = k \<and> canonical lower v) ms) rest
    (readMembers lower n' {} (concat (map (\<lambda>(k, v). StringToken k # tokens v) ms) @ Delim (CHR ''}'') # rest))"
    by (rule readMembers_tokens) (use JObject n in \<open>auto simp: snds.simps\<close>)
  then show ?case by (simp add: n Token_def)
next
  case JNull
  then show ?case by (cases n) (simp_all add: Token_def decides_def)
next
  case (JBool b)
  then show ?case by (cases n) (simp_all add: Token_def decides_def)
next
  case (JNumber i)
  then show ?case by (cases n) (simp_all add: Token_def decides_def)
next
  case (JUnsigned w)
  then show ?case by (cases n) (simp_all add: Token_def decides_def)
next
  case (JString t)
  then show ?case by (cases n) (simp_all add: Token_def decides_def)
qed

lemma ValidateKeys_tokens: "ValidateKeys lower (tokens v @ rest) = Inr () \<longleftrightarrow> canonical lower v"
  using readValue_tokens [of v "Suc (2 * length (tokens v @ rest))" lower rest]
  by (auto simp: ValidateKeys_def decides_def isl_def split: if_splits)

end
