(* ===== verification/State_Document.thy ===== *)
theory State_Document
  imports Telegram_State Checkpoint Crypto State_Json
begin

text \<open>
  The state document of the session store and its side car for card activity: the stored records,
  what is written for a state, how \<^verbatim>\<open>encoding/json\<close> lays it out, and how it is read back
  (\<^verbatim>\<open>src/internal/storage/session_store.go\<close>, \<^verbatim>\<open>src/internal/cardactivity/store.go\<close>). Bytes are parameters:
  the printer and the parser of \<^verbatim>\<open>encoding/json\<close> are the fields of a \<open>stateCodec\<close>.
\<close>

section \<open>Records\<close>

record bindingRecord =
  bd_Provider :: Provider
  bd_SessionID :: string
  bd_Generation :: u64

record stateSessionRecord =
  r_ID :: SessionID
  r_IntentID :: IntentID
  r_ComputerID :: ComputerID
  r_Provider :: Provider
  r_Workdir :: string
  r_Name :: string
  r_NameSource :: SessionNameSource
  r_Model :: string
  r_Effort :: string
  r_Status :: SessionStatus
  r_Binding :: "bindingRecord option"
  r_CreatedAt :: time
  r_LastResumedAt :: "time option"
  r_StateChangedAt :: time
  r_Lifetime :: SessionLifetime
  r_DeadlineAt :: "time option"
  r_RecoveryTarget :: "SessionStatus option"

record sessionFile =
  f_Version :: int
  f_Sessions :: "stateSessionRecord list"
  f_Coordinator :: "coordinatorRecord option"
  f_TelegramUI :: "State option"

definition sessionStoreFormatVersion :: int where
  "sessionStoreFormatVersion = 1"

definition recordFromSession :: "Session \<Rightarrow> stateSessionRecord" where
  "recordFromSession session =
     (let n = Snapshot session in
      \<lparr>r_ID = n_ID n, r_IntentID = n_IntentID n, r_ComputerID = n_ComputerID n, r_Provider = n_Provider n,
       r_Workdir = n_Workdir n, r_Name = n_Name n, r_NameSource = n_NameSource n, r_Model = n_Model n,
       r_Effort = n_Effort n, r_Status = n_Status n,
       r_Binding = map_option (\<lambda>b. \<lparr>bd_Provider = b_Provider b, bd_SessionID = b_SessionID b,
                                      bd_Generation = b_Generation b\<rparr>) (n_Binding n),
       r_CreatedAt = n_CreatedAt n, r_LastResumedAt = n_LastResumedAt n, r_StateChangedAt = n_StateChangedAt n,
       r_Lifetime = n_Lifetime n, r_DeadlineAt = n_DeadlineAt n, r_RecoveryTarget = n_RecoveryTarget n\<rparr>)"

definition restore :: "stateSessionRecord \<Rightarrow> session_error + Session" where
  "restore r =
     RestoreSession
       \<lparr>n_ID = r_ID r, n_IntentID = r_IntentID r, n_ComputerID = r_ComputerID r, n_Provider = r_Provider r,
        n_Workdir = r_Workdir r, n_Name = r_Name r, n_NameSource = r_NameSource r, n_Model = r_Model r,
        n_Effort = r_Effort r, n_Status = r_Status r,
        n_Binding = map_option (\<lambda>b. \<lparr>b_Provider = bd_Provider b, b_SessionID = bd_SessionID b,
                                       b_Generation = bd_Generation b\<rparr>) (r_Binding r),
        n_CreatedAt = r_CreatedAt r, n_LastResumedAt = r_LastResumedAt r, n_StateChangedAt = r_StateChangedAt r,
        n_Lifetime = r_Lifetime r, n_DeadlineAt = r_DeadlineAt r, n_RecoveryTarget = r_RecoveryTarget r\<rparr>"

definition validateSessionValue :: "Session \<Rightarrow> string + unit" where
  "validateSessionValue session =
     (case RestoreSession (Snapshot session) of
        Inl _ \<Rightarrow> Inl ''session value cannot be restored''
      | Inr restored \<Rightarrow> failIf (\<not> Equal restored session) ''session value does not match its snapshot'')"

definition sameIdentity :: "Session \<Rightarrow> Session \<Rightarrow> bool" where
  "sameIdentity l r \<longleftrightarrow>
     s_id l = s_id r \<and> s_intentID l = s_intentID r \<and> s_computerID l = s_computerID r \<and>
     s_provider l = s_provider r \<and> s_workdir l = s_workdir r"

section \<open>Card activity\<close>

text \<open>
  The time of the last event of a card is kept in a second file, with a fingerprint of the card's
  history, so that a side car that does not belong to the document is ignored. \<open>columns\<close> is what
  \<^verbatim>\<open>json.Marshal\<close> prints for the five columns.
\<close>

record activityRecord =
  a_LastEventUnixNano :: int
  a_Fingerprint :: string

record activityDocument =
  a_Version :: int
  a_Cards :: "(SessionID, activityRecord) fmap option"

type_synonym columns = "string slice \<times> string slice \<times> string slice \<times> string slice \<times> string slice"

definition maxSize :: int where
  "maxSize = 2 ^ 20"

definition columnsOf :: "Card \<Rightarrow> columns" where
  "columnsOf c =
     (c_History c, c_HistoryKeys c, c_HistoryTurnKeys c, c_HistoryKinds c, c_PendingFinalOperations c)"

definition fingerprint :: "(columns \<Rightarrow> string) \<Rightarrow> Card \<Rightarrow> string" where
  "fingerprint print c = hex_EncodeToString (Sum256 (bytesOf (print (columnsOf c))))"

definition MainState :: "State option \<Rightarrow> State option" where
  "MainState source =
     map_option (\<lambda>s. let clone = Clone s in
       clone\<lparr>u_Cards := Some (fmmap (\<lambda>c. c\<lparr>c_LastEventUnixNano := 0\<rparr>) (cardsOf clone))\<rparr>) source"

text \<open>Entries of the side car without a card are skipped, so the loop is a map over the cards.\<close>

definition applyCard :: "(columns \<Rightarrow> string) \<Rightarrow> (SessionID, activityRecord) fmap \<Rightarrow> SessionID \<Rightarrow> Card \<Rightarrow> Card" where
  "applyCard print stored ident c =
     (case fmlookup stored ident of
        None \<Rightarrow> c
      | Some v \<Rightarrow>
          if a_LastEventUnixNano v \<le> 0 \<or> a_Fingerprint v \<noteq> fingerprint print c then c
          else c\<lparr>c_LastEventUnixNano := a_LastEventUnixNano v\<rparr>)"

definition applyActivity :: "(columns \<Rightarrow> string) \<Rightarrow> (SessionID, activityRecord) fmap \<Rightarrow> State \<Rightarrow> State" where
  "applyActivity print stored s = s\<lparr>u_Cards := map_option (fmmap_keys (applyCard print stored)) (u_Cards s)\<rparr>"

definition activityOf :: "(columns \<Rightarrow> string) \<Rightarrow> State option \<Rightarrow> activityDocument" where
  "activityOf print state =
     \<lparr>a_Version = 1,
      a_Cards = Some (case state of None \<Rightarrow> fmempty | Some s \<Rightarrow>
        fmmap (\<lambda>c. \<lparr>a_LastEventUnixNano = c_LastEventUnixNano c, a_Fingerprint = fingerprint print c\<rparr>)
          (fmfilter (\<lambda>ident. 0 < c_LastEventUnixNano (valueOr zeroCard (cardsOf s) ident)) (cardsOf s)))\<rparr>"

section \<open>Layout\<close>

text \<open>The members of a struct: the fields in their order, without those that \<^verbatim>\<open>omitempty\<close> leaves out.\<close>

fun members :: "(string \<times> json option) list \<Rightarrow> (string \<times> json) list" where
  "members [] = []"
| "members ((key, v) # rest) = (case v of None \<Rightarrow> members rest | Some v \<Rightarrow> (key, v) # members rest)"

definition struct :: "(string \<times> json option) list \<Rightarrow> json" where
  "struct fs = JObject (members fs)"

definition omitIf :: "bool \<Rightarrow> json \<Rightarrow> json option" where
  "omitIf left v = (if left then None else Some v)"

definition omitText :: "string \<Rightarrow> json option" where
  "omitText t = omitIf (t = []) (JString t)"

definition jsonStrings :: "string list \<Rightarrow> json" where
  "jsonStrings xs = JArray (map JString xs)"

definition providerText :: "Provider \<Rightarrow> string" where
  "providerText p = (case p of ProviderCodex \<Rightarrow> ''codex'' | ProviderClaude \<Rightarrow> ''claude'' | ProviderOther s \<Rightarrow> s)"

definition nameSourceText :: "SessionNameSource \<Rightarrow> string" where
  "nameSourceText n = (case n of SessionNameUnset \<Rightarrow> [] | SessionNameDirectory \<Rightarrow> ''directory''
     | SessionNameModel \<Rightarrow> ''model'' | SessionNameProvider \<Rightarrow> ''provider'' | SessionNameOther s \<Rightarrow> s)"

definition statusText :: "SessionStatus \<Rightarrow> string" where
  "statusText st = (case st of SessionStarting \<Rightarrow> ''starting'' | SessionResuming \<Rightarrow> ''resuming''
     | SessionReady \<Rightarrow> ''ready'' | SessionRunning \<Rightarrow> ''running'' | SessionStopping \<Rightarrow> ''stopping''
     | SessionClosingAfterWork \<Rightarrow> ''closing_after_work'' | SessionAwaitingRecovery \<Rightarrow> ''awaiting_recovery''
     | SessionClosing \<Rightarrow> ''closing'' | SessionArchived \<Rightarrow> ''archived'' | SessionResumeFailed \<Rightarrow> ''resume_failed''
     | SessionStatusOther s \<Rightarrow> s)"

definition phaseText :: "OutboundPhase \<Rightarrow> string" where
  "phaseText p = (case p of OutboundPrepared \<Rightarrow> ''prepared'' | OutboundUnknown \<Rightarrow> ''unknown''
     | OutboundEnqueued \<Rightarrow> ''enqueued'' | OutboundConfirmed \<Rightarrow> ''confirmed'' | OutboundPhaseOther s \<Rightarrow> s)"

text \<open>\<open>timeText\<close> is the text of \<^verbatim>\<open>time.Time.MarshalJSON\<close>; \<^verbatim>\<open>omitempty\<close> has no effect on a \<^verbatim>\<open>time.Time\<close>.\<close>

definition jsonBinding :: "bindingRecord \<Rightarrow> json" where
  "jsonBinding b = struct
     [(''provider'', Some (JString (providerText (bd_Provider b)))),
      (''session_id'', Some (JString (bd_SessionID b))),
      (''generation'', Some (JUnsigned (bd_Generation b)))]"

definition jsonSession :: "(time \<Rightarrow> string) \<Rightarrow> stateSessionRecord \<Rightarrow> json" where
  "jsonSession timeText r = struct
     [(''id'', Some (JString (r_ID r))),
      (''intent_id'', Some (JString (r_IntentID r))),
      (''computer_id'', Some (JString (r_ComputerID r))),
      (''provider'', Some (JString (providerText (r_Provider r)))),
      (''workdir'', Some (JString (r_Workdir r))),
      (''name'', omitText (r_Name r)),
      (''name_source'', omitText (nameSourceText (r_NameSource r))),
      (''model'', omitText (r_Model r)),
      (''effort'', omitText (r_Effort r)),
      (''status'', Some (JString (statusText (r_Status r)))),
      (''binding'', map_option jsonBinding (r_Binding r)),
      (''created_at'', Some (JString (timeText (r_CreatedAt r)))),
      (''last_resumed_at'', map_option (\<lambda>t. JString (timeText t)) (r_LastResumedAt r)),
      (''state_changed_at'', Some (JString (timeText (r_StateChangedAt r)))),
      (''lifetime'', omitIf (r_Lifetime r = 0) (JNumber (r_Lifetime r))),
      (''deadline_at'', map_option (\<lambda>t. JString (timeText t)) (r_DeadlineAt r)),
      (''recovery_target'', map_option (\<lambda>t. JString (statusText t)) (r_RecoveryTarget r))]"

definition jsonStatus :: "statusRecord \<Rightarrow> json" where
  "jsonStatus r = struct
     [(''screen_session_id'', omitText (sr_ScreenSessionID r)),
      (''conversation_id'', Some (JNumber (sr_ConversationID r))),
      (''text'', Some (JString (sr_Text r))),
      (''rich_markdown'', omitIf (\<not> sr_RichMarkdown r) (JBool True)),
      (''callback_query_id'', omitText (sr_CallbackQueryID r)),
      (''source_message_id'', omitIf (sr_SourceMessageID r = 0) (JNumber (sr_SourceMessageID r)))]"

definition jsonButton :: "keyboardButtonRecord \<Rightarrow> json" where
  "jsonButton b = struct
     [(''text'', Some (JString (kr_Text b))), (''callback_data'', Some (JString (kr_CallbackData b)))]"

definition jsonRow :: "keyboardButtonRecord slice \<Rightarrow> json" where
  "jsonRow row = (case row of None \<Rightarrow> JNull | Some bs \<Rightarrow> JArray (map jsonButton bs))"

definition jsonReceipt :: "receiptRecord \<Rightarrow> json" where
  "jsonReceipt r = struct [(''message_id'', Some (JNumber (rr_MessageID r)))]"

definition jsonDurable :: "durableOutboundReceiptRecord \<Rightarrow> json" where
  "jsonDurable r = struct
     [(''operation_id'', Some (JString (dd_OperationID r))), (''sequence'', Some (JUnsigned (dd_Sequence r)))]"

definition jsonOutbound :: "outboundOperationRecord \<Rightarrow> json" where
  "jsonOutbound r = struct
     [(''operation_id'', Some (JString (or_OperationID r))),
      (''update_id'', Some (JNumber (or_UpdateID r))),
      (''status'', Some (jsonStatus (or_Status r))),
      (''keyboard'', omitIf (elems (or_Keyboard r) = []) (JArray (map jsonRow (elems (or_Keyboard r))))),
      (''phase'', Some (JString (phaseText (or_Phase r)))),
      (''receipt'', map_option jsonReceipt (or_Receipt r)),
      (''durable'', map_option jsonDurable (or_Durable r))]"

definition jsonBlocked :: "blockedUpdateRecord \<Rightarrow> json" where
  "jsonBlocked b = struct
     [(''update_id'', Some (JNumber (br_UpdateID b))), (''reason'', Some (JString (br_Reason b)))]"

definition jsonRecovery :: "recoveryControlRecord \<Rightarrow> json" where
  "jsonRecovery v = struct
     [(''original_operation_id'', Some (JString (vr_OriginalOperationID v))),
      (''prompt_operation_id'', Some (JString (vr_PromptOperationID v))),
      (''update_id'', Some (JNumber (vr_UpdateID v)))]"

definition jsonCoordinator :: "coordinatorRecord \<Rightarrow> json" where
  "jsonCoordinator r = struct
     [(''version'', Some (JNumber (cr_Version r))),
      (''revision'', Some (JUnsigned (cr_Revision r))),
      (''initialized'', Some (JBool (cr_Initialized r))),
      (''next_update_id'', Some (JNumber (cr_NextUpdateID r))),
      (''blocked'', map_option jsonBlocked (cr_Blocked r)),
      (''outbound'', map_option jsonOutbound (cr_Outbound r)),
      (''recovery'', map_option jsonRecovery (cr_Recovery r))]"

definition jsonCarrier :: "Carrier \<Rightarrow> json" where
  "jsonCarrier c = struct
     [(''chat_id'', Some (JNumber (ChatID c))), (''message_id'', Some (JNumber (MessageID c)))]"

definition jsonPage :: "Page \<Rightarrow> json" where
  "jsonPage p = struct
     [(''current'', Some (JNumber (p_Current p))),
      (''total'', Some (JNumber (p_Total p))),
      (''anchor'', omitText (p_Anchor p)),
      (''follow_latest'', Some (JBool (p_FollowLatest p)))]"

definition jsonColumn :: "string slice \<Rightarrow> json option" where
  "jsonColumn xs = omitIf (elems xs = []) (jsonStrings (elems xs))"

definition jsonCard :: "Card \<Rightarrow> json" where
  "jsonCard c = struct
     [(''empty_close_eligible'', omitIf (\<not> c_EmptyCloseEligible c) (JBool True)),
      (''session_id'', Some (JString (c_SessionID c))),
      (''carrier'', Some (jsonCarrier (c_Carrier c))),
      (''carrier_revision'', omitIf (c_CarrierRevision c = 0) (JUnsigned (c_CarrierRevision c))),
      (''carrier_operation'', omitText (c_CarrierOperation c)),
      (''last_presentation_operation'', omitText (c_LastPresentationOperation c)),
      (''page'', Some (jsonPage (c_Page c))),
      (''options_expanded'', Some (JBool (c_OptionsExpanded c))),
      (''history'', jsonColumn (c_History c)),
      (''history_keys'', jsonColumn (c_HistoryKeys c)),
      (''history_turn_keys'', jsonColumn (c_HistoryTurnKeys c)),
      (''history_kinds'', jsonColumn (c_HistoryKinds c)),
      (''pending_final_operations'', jsonColumn (c_PendingFinalOperations c))]"

text \<open>A map is an object with its keys in ascending order.\<close>

definition jsonMap :: "('v \<Rightarrow> json) \<Rightarrow> (string, 'v) fmap \<Rightarrow> json" where
  "jsonMap f m = JObject (map (\<lambda>(k, v). (k, f v)) (entries m))"

definition jsonRecent :: "SessionID list \<Rightarrow> json" where
  "jsonRecent xs = (if xs = [] then JNull else jsonStrings xs)"

definition jsonState :: "State \<Rightarrow> json" where
  "jsonState s = struct
     [(''version'', Some (JNumber (u_Version s))),
      (''selected_node'', omitText (u_SelectedNode s)),
      (''active_session'', omitText (u_ActiveSession s)),
      (''active_sessions'', omitIf (u_ActiveSessions s = fmempty) (jsonMap JString (u_ActiveSessions s))),
      (''recent_sessions'', omitIf (u_RecentSessions s = fmempty) (jsonMap jsonRecent (u_RecentSessions s))),
      (''screen_enabled'', Some (JBool (u_ScreenEnabled s))),
      (''cards'', Some (case u_Cards s of None \<Rightarrow> JNull | Some m \<Rightarrow> jsonMap jsonCard m))]"

definition jsonFile :: "(time \<Rightarrow> string) \<Rightarrow> sessionFile \<Rightarrow> json" where
  "jsonFile timeText f = struct
     [(''version'', Some (JNumber (f_Version f))),
      (''sessions'', Some (JArray (map (jsonSession timeText) (f_Sessions f)))),
      (''coordinator'', map_option jsonCoordinator (f_Coordinator f)),
      (''telegram_ui'', map_option jsonState (f_TelegramUI f))]"

section \<open>The codec\<close>

text \<open>
  What the store calls of \<^verbatim>\<open>encoding/json\<close>: \<open>cd_marshal\<close> is \<^verbatim>\<open>MarshalIndent\<close> of the document with the
  final newline, \<open>cd_tokens\<close> the tokens a decoder delivers, \<open>cd_decode\<close> the first value, with unknown
  fields refused, and \<open>cd_trailing\<close> the error of a second \<^verbatim>\<open>Decode\<close> that is not the end of input.
  \<open>cd_columns\<close> prints the columns of a card, \<open>cd_lower\<close> is \<^verbatim>\<open>strings.ToLower\<close> off ASCII and \<open>cd_time\<close> prints
  a time.
\<close>

record stateCodec =
  cd_marshal :: "sessionFile \<Rightarrow> string option"
  cd_tokens :: "string \<Rightarrow> token list"
  cd_decode :: "string \<Rightarrow> string + sessionFile"
  cd_trailing :: "string \<Rightarrow> string option"
  cd_putActivity :: "activityDocument \<Rightarrow> string option"
  cd_getActivity :: "string \<Rightarrow> activityDocument option"
  cd_columns :: "columns \<Rightarrow> string"
  cd_lower :: "string \<Rightarrow> string"
  cd_time :: "time \<Rightarrow> string"

text \<open>
  Values that survive the encoding: the printer replaces bytes that are not UTF-8, and an integer field
  holds 64 bits. \<open>known\<close> excludes the constructors for other texts with the text of a known one.
\<close>

fun representable :: "json \<Rightarrow> bool" where
  "representable (JNumber n) = (minInt64 \<le> n \<and> n \<le> maxInt64)"
| "representable (JString s) = ValidString s"
| "representable (JArray vs) = list_all representable vs"
| "representable (JObject ms) = list_all (\<lambda>(k, v). ValidString k \<and> representable v) ms"
| "representable _ = True"

definition knownRecord :: "stateSessionRecord \<Rightarrow> bool" where
  "knownRecord r \<longleftrightarrow>
     (\<forall>t. r_Provider r \<noteq> ProviderOther t \<and> r_NameSource r \<noteq> SessionNameOther t \<and>
        r_Status r \<noteq> SessionStatusOther t \<and> r_RecoveryTarget r \<noteq> Some (SessionStatusOther t) \<and>
        map_option bd_Provider (r_Binding r) \<noteq> Some (ProviderOther t))"

definition known :: "sessionFile \<Rightarrow> bool" where
  "known f \<longleftrightarrow>
     list_all knownRecord (f_Sessions f) \<and>
     (\<forall>r ob t. f_Coordinator f = Some r \<longrightarrow> cr_Outbound r = Some ob \<longrightarrow> or_Phase ob \<noteq> OutboundPhaseOther t)"

text \<open>What a decoder builds from the text of a document: omitted fields are zero, empty columns \<open>nil\<close>.\<close>

definition decodedCard :: "Card \<Rightarrow> Card" where
  "decodedCard c = (cloneCard c)\<lparr>c_LastEventUnixNano := 0\<rparr>"

definition decoded :: "sessionFile \<Rightarrow> sessionFile" where
  "decoded f =
     f\<lparr>f_Coordinator := map_option omitEmpty (f_Coordinator f),
       f_TelegramUI := map_option (\<lambda>s. s\<lparr>u_Cards := map_option (fmmap decodedCard) (u_Cards s)\<rparr>) (f_TelegramUI f)\<rparr>"

text \<open>The documented behaviour of the codec that reading back relies on.\<close>

definition faithful :: "stateCodec \<Rightarrow> bool" where
  "faithful c \<longleftrightarrow>
     (\<forall>f data. representable (jsonFile (cd_time c) f) \<longrightarrow> known f \<longrightarrow> cd_marshal c f = Some data \<longrightarrow>
        cd_tokens c data = tokens (jsonFile (cd_time c) f) \<and>
        cd_decode c data = Inr (decoded f) \<and> cd_trailing c data = None) \<and>
     (\<forall>a data. (\<forall>m. a_Cards a = Some m \<longrightarrow> (\<forall>i v. fmlookup m i = Some v \<longrightarrow> ValidString i)) \<longrightarrow>
        cd_putActivity c a = Some data \<longrightarrow> cd_getActivity c data = Some a)"

section \<open>Contents of the store\<close>

record contents =
  ct_byIntent :: "(IntentID, Session) fmap"
  ct_byID :: "(SessionID, IntentID) fmap"
  ct_checkpoint :: "coordinatorRecord option"
  ct_telegramUI :: "State option"

definition emptyContents :: contents where
  "emptyContents = \<lparr>ct_byIntent = fmempty, ct_byID = fmempty, ct_checkpoint = None, ct_telegramUI = None\<rparr>"

definition documentOf ::
  "(IntentID, Session) fmap \<Rightarrow> coordinatorRecord option \<Rightarrow> State option \<Rightarrow> sessionFile" where
  "documentOf sessions checkpoint telegramUI =
     \<lparr>f_Version = sessionStoreFormatVersion,
      f_Sessions = sort_key r_IntentID (map (\<lambda>(_, session). recordFromSession session) (entries sessions)),
      f_Coordinator = checkpoint, f_TelegramUI = MainState telegramUI\<rparr>"

fun restoreAll ::
  "stateSessionRecord list \<Rightarrow> (IntentID, Session) fmap \<Rightarrow> (SessionID, IntentID) fmap \<Rightarrow>
   string + (IntentID, Session) fmap \<times> (SessionID, IntentID) fmap" where
  "restoreAll [] byIntent byID = Inr (byIntent, byID)"
| "restoreAll (record # rest) byIntent byID =
     (case restore record of
        Inl _ \<Rightarrow> Inl ''restore session record''
      | Inr session \<Rightarrow>
          bindE (failIf (fmlookup byIntent (s_intentID session) \<noteq> None) ''duplicate intent id'') (\<lambda>_.
          bindE (failIf (fmlookup byID (s_id session) \<noteq> None) ''duplicate session id'') (\<lambda>_.
          restoreAll rest (fmupd (s_intentID session) session byIntent)
            (fmupd (s_id session) (s_intentID session) byID))))"

text \<open>
  \<open>activity\<close> is what reading the side car gives: an error, nothing when there is no file, or its bytes.
\<close>

definition Apply :: "stateCodec \<Rightarrow> string + string option \<Rightarrow> State \<Rightarrow> string + State" where
  "Apply c activity s =
     (case activity of
        Inr None \<Rightarrow> Inr s
      | Inl _ \<Rightarrow> Inl ''read card activity sidecar''
      | Inr (Some data) \<Rightarrow>
          if len data > maxSize then Inl ''read card activity sidecar''
          else
            (case cd_getActivity c data of
               None \<Rightarrow> Inl ''decode card activity sidecar''
             | Some stored \<Rightarrow>
                 (case a_Cards stored of
                    None \<Rightarrow> Inl ''decode card activity sidecar''
                  | Some m \<Rightarrow>
                      if a_Version stored \<noteq> 1 then Inl ''decode card activity sidecar''
                      else Inr (applyActivity (cd_columns c) m s))))"

definition readUI :: "stateCodec \<Rightarrow> string + string option \<Rightarrow> State option \<Rightarrow> string + State option" where
  "readUI c activity telegramUI =
     (case telegramUI of
        None \<Rightarrow> Inr None
      | Some ui \<Rightarrow>
          bindE (Apply c activity ui) (\<lambda>ui.
          bindE (Validate ui) (\<lambda>_.
          Inr (Some (Clone ui)))))"

definition decodeContents :: "stateCodec \<Rightarrow> string + string option \<Rightarrow> string \<Rightarrow> string + contents" where
  "decodeContents c activity data =
     bindE (ValidateKeys (cd_lower c) (cd_tokens c data)) (\<lambda>_.
     bindE (cd_decode c data) (\<lambda>persisted.
     bindE (case cd_trailing c data of None \<Rightarrow> Inr () | Some e \<Rightarrow> Inl e) (\<lambda>_.
     bindE (failIf (f_Version persisted \<noteq> sessionStoreFormatVersion) ''unsupported session store version'') (\<lambda>_.
     bindE (case f_Coordinator persisted of
              None \<Rightarrow> Inr ()
            | Some record \<Rightarrow>
                bindE (failIf (cr_Version record \<noteq> coordinatorCheckpointFormatVersion)
                         ''unsupported coordinator checkpoint version'') (\<lambda>_.
                bindE (storedCheckpointFromRecord record) (\<lambda>_. Inr ()))) (\<lambda>_.
     bindE (restoreAll (f_Sessions persisted) fmempty fmempty) (\<lambda>(byIntent, byID).
     bindE (readUI c activity (f_TelegramUI persisted)) (\<lambda>ui.
     Inr \<lparr>ct_byIntent = byIntent, ct_byID = byID, ct_checkpoint = f_Coordinator persisted,
          ct_telegramUI = ui\<rparr>)))))))"

end
