(* ===== verification/State_Reading.thy ===== *)
theory State_Reading
  imports State_Document
begin

text \<open>
  Reading a state document back. \<open>contents_ok\<close> is the invariant of what the store holds in memory; the
  lemmas show that decoding what is written for such contents gives the same contents, provided the keys
  of its maps are in lower case.
\<close>

section \<open>The invariant\<close>

definition sessions_ok :: "(IntentID, Session) fmap \<Rightarrow> (SessionID, IntentID) fmap \<Rightarrow> bool" where
  "sessions_ok byIntent byID \<longleftrightarrow>
     (\<forall>i s. fmlookup byIntent i = Some s \<longrightarrow> s_intentID s = i \<and> restorable s) \<and>
     (\<forall>d i. fmlookup byID d = Some i \<longleftrightarrow> (\<exists>s. fmlookup byIntent i = Some s \<and> s_id s = d))"

definition checkpoint_ok :: "coordinatorRecord option \<Rightarrow> bool" where
  "checkpoint_ok checkpoint \<longleftrightarrow>
     (\<forall>r. checkpoint = Some r \<longrightarrow> cr_Version r = coordinatorCheckpointFormatVersion \<and>
        (\<exists>stored. storedCheckpointFromRecord r = Inr stored) \<and> omitEmpty r = r)"

definition ui_ok :: "State option \<Rightarrow> bool" where
  "ui_ok telegramUI \<longleftrightarrow> (\<forall>s. telegramUI = Some s \<longrightarrow> Validate s = Inr () \<and> Clone s = s)"

definition contents_ok :: "contents \<Rightarrow> bool" where
  "contents_ok k \<longleftrightarrow>
     sessions_ok (ct_byIntent k) (ct_byID k) \<and> checkpoint_ok (ct_checkpoint k) \<and> ui_ok (ct_telegramUI k)"

abbreviation stateDocument :: "contents \<Rightarrow> sessionFile" where
  "stateDocument k \<equiv> documentOf (ct_byIntent k) (ct_checkpoint k) (ct_telegramUI k)"

lemma contents_ok_empty [simp]: "contents_ok emptyContents"
  by (simp add: contents_ok_def sessions_ok_def checkpoint_ok_def ui_ok_def emptyContents_def)

lemma sessions_okD:
  assumes "sessions_ok byIntent byID" and "fmlookup byIntent i = Some s"
  shows "s_intentID s = i" "restorable s" "fmlookup byID (s_id s) = Some i"
  using assms by (auto simp: sessions_ok_def)

text \<open>Two intents never share a session ID.\<close>

lemma sessions_ok_unique:
  "sessions_ok byIntent byID \<Longrightarrow> fmlookup byIntent i = Some s \<Longrightarrow> fmlookup byIntent j = Some t \<Longrightarrow>
   s_id s = s_id t \<Longrightarrow> i = j"
  using sessions_okD(3) by (metis option.inject)

text \<open>A replacement under the same identity keeps the invariant, a new identity extends it.\<close>

lemma sessions_ok_replace:
  assumes ok: "sessions_ok byIntent byID" and old: "fmlookup byIntent i = Some s"
    and new: "restorable t" "s_id t = s_id s" "s_intentID t = i"
  shows "sessions_ok (fmupd i t byIntent) byID"
  using ok old new unfolding sessions_ok_def by auto

lemma sessions_ok_insert:
  assumes ok: "sessions_ok byIntent byID" and new: "restorable t" "s_intentID t = i"
    and fresh: "fmlookup byIntent i = None" "fmlookup byID (s_id t) = None"
  shows "sessions_ok (fmupd i t byIntent) (fmupd (s_id t) i byID)"
  using ok new fresh unfolding sessions_ok_def
  by (auto split: if_splits) (metis option.distinct(1))+

lemma sessions_ok_delete:
  assumes ok: "sessions_ok byIntent byID" and old: "fmlookup byIntent i = Some s"
  shows "sessions_ok (fmdrop i byIntent) (fmdrop (s_id s) byID)"
proof -
  have other: "j = i" if "fmlookup byIntent j = Some t" "s_id t = s_id s" for j t
    using sessions_ok_unique [OF ok that(1) old that(2)] .
  have "fmlookup (fmdrop (s_id s) byID) d = Some j \<longleftrightarrow> (\<exists>t. fmlookup (fmdrop i byIntent) j = Some t \<and> s_id t = d)" for d j
  proof (cases "d = s_id s")
    case True
    then show ?thesis using other by auto
  next
    case False
    then show ?thesis using ok old by (auto simp: sessions_ok_def)
  qed
  with ok show ?thesis by (simp add: sessions_ok_def)
qed

section \<open>The laws of the codec\<close>

lemma faithful_document:
  assumes "faithful c" and "cd_marshal c f = Some data"
    and "representable (jsonFile (cd_time c) f)" and "known f"
  shows "cd_tokens c data = tokens (jsonFile (cd_time c) f)" "cd_decode c data = Inr (decoded f)"
    "cd_trailing c data = None"
  using assms by (simp_all add: faithful_def)

lemma faithful_activity:
  assumes "faithful c" and "cd_putActivity c a = Some data"
    and "\<And>m i v. a_Cards a = Some m \<Longrightarrow> fmlookup m i = Some v \<Longrightarrow> ValidString i"
  shows "cd_getActivity c data = Some a"
  using assms unfolding faithful_def by blast

section \<open>Sessions\<close>

lemma restore_recordFromSession: "restore (recordFromSession s) = RestoreSession (Snapshot s)"
proof -
  have "map_option (\<lambda>b. \<lparr>b_Provider = bd_Provider b, b_SessionID = bd_SessionID b, b_Generation = bd_Generation b\<rparr>)
     (map_option (\<lambda>b. \<lparr>bd_Provider = b_Provider b, bd_SessionID = b_SessionID b, bd_Generation = b_Generation b\<rparr>) x) = x" for x
    by (cases x) simp_all
  then show ?thesis by (cases "Snapshot s") (simp add: restore_def recordFromSession_def)
qed

lemma fmupd_add_list:
  assumes "k \<notin> fst ` set xs"
  shows "fmupd k v m ++\<^sub>f fmap_of_list xs = m ++\<^sub>f fmap_of_list ((k, v) # xs)"
proof (rule fmap_ext)
  fix x
  have "map_of xs k = None" using assms by (simp add: map_of_eq_None_iff)
  then show "fmlookup (fmupd k v m ++\<^sub>f fmap_of_list xs) x = fmlookup (m ++\<^sub>f fmap_of_list ((k, v) # xs)) x"
    by (auto simp: fmlookup_of_list fmdom_of_list fset_of_list.rep_eq map_of_eq_None_iff)
qed

lemma restoreAll_sessions:
  assumes "\<forall>s\<in>set ss. restorable s"
    and "distinct (map s_intentID ss)" and "distinct (map s_id ss)"
    and "\<forall>s\<in>set ss. fmlookup m (s_intentID s) = None \<and> fmlookup b (s_id s) = None"
  shows "restoreAll (map recordFromSession ss) m b =
    Inr (m ++\<^sub>f fmap_of_list (map (\<lambda>s. (s_intentID s, s)) ss), b ++\<^sub>f fmap_of_list (map (\<lambda>s. (s_id s, s_intentID s)) ss))"
  using assms
proof (induction ss arbitrary: m b)
  case Nil
  then show ?case by simp
next
  case (Cons s ss)
  have "restore (recordFromSession s) = Inr s"
    using Cons.prems(1) by (simp add: restore_recordFromSession restorable_def)
  moreover have "restoreAll (map recordFromSession ss) (fmupd (s_intentID s) s m) (fmupd (s_id s) (s_intentID s) b) =
    Inr (fmupd (s_intentID s) s m ++\<^sub>f fmap_of_list (map (\<lambda>s. (s_intentID s, s)) ss),
         fmupd (s_id s) (s_intentID s) b ++\<^sub>f fmap_of_list (map (\<lambda>s. (s_id s, s_intentID s)) ss))"
    by (rule Cons.IH) (use Cons.prems in auto)
  ultimately show ?case
    using Cons.prems by (simp add: fmupd_add_list image_image)
qed

lemma restoreAll_document:
  assumes "sessions_ok byIntent byID"
  shows "restoreAll (f_Sessions (documentOf byIntent checkpoint ui)) fmempty fmempty = Inr (byIntent, byID)"
proof -
  define ss where "ss = map snd (entries byIntent)"
  have es: "map (\<lambda>s. (s_intentID s, s)) ss = entries byIntent"
    using assms by (auto simp: ss_def sessions_ok_def set_entries intro!: map_idI)
  then have keys: "map s_intentID ss = mapKeys byIntent"
    by (simp add: mapKeys_def comp_def flip: es)
  have sset: "s \<in> set ss \<longleftrightarrow> fmlookup byIntent (s_intentID s) = Some s" for s
  proof -
    have "s \<in> set ss \<longleftrightarrow> (s_intentID s, s) \<in> set (map (\<lambda>s. (s_intentID s, s)) ss)" by auto
    then show ?thesis by (simp only: es set_entries)
  qed
  have dist: "distinct ss"
    using mapKeys_sorted(2) [of byIntent] by (simp add: distinct_map flip: keys)
  have "inj_on s_id (set ss)"
  proof (rule inj_onI)
    fix s t
    assume "s \<in> set ss" "t \<in> set ss" and ids: "s_id s = s_id t"
    then have st: "fmlookup byIntent (s_intentID s) = Some s" "fmlookup byIntent (s_intentID t) = Some t"
      by (simp_all only: sset)
    from sessions_ok_unique [OF assms st ids] st show "s = t" by (metis option.inject)
  qed
  with dist have ids: "distinct (map s_id ss)" by (simp add: distinct_map)
  have "sorted (map r_IntentID (map recordFromSession ss))"
    using keys mapKeys_sorted(1) [of byIntent]
    by (simp add: recordFromSession_def Snapshot_def comp_def Let_def)
  then have doc: "f_Sessions (documentOf byIntent checkpoint ui) = map recordFromSession ss"
    by (simp add: documentOf_def ss_def case_prod_beta comp_def sort_key_id_if_sorted)
  have "fmap_of_list (map (\<lambda>s. (s_id s, s_intentID s)) ss) = byID"
  proof (rule fmap_ext)
    fix d
    show "fmlookup (fmap_of_list (map (\<lambda>s. (s_id s, s_intentID s)) ss)) d = fmlookup byID d"
    proof (cases "fmlookup byID d")
      case None
      have "s_id s \<noteq> d" if "s \<in> set ss" for s
        using sessions_okD(3) [OF assms that [unfolded sset]] None by auto
      then have "d \<notin> fst ` set (map (\<lambda>s. (s_id s, s_intentID s)) ss)" by (force simp: image_iff)
      with None show ?thesis by (simp only: fmlookup_of_list map_of_eq_None_iff simp_thms)
    next
      case (Some i)
      with assms obtain s where "fmlookup byIntent i = Some s" "s_id s = d" "s_intentID s = i"
        by (auto simp: sessions_ok_def)
      then have "s \<in> set ss" "(d, i) = (s_id s, s_intentID s)" by (simp_all add: sset)
      then have "(d, i) \<in> set (map (\<lambda>s. (s_id s, s_intentID s)) ss)" by auto
      then show ?thesis
        using Some ids by (simp add: fmlookup_of_list comp_def map_of_is_SomeI)
    qed
  qed
  moreover have "restoreAll (map recordFromSession ss) fmempty fmempty =
    Inr (fmempty ++\<^sub>f fmap_of_list (map (\<lambda>s. (s_intentID s, s)) ss),
         fmempty ++\<^sub>f fmap_of_list (map (\<lambda>s. (s_id s, s_intentID s)) ss))"
  proof (rule restoreAll_sessions)
    show "\<forall>s\<in>set ss. restorable s" using sessions_okD(2) [OF assms] by (simp add: sset)
  qed (simp_all add: keys ids)
  ultimately show ?thesis by (simp add: doc es)
qed

section \<open>User interface\<close>

lemma copySlice_idem [simp]: "copySlice (copySlice xs) = copySlice xs"
  by (simp add: copySlice_def)

lemma PendingFinalsAfter_Nil: "PendingFinalsAfter c [] = copySlice (c_PendingFinalOperations c)"
  by (simp add: PendingFinalsAfter_def)

lemma cloneCard_idem [simp]: "cloneCard (cloneCard c) = cloneCard c"
  by (simp add: cloneCard_def PendingFinalsAfter_Nil)

lemma fmmap_comp: "fmmap f (fmmap g m) = fmmap (f \<circ> g) m"
  by (rule fmap_ext) (simp add: option.map_comp)

lemma Clone_idem [simp]: "Clone (Clone s) = Clone s"
  by (simp add: Clone_def fmmap_comp comp_def)

lemma Clone_eqD:
  assumes "Clone s = s" and "fmlookup (cardsOf s) i = Some c"
  shows "cloneCard c = c"
proof -
  have "cardsOf (Clone s) = fmmap cloneCard (cardsOf s)" by (simp add: Clone_def)
  with assms have "fmlookup (fmmap cloneCard (cardsOf s)) i = Some c" by simp
  with assms(2) show ?thesis by simp
qed

lemma columnsOf_event [simp]: "columnsOf (c\<lparr>c_LastEventUnixNano := t\<rparr>) = columnsOf c"
  by (simp add: columnsOf_def)

lemma cloneCard_event [simp]: "cloneCard (c\<lparr>c_LastEventUnixNano := t\<rparr>) = (cloneCard c)\<lparr>c_LastEventUnixNano := t\<rparr>"
  by (simp add: cloneCard_def PendingFinalsAfter_Nil)

text \<open>The decoded cards with the activity written beside them are the cards.\<close>

lemma applyActivity_activityOf:
  assumes "Validate s = Inr ()" and "Clone s = s"
    and "a_Cards (activityOf print (Some s)) = Some m"
  shows "applyActivity print m (s\<lparr>u_Cards := Some (fmmap (\<lambda>c. decodedCard (c\<lparr>c_LastEventUnixNano := 0\<rparr>)) (cardsOf s))\<rparr>) = s"
proof -
  have "applyCard print m i (decodedCard (c\<lparr>c_LastEventUnixNano := 0\<rparr>)) = c"
    if c: "fmlookup (cardsOf s) i = Some c" for i c
  proof -
    have cl: "cloneCard c = c" by (rule Clone_eqD [OF assms(2) c])
    have ge: "0 \<le> c_LastEventUnixNano c"
      using assms(1) c by (simp add: Validate_iff card_ok_def)
    have d: "decodedCard (c\<lparr>c_LastEventUnixNano := 0\<rparr>) = c\<lparr>c_LastEventUnixNano := 0\<rparr>"
      by (simp add: decodedCard_def cl)
    have "fmlookup m i = (if 0 < c_LastEventUnixNano c
      then Some \<lparr>a_LastEventUnixNano = c_LastEventUnixNano c, a_Fingerprint = fingerprint print c\<rparr> else None)"
      using assms(3) c by (auto simp: activityOf_def valueOr_def)
    with ge show ?thesis
      unfolding d by (cases c) (simp add: applyCard_def fingerprint_def columnsOf_def)
  qed
  then have "fmmap_keys (applyCard print m) (fmmap (\<lambda>c. decodedCard (c\<lparr>c_LastEventUnixNano := 0\<rparr>)) (cardsOf s)) = cardsOf s"
    by (intro fmap_ext) (simp add: map_option_case option.case_eq_if option.map_comp comp_def)
  moreover have "u_Cards s = Some (cardsOf s)"
    using assms(1) by (auto simp: Validate_iff cardsOf_def)
  ultimately show ?thesis by (cases s) (simp add: applyActivity_def)
qed

lemma readUI_activity:
  assumes "faithful c" and ok: "ui_ok ui"
    and act: "cd_putActivity c (activityOf (cd_columns c) ui) = Some activity" "len activity \<le> maxSize"
    and keys: "\<And>s i. ui = Some s \<Longrightarrow> fmlookup (cardsOf s) i \<noteq> None \<Longrightarrow> ValidString i"
  shows "readUI c (Inr (Some activity)) (f_TelegramUI (decoded (documentOf byIntent checkpoint ui))) = Inr ui"
proof (cases ui)
  case None
  then show ?thesis by (simp add: readUI_def decoded_def documentOf_def MainState_def)
next
  case (Some s)
  with ok have s: "Validate s = Inr ()" "Clone s = s" by (simp_all add: ui_ok_def)
  obtain m where m: "a_Cards (activityOf (cd_columns c) (Some s)) = Some m" by (simp add: activityOf_def)
  have "ValidString i" if "fmlookup m i = Some v" for i v
    using m that keys [OF Some, of i] by (auto simp: activityOf_def fmlookup_dom_iff split: if_splits)
  with m have "cd_getActivity c activity = Some (activityOf (cd_columns c) (Some s))"
    using act(1) Some by (intro faithful_activity [OF assms(1)]) auto
  moreover have "f_TelegramUI (decoded (documentOf byIntent checkpoint ui)) =
    Some (s\<lparr>u_Cards := Some (fmmap (\<lambda>c. decodedCard (c\<lparr>c_LastEventUnixNano := 0\<rparr>)) (cardsOf s))\<rparr>)"
    by (simp add: decoded_def documentOf_def MainState_def Some s(2) fmmap_comp comp_def Let_def)
  moreover have "a_Version (activityOf (cd_columns c) (Some s)) = 1" by (simp add: activityOf_def)
  ultimately show ?thesis
    using act(2) by (simp add: readUI_def Apply_def m not_less applyActivity_activityOf [OF s m] s Some)
qed

section \<open>Keys\<close>

text \<open>The keys of the maps in a state.\<close>

definition stateKeys :: "State \<Rightarrow> string list" where
  "stateKeys s = mapKeys (u_ActiveSessions s) @ mapKeys (u_RecentSessions s) @ mapKeys (cardsOf s)"

text \<open>Field names are in lower case and the fields of a struct have different names.\<close>

definition fieldChar :: "char \<Rightarrow> bool" where
  "fieldChar c \<longleftrightarrow> c \<in> set ''abcdefghijklmnopqrstuvwxyz_''"

definition fieldName :: "string \<Rightarrow> bool" where
  "fieldName k = list_all fieldChar k"

lemma fieldChar_lower: "fieldChar c \<Longrightarrow> of_char c < (0x80 :: int) \<and> lowerASCII c = c"
  by (auto simp: fieldChar_def lowerASCII_def)

lemma fieldName_lower: "fieldName k \<Longrightarrow> ToLower lower k = k"
  using fieldChar_lower by (auto simp: fieldName_def ToLower_def ascii_def list_all_iff intro!: map_idI)

lemma set_members: "(k, v) \<in> set (members fs) \<longleftrightarrow> (k, Some v) \<in> set fs"
  by (induction fs rule: members.induct) (auto split: option.split)

lemma distinct_members: "distinct (map fst fs) \<Longrightarrow> distinct (map fst (members fs))"
proof (induction fs rule: members.induct)
  case (2 key v rest)
  then show ?case by (auto simp: set_members split: option.split) (metis fst_conv imageI set_members)
qed simp

lemma list_all_members:
  "list_all (\<lambda>(k, v). P k v) (members fs) \<longleftrightarrow> list_all (\<lambda>(k, v). pred_option (P k) v) fs"
  by (induction fs rule: members.induct) (auto split: option.split)

lemma canonical_struct:
  assumes "distinct (map fst fs)" and "list_all fieldName (map fst fs)"
  shows "canonical lower (struct fs) \<longleftrightarrow> list_all (\<lambda>(k, v). pred_option (canonical lower) v) fs"
proof -
  have "list_all (\<lambda>(k, v). pred_option (\<lambda>v. ToLower lower k = k \<and> canonical lower v) v) fs \<longleftrightarrow>
    list_all (\<lambda>(k, v). pred_option (canonical lower) v) fs"
    using assms(2) by (induction fs) (auto simp: fieldName_lower)
  then show ?thesis
    using distinct_members [OF assms(1)]
    by (simp add: struct_def list_all_members [of "\<lambda>k v. ToLower lower k = k \<and> canonical lower v"])
qed

lemma canonical_jsonMap:
  "canonical lower (jsonMap f m) \<longleftrightarrow>
     (\<forall>k v. fmlookup m k = Some v \<longrightarrow> ToLower lower k = k \<and> canonical lower (f v))"
proof -
  have "map fst (map (\<lambda>(k, v). (k, f v)) (entries m)) = mapKeys m"
    by (simp add: mapKeys_def comp_def case_prod_beta)
  then show ?thesis
    by (simp add: jsonMap_def list.pred_map comp_def case_prod_beta list_all_iff del: map_map)
       (auto simp flip: set_entries)
qed


lemma canonical_strings [simp]: "canonical lower (jsonStrings xs)"
  by (simp add: jsonStrings_def list_all_iff)

lemma pred_omitIf [simp]: "pred_option P (omitIf b v) \<longleftrightarrow> b \<or> P v"
  by (simp add: omitIf_def)

lemma pred_omitText [simp]: "pred_option (canonical lower) (omitText t)"
  by (simp add: omitText_def)

lemma pred_jsonColumn [simp]: "pred_option (canonical lower) (jsonColumn xs)"
  by (simp add: jsonColumn_def)

lemmas layout_simps = canonical_struct fieldName_def fieldChar_def option.pred_map comp_def option.pred_True

lemma canonical_leaves [simp]:
  "canonical lower (jsonBinding b)" "canonical lower (jsonStatus st)" "canonical lower (jsonButton k)"
  "canonical lower (jsonReceipt r)" "canonical lower (jsonDurable d)" "canonical lower (jsonBlocked u)"
  "canonical lower (jsonRecovery v)" "canonical lower (jsonCarrier c)" "canonical lower (jsonPage p)"
  by (simp_all add: jsonBinding_def jsonStatus_def jsonButton_def jsonReceipt_def jsonDurable_def
      jsonBlocked_def jsonRecovery_def jsonCarrier_def jsonPage_def layout_simps)

lemma canonical_jsonSession [simp]: "canonical lower (jsonSession tt r)"
  by (simp add: jsonSession_def layout_simps)

lemma canonical_jsonCard [simp]: "canonical lower (jsonCard c)"
  by (simp add: jsonCard_def layout_simps)

lemma canonical_jsonOutbound [simp]: "canonical lower (jsonOutbound r)"
  by (simp add: jsonOutbound_def layout_simps jsonRow_def list.pred_map list_all_iff split: option.split)

lemma canonical_jsonCoordinator [simp]: "canonical lower (jsonCoordinator r)"
  by (simp add: jsonCoordinator_def layout_simps)

lemma mapKeys_all: "(\<forall>k v. fmlookup m k = Some v \<longrightarrow> P k) \<longleftrightarrow> list_all P (mapKeys m)"
  by (simp add: list_all_iff fmlookup_dom_iff Ball_def)

lemma canonical_jsonState:
  assumes "u_Cards s \<noteq> None"
  shows "canonical lower (jsonState s) \<longleftrightarrow> list_all (\<lambda>k. ToLower lower k = k) (stateKeys s)"
proof -
  obtain cards where cards: "u_Cards s = Some cards" using assms by auto
  have recent: "canonical lower (jsonRecent xs)" for xs by (simp add: jsonRecent_def)
  have "canonical lower (jsonState s) \<longleftrightarrow>
    list_all (\<lambda>k. ToLower lower k = k) (mapKeys (u_ActiveSessions s)) \<and>
    list_all (\<lambda>k. ToLower lower k = k) (mapKeys (u_RecentSessions s)) \<and>
    list_all (\<lambda>k. ToLower lower k = k) (mapKeys cards)"
    unfolding jsonState_def cards mapKeys_all [symmetric]
    by (simp add: layout_simps canonical_jsonMap recent) (auto simp del: fmlookup_dom_iff)
  then show ?thesis by (simp add: stateKeys_def cardsOf_def cards)
qed

lemma canonical_document:
  assumes "ui_ok (ct_telegramUI k)"
  shows "canonical lower (jsonFile tt (stateDocument k)) \<longleftrightarrow>
    (case ct_telegramUI k of None \<Rightarrow> True | Some s \<Rightarrow> list_all (\<lambda>k. ToLower lower k = k) (stateKeys s))"
proof (cases "ct_telegramUI k")
  case None
  then show ?thesis by (simp add: jsonFile_def layout_simps documentOf_def MainState_def list_all_iff)
next
  case (Some s)
  have "canonical lower (jsonFile tt (stateDocument k)) \<longleftrightarrow> canonical lower (jsonState (the (MainState (Some s))))"
    by (simp add: jsonFile_def layout_simps documentOf_def list_all_iff Some MainState_def)
  also have "\<dots> \<longleftrightarrow> list_all (\<lambda>k. ToLower lower k = k) (stateKeys (the (MainState (Some s))))"
    by (rule canonical_jsonState) (simp add: MainState_def Let_def)
  also have "stateKeys (the (MainState (Some s))) = stateKeys s"
    by (simp add: stateKeys_def MainState_def Let_def mapKeys_eq Clone_def)
  finally show ?thesis by (simp add: Some)
qed

section \<open>Documents\<close>

lemma restorable_known:
  assumes "restorable s"
  shows "s_provider s \<noteq> ProviderOther t" "s_nameSource s \<noteq> SessionNameOther t"
    "s_status s \<noteq> SessionStatusOther t" "s_recoveryTarget s \<noteq> Some (SessionStatusOther t)"
    "s_binding s = Some b \<Longrightarrow> b_Provider b = s_provider s"
proof -
  have wf: "wf_static s" "wf_status s"
    using assms RestoreSession_wf [of "Snapshot s" s] by (simp_all add: restorable_def)
  then show "s_provider s \<noteq> ProviderOther t" "s_nameSource s \<noteq> SessionNameOther t"
    by (auto simp: wf_static_def ValidateSessionIntent_def validName_def result_simps split: if_splits)
  show "s_status s \<noteq> SessionStatusOther t" "s_recoveryTarget s \<noteq> Some (SessionStatusOther t)"
    "s_binding s = Some b \<Longrightarrow> b_Provider b = s_provider s"
    using wf(2) by (auto simp: wf_status_def isRecoveryTarget_def validBinding_def split: SessionStatus.splits)
qed

lemma knownRecord_session:
  assumes "restorable s"
  shows "knownRecord (recordFromSession s)"
  using restorable_known(1-4) [OF assms] restorable_known(5) [OF assms]
  by (cases "s_binding s") (simp_all add: knownRecord_def recordFromSession_def Snapshot_def Let_def)

text \<open>Contents as they are read back: a keyboard without rows has been left out.\<close>

definition normal :: "contents \<Rightarrow> contents" where
  "normal k = k\<lparr>ct_checkpoint := map_option omitEmpty (ct_checkpoint k)\<rparr>"

lemma normal_simps [simp]:
  "ct_byIntent (normal k) = ct_byIntent k" "ct_byID (normal k) = ct_byID k" "ct_telegramUI (normal k) = ct_telegramUI k"
  "ct_checkpoint (normal k) = map_option omitEmpty (ct_checkpoint k)"
  by (simp_all add: normal_def)

lemma contents_ok_normal: "contents_ok k \<Longrightarrow> normal k = k"
  by (cases "ct_checkpoint k"; cases k) (auto simp: contents_ok_def checkpoint_ok_def normal_def)

lemma known_document:
  assumes "contents_ok (normal k)"
  shows "known (stateDocument k)"
proof -
  have "restorable s" if "(i, s) \<in> set (entries (ct_byIntent k))" for i s
    using assms that sessions_okD(2) by (auto simp: contents_ok_def set_entries)
  then have "list_all knownRecord (f_Sessions (stateDocument k))"
    by (auto simp: documentOf_def list_all_iff intro: knownRecord_session)
  moreover have "or_Phase ob \<noteq> OutboundPhaseOther t"
    if r: "ct_checkpoint k = Some r" and ob: "cr_Outbound r = Some ob" for r ob t
  proof -
    from ob obtain ob' where ob': "cr_Outbound (omitEmpty r) = Some ob'" "or_Phase ob' = or_Phase ob"
      by (simp add: omitEmpty_def)
    from assms r obtain stored where "storedCheckpointFromRecord (omitEmpty r) = Inr stored"
      by (auto simp: contents_ok_def checkpoint_ok_def)
    with ob'(1) have "ob_Phase (outboundFromRecord ob') \<noteq> OutboundPhaseOther t"
      by (auto simp: storedCheckpointFromRecord_def store_validateCheckpoint_def store_validateOutbound_def
          Let_def result_simps split: if_splits)
    then show ?thesis by (simp add: outboundFromRecord_def ob'(2))
  qed
  ultimately show ?thesis by (auto simp: known_def documentOf_def)
qed

text \<open>What a document and its side car decode to, apart from the user interface.\<close>

lemma decodeContents_document:
  assumes "faithful c" and ok: "contents_ok (normal k)" and data: "cd_marshal c (stateDocument k) = Some data"
    and "representable (jsonFile (cd_time c) (stateDocument k))"
    and "canonical (cd_lower c) (jsonFile (cd_time c) (stateDocument k))"
  shows "decodeContents c activity data =
    bindE (readUI c activity (f_TelegramUI (decoded (stateDocument k)))) (\<lambda>ui. Inr ((normal k)\<lparr>ct_telegramUI := ui\<rparr>))"
proof -
  note laws = faithful_document [OF assms(1) data assms(4) known_document [OF ok]]
  have keys: "ValidateKeys (cd_lower c) (cd_tokens c data) = Inr ()"
    using ValidateKeys_tokens [of "cd_lower c" _ "[]"] assms(5) by (simp add: laws(1))
  have coordinator: "f_Coordinator (decoded (stateDocument k)) = map_option omitEmpty (ct_checkpoint k)"
    by (simp add: decoded_def documentOf_def)
  have sessions: "restoreAll (f_Sessions (decoded (stateDocument k))) fmempty fmempty = Inr (ct_byIntent k, ct_byID k)"
    using restoreAll_document [of "ct_byIntent k" "ct_byID k"] ok by (simp add: decoded_def contents_ok_def)
  have "f_Version (decoded (stateDocument k)) = sessionStoreFormatVersion"
    by (simp add: decoded_def documentOf_def)
  moreover have "(case map_option omitEmpty (ct_checkpoint k) of
       None \<Rightarrow> Inr ()
     | Some record \<Rightarrow>
         bindE (failIf (cr_Version record \<noteq> coordinatorCheckpointFormatVersion)
                  ''unsupported coordinator checkpoint version'') (\<lambda>_.
         bindE (storedCheckpointFromRecord record) (\<lambda>_. Inr ()))) = Inr ()"
  proof (cases "ct_checkpoint k")
    case (Some r)
    with ok have "cr_Version (omitEmpty r) = coordinatorCheckpointFormatVersion"
      "\<exists>stored. storedCheckpointFromRecord (omitEmpty r) = Inr stored"
      unfolding contents_ok_def checkpoint_ok_def by fastforce+
    with Some show ?thesis by auto
  qed simp
  moreover have eta: "\<lparr>ct_byIntent = ct_byIntent k, ct_byID = ct_byID k, ct_checkpoint = map_option omitEmpty (ct_checkpoint k),
    ct_telegramUI = ui\<rparr> = (normal k)\<lparr>ct_telegramUI := ui\<rparr>" for ui by (simp add: normal_def)
  ultimately show ?thesis
    by (simp add: decodeContents_def keys laws(2,3) coordinator sessions eta)
qed

lemma canonical_cards:
  "canonical lower (jsonFile tt (stateDocument k)) \<Longrightarrow> contents_ok k \<Longrightarrow> ct_telegramUI k = Some s \<Longrightarrow>
   fmlookup (cardsOf s) i \<noteq> None \<Longrightarrow> ToLower lower i = i"
  using canonical_document [of k lower tt]
  by (auto simp: contents_ok_def stateKeys_def list_all_iff fmlookup_dom_iff)

lemma representable_struct: "representable (struct fs) \<Longrightarrow> (key, Some v) \<in> set fs \<Longrightarrow> representable v"
  by (auto simp: struct_def list_all_iff dest!: bspec [of _ _ "(key, v)"] simp: set_members)

lemma representable_jsonMap:
  "representable (jsonMap f m) \<Longrightarrow> fmlookup m i = Some v \<Longrightarrow> ValidString i"
  by (auto simp: jsonMap_def list.pred_map comp_def case_prod_beta list_all_iff dest!: bspec [of _ _ "(i, v)"]
      simp: set_entries)

lemma representable_cards:
  assumes "representable (jsonFile tt (stateDocument k))" and "ct_telegramUI k = Some s"
    and "fmlookup (cardsOf s) i \<noteq> None"
  shows "ValidString i"
proof -
  have "representable (jsonState (the (MainState (Some s))))"
    using representable_struct [OF assms(1) [unfolded jsonFile_def], of "''telegram_ui''"] assms(2)
    by (simp add: documentOf_def MainState_def)
  then have "representable (jsonMap jsonCard (cardsOf (the (MainState (Some s)))))"
    unfolding jsonState_def by (rule representable_struct [of _ "''cards''"])
      (simp add: MainState_def Let_def cardsOf_def)
  moreover obtain card where "fmlookup (cardsOf (the (MainState (Some s)))) i = Some card"
    using assms(3) by (auto simp: MainState_def Let_def Clone_def)
  ultimately show ?thesis by (rule representable_jsonMap)
qed

text \<open>The bytes written for the contents of a store are read back as these contents.\<close>

lemma decode_normal:
  assumes "faithful c" and ok: "contents_ok (normal k)" and data: "cd_marshal c (stateDocument k) = Some data"
    and rep: "representable (jsonFile (cd_time c) (stateDocument k))"
    and can: "canonical (cd_lower c) (jsonFile (cd_time c) (stateDocument k))"
    and act: "cd_putActivity c (activityOf (cd_columns c) (ct_telegramUI k)) = Some activity" "len activity \<le> maxSize"
  shows "decodeContents c (Inr (Some activity)) data = Inr (normal k)"
proof -
  have "readUI c (Inr (Some activity)) (f_TelegramUI (decoded (stateDocument k))) = Inr (ct_telegramUI k)"
    by (rule readUI_activity [OF assms(1) _ act])
       (use ok representable_cards [OF rep] in \<open>auto simp: contents_ok_def\<close>)
  then show ?thesis
    by (simp add: decodeContents_document [OF assms(1) ok data rep can])
qed

corollary decode_written:
  assumes "faithful c" and "contents_ok k" and "cd_marshal c (stateDocument k) = Some data"
    and "representable (jsonFile (cd_time c) (stateDocument k))"
    and "canonical (cd_lower c) (jsonFile (cd_time c) (stateDocument k))"
    and "cd_putActivity c (activityOf (cd_columns c) (ct_telegramUI k)) = Some activity" "len activity \<le> maxSize"
  shows "decodeContents c (Inr (Some activity)) data = Inr k"
  using decode_normal [of c k data activity] assms contents_ok_normal [OF assms(2)] by simp

text \<open>With a key that is not in lower case the document cannot be read.\<close>

lemma decode_refused:
  assumes "faithful c" and ok: "contents_ok k" and data: "cd_marshal c (stateDocument k) = Some data"
    and rep: "representable (jsonFile (cd_time c) (stateDocument k))"
    and can: "\<not> canonical (cd_lower c) (jsonFile (cd_time c) (stateDocument k))"
  shows "\<exists>e. decodeContents c activity data = Inl e"
proof -
  have "known (stateDocument k)" using known_document [of k] ok contents_ok_normal [OF ok] by simp
  note laws = faithful_document [OF assms(1) data rep this]
  have "ValidateKeys (cd_lower c) (cd_tokens c data) \<noteq> Inr ()"
    using ValidateKeys_tokens [of "cd_lower c" _ "[]"] can by (simp add: laws(1))
  then obtain e where "ValidateKeys (cd_lower c) (cd_tokens c data) = Inl e"
    by (cases "ValidateKeys (cd_lower c) (cd_tokens c data)") auto
  then show ?thesis by (simp add: decodeContents_def)
qed

end
