(* ===== verification/Session_Store.thy ===== *)
theory Session_Store
  imports State_Files Card_History
begin

text \<open>
  The session store, \<^verbatim>\<open>src/internal/storage\<close>: the cached contents of the state document and the operations
  on sessions, on the user interface and on the coordinator's checkpoint. Every operation takes the lock,
  rereads the files when another store has changed them, computes the next contents and replaces the
  document. The common course is \<open>transact\<close>; what differs is the function it is given and what happens
  to the cache when the write fails.
\<close>

section \<open>The store\<close>

record SessionStore =
  st_contents :: contents
  st_deletedEmpty :: "(SessionID, Session) fmap"
  st_fullReloads :: u64
  st_generation :: storeFileGeneration

datatype store_error =
    ErrContext string
  | ErrCompareAndSwapConflict
  | ErrInvariantConflict string
  | ErrSessionNotFound
  | Failure string

text \<open>
  The surroundings of one call: the answers of \<^verbatim>\<open>ctx.Err()\<close> in their order, the uses of the disk in
  their order and the clock.
\<close>

record call =
  cl_ctx :: "nat \<Rightarrow> string option"
  cl_access :: "nat \<Rightarrow> access"
  cl_now :: time

type_synonym 'a op = "SessionStore \<times> disk \<Rightarrow> (store_error + 'a) \<times> SessionStore \<times> disk"

definition bindS :: "'a op \<Rightarrow> ('a \<Rightarrow> 'b op) \<Rightarrow> 'b op" where
  "bindS m f s = (case m s of (Inl e, s) \<Rightarrow> (Inl e, s) | (Inr x, s) \<Rightarrow> f x s)"

definition liftS :: "store_error + 'a \<Rightarrow> 'a op" where
  "liftS r s = (r, s)"

definition readS :: "(SessionStore \<Rightarrow> 'a) \<Rightarrow> 'a op" where
  "readS f s = (Inr (f (fst s)), s)"

definition ctxErr :: "call \<Rightarrow> nat \<Rightarrow> store_error + unit" where
  "ctxErr cl i = (case cl_ctx cl i of None \<Rightarrow> Inr () | Some e \<Rightarrow> Inl (ErrContext e))"

text \<open>Errors of the functions that the store calls.\<close>

definition orFail :: "string + 'a \<Rightarrow> store_error + 'a" where
  "orFail r = (case r of Inl e \<Rightarrow> Inl (Failure e) | Inr x \<Rightarrow> Inr x)"

definition OpenSessionStore :: "stateCodec \<Rightarrow> access \<Rightarrow> string \<Rightarrow> disk \<Rightarrow> (string + SessionStore) \<times> disk" where
  "OpenSessionStore c a path d =
     (if path = [] then (Inl ''session store path is required'', d)
      else
        let (r, d) = readVerifiedSessionFile c a True d in
        (bindE r (\<lambda>(k, generation).
           Inr \<lparr>st_contents = k, st_deletedEmpty = fmempty, st_fullReloads = 0, st_generation = generation\<rparr>), d))"

definition reload :: "stateCodec \<Rightarrow> access \<Rightarrow> unit op" where
  "reload c a = (\<lambda>(st, d).
     case inspectStoreGeneration a ReloadState ReloadActivity d of
       Inl e \<Rightarrow> (Inl (Failure e), st, d)
     | Inr current \<Rightarrow>
         if sameStoreGeneration (st_generation st) current then (Inr (), st, d)
         else
           let st = st\<lparr>st_fullReloads := st_fullReloads st + 1\<rparr>;
               (r, d) = readVerifiedSessionFile c a True d in
           (case r of
              Inl e \<Rightarrow> (Inl (Failure e), st, d)
            | Inr (k, generation) \<Rightarrow> (Inr (), st\<lparr>st_contents := k, st_generation := generation\<rparr>, d)))"

definition store_persist :: "stateCodec \<Rightarrow> access \<Rightarrow> contents \<Rightarrow> unit op" where
  "store_persist c a k = (\<lambda>(st, d).
     case writeSessionFile c a (ct_byIntent k) (ct_checkpoint k) (ct_telegramUI k) d of
       (Inl e, d) \<Rightarrow> (Inl (Failure e), st, d)
     | (Inr generation, d) \<Rightarrow> (Inr (), st\<lparr>st_generation := generation\<rparr>, d))"

section \<open>Transactions\<close>

text \<open>
  After a failed write the cache is kept, or reloaded with the error of the reload joined to the result or
  dropped. \<open>commit\<close> writes the next contents and installs them.
\<close>

datatype policy = KeepCache | ReloadJoin | ReloadQuietly

definition afterFailure :: "stateCodec \<Rightarrow> call \<Rightarrow> policy \<Rightarrow> store_error \<Rightarrow> 'a op" where
  "afterFailure c cl policy e s =
     (case policy of
        KeepCache \<Rightarrow> (Inl e, s)
      | _ \<Rightarrow>
          (case reload c (cl_access cl 2) s of
             (Inl e', s) \<Rightarrow> (Inl (if policy = ReloadJoin then Failure ''joined errors'' else e), s)
           | (Inr _, s) \<Rightarrow> (Inl e, s)))"

definition commit :: "stateCodec \<Rightarrow> call \<Rightarrow> policy \<Rightarrow> contents \<Rightarrow> unit op" where
  "commit c cl policy k s =
     (case store_persist c (cl_access cl 1) k s of
        (Inl e, s) \<Rightarrow> afterFailure c cl policy e s
      | (Inr _, st, d) \<Rightarrow> (Inr (), st\<lparr>st_contents := k\<rparr>, d))"

definition transact ::
  "stateCodec \<Rightarrow> call \<Rightarrow> policy \<Rightarrow> (SessionStore \<Rightarrow> store_error + 'a \<times> contents option) \<Rightarrow> 'a op" where
  "transact c cl policy fn =
     bindS (reload c (cl_access cl 0)) (\<lambda>_.
     bindS (readS fn) (\<lambda>r.
     bindS (liftS r) (\<lambda>(x, next).
     case next of
       None \<Rightarrow> liftS (Inr x)
     | Some k \<Rightarrow> bindS (commit c cl policy k) (\<lambda>_. liftS (Inr x)))))"

section \<open>Unique labels\<close>

text \<open>
  \<^verbatim>\<open>string(runes)\<close>: bytes that are not UTF-8 have become the replacement character. The number of runes of
  a suffix is its length, since it is a decimal number.
\<close>

definition encodeChunk :: "rune \<times> string \<Rightarrow> string" where
  "encodeChunk chunk =
     (let (r, bytes) = chunk in if r = runeError then map char_of [0xEF :: nat, 0xBF, 0xBD] else bytes)"

definition labelSuffix :: "nat \<Rightarrow> string" where
  "labelSuffix ordinal = (if ordinal > 1 then decimal ordinal else [])"

definition labelCandidate :: "string \<Rightarrow> nat \<Rightarrow> string" where
  "labelCandidate requested ordinal =
     (let suffix = labelSuffix ordinal; limit = MaxSessionNameRunes - length suffix in
      TrimSpace (concat (map encodeChunk (take limit (rune_chunks requested)))) @ suffix)"

definition usedLabels :: "(string \<Rightarrow> string) \<Rightarrow> (IntentID, Session) fmap \<Rightarrow> SessionID \<Rightarrow> string set" where
  "usedLabels lower sessions excluded =
     (\<lambda>(_, s). ToLower lower (s_name s)) `
       set (filter (\<lambda>(_, s). s_id s \<noteq> excluded \<and> s_name s \<noteq> []) (entries sessions))"

definition Unique :: "(string \<Rightarrow> string) \<Rightarrow> (IntentID, Session) fmap \<Rightarrow> SessionID \<Rightarrow> string \<Rightarrow> string" where
  "Unique lower sessions excluded requested =
     (let used = usedLabels lower sessions excluded in
      case find (\<lambda>candidate. ToLower lower candidate \<notin> used) (map (labelCandidate requested) [1..<10000]) of
        None \<Rightarrow> requested
      | Some candidate \<Rightarrow> candidate)"

section \<open>Sessions\<close>

definition freshPage :: Page where
  "freshPage = \<lparr>p_Current = 1, p_Total = 1, p_Anchor = [], p_FollowLatest = True\<rparr>"

definition freshCard :: "SessionID \<Rightarrow> Card" where
  "freshCard ident = zeroCard\<lparr>c_SessionID := ident, c_Page := freshPage\<rparr>"

definition uiOrNew :: "contents \<Rightarrow> State" where
  "uiOrNew k = (case ct_telegramUI k of None \<Rightarrow> New | Some s \<Rightarrow> Clone s)"

definition insertStarting :: "stateCodec \<Rightarrow> Session \<Rightarrow> contents \<Rightarrow> store_error + (Session \<times> bool) \<times> contents option" where
  "insertStarting c session k =
     (case fmlookup (ct_byIntent k) (s_intentID session) of
        Some existing \<Rightarrow> Inr ((existing, False), None)
      | None \<Rightarrow>
          bindE (failIf (fmlookup (ct_byID k) (s_id session) \<noteq> None)
                   (ErrInvariantConflict ''session id already belongs to an intent'')) (\<lambda>_.
          bindE (if s_name session \<noteq> [] then
                   (case RestoreSession ((Snapshot session)\<lparr>n_Name :=
                           Unique (cd_lower c) (ct_byIntent k) [] (s_name session)\<rparr>) of
                      Inl _ \<Rightarrow> Inl (Failure ''assign unique session name'')
                    | Inr named \<Rightarrow> Inr named)
                 else Inr session) (\<lambda>session.
          let ui = uiOrNew k;
              card = (freshCard (s_id session))\<lparr>c_EmptyCloseEligible := True\<rparr> in
          Inr ((session, True),
            Some (k\<lparr>ct_byIntent := fmupd (s_intentID session) session (ct_byIntent k),
                    ct_byID := fmupd (s_id session) (s_intentID session) (ct_byID k),
                    ct_telegramUI := Some (ui\<lparr>u_Cards := Some (fmupd (s_id session) card (cardsOf ui))\<rparr>)\<rparr>)))))"

definition PutStartingIfAbsent :: "stateCodec \<Rightarrow> call \<Rightarrow> Session \<Rightarrow> (Session \<times> bool) op" where
  "PutStartingIfAbsent c cl session =
     bindS (liftS (bindE (ctxErr cl 0) (\<lambda>_.
        bindE (orFail (validateSessionValue session)) (\<lambda>_.
        bindE (failIf (s_status session \<noteq> SessionStarting) (ErrInvariantConflict ''insert status'')) (\<lambda>_.
        ctxErr cl 1))))) (\<lambda>_.
     transact c cl ReloadJoin (\<lambda>st. insertStarting c session (st_contents st)))"

text \<open>\<^verbatim>\<open>store.byIntent[store.byID[id]]\<close>, with the indexed session present whenever its ID is.\<close>

definition sessionByID :: "contents \<Rightarrow> SessionID \<Rightarrow> store_error + IntentID \<times> Session" where
  "sessionByID k ident =
     (case fmlookup (ct_byID k) ident of
        None \<Rightarrow> Inl ErrSessionNotFound
      | Some intent \<Rightarrow>
          (case fmlookup (ct_byIntent k) intent of
             None \<Rightarrow> Inl (Failure ''no session for the intent'')
           | Some session \<Rightarrow> Inr (intent, session)))"

definition renameTo ::
  "stateCodec \<Rightarrow> SessionID \<Rightarrow> string \<Rightarrow> SessionNameSource \<Rightarrow> contents \<Rightarrow> store_error + Session \<times> contents option" where
  "renameTo c ident requested source k =
     bindE (sessionByID k ident) (\<lambda>(intent, current).
     let name = Unique (cd_lower c) (ct_byIntent k) ident requested in
     case Rename current name source of
       Inl _ \<Rightarrow> Inl (Failure ''validate session name'')
     | Inr next \<Rightarrow>
         if Equal next current then Inr (current, None)
         else Inr (next, Some (k\<lparr>ct_byIntent := fmupd intent next (ct_byIntent k)\<rparr>)))"

definition RenameSession ::
  "stateCodec \<Rightarrow> call \<Rightarrow> SessionID \<Rightarrow> string \<Rightarrow> SessionNameSource \<Rightarrow> Session op" where
  "RenameSession c cl ident requested source =
     bindS (liftS (ctxErr cl 0)) (\<lambda>_.
     transact c cl ReloadQuietly (\<lambda>st. renameTo c ident requested source (st_contents st)))"

definition swapSession :: "Session \<Rightarrow> Session \<Rightarrow> contents \<Rightarrow> store_error + unit \<times> contents option" where
  "swapSession expected next k =
     (case fmlookup (ct_byIntent k) (s_intentID expected) of
        None \<Rightarrow> Inl ErrCompareAndSwapConflict
      | Some current \<Rightarrow>
          if Equal current next then Inr ((), None)
          else if \<not> Equal current expected then Inl ErrCompareAndSwapConflict
          else Inr ((), Some (k\<lparr>ct_byIntent := fmupd (s_intentID next) next (ct_byIntent k)\<rparr>)))"

definition CompareAndSwap :: "stateCodec \<Rightarrow> call \<Rightarrow> Session \<Rightarrow> Session \<Rightarrow> unit op" where
  "CompareAndSwap c cl expected next =
     bindS (liftS (bindE (ctxErr cl 0) (\<lambda>_.
        bindE (orFail (validateSessionValue expected)) (\<lambda>_.
        bindE (orFail (validateSessionValue next)) (\<lambda>_.
        bindE (failIf (\<not> sameIdentity expected next)
                 (ErrInvariantConflict ''compare-and-swap changes immutable session identity'')) (\<lambda>_.
        bindE (failIf (s_status expected \<noteq> SessionStarting \<or>
                       (s_status next \<noteq> SessionReady \<and> s_status next \<noteq> SessionAwaitingRecovery))
                 (ErrInvariantConflict ''unsupported transition'')) (\<lambda>_.
        ctxErr cl 1))))))) (\<lambda>_.
     transact c cl ReloadJoin (\<lambda>st. swapSession expected next (st_contents st)))"

definition hasWorkStatus :: "SessionStatus \<Rightarrow> bool" where
  "hasWorkStatus status \<longleftrightarrow>
     status = SessionRunning \<or> status = SessionStopping \<or> status = SessionClosingAfterWork"

definition withoutEmptyEvidence :: "SessionID \<Rightarrow> State \<Rightarrow> State" where
  "withoutEmptyEvidence ident ui =
     (let copy = Clone ui; card' = (valueOr zeroCard (cardsOf copy) ident)\<lparr>c_EmptyCloseEligible := False\<rparr> in
      if c_SessionID card' \<noteq> [] then copy\<lparr>u_Cards := Some (fmupd ident card' (cardsOf copy))\<rparr> else copy)"

definition replaceSession :: "Session \<Rightarrow> Session \<Rightarrow> contents \<Rightarrow> store_error + unit \<times> contents option" where
  "replaceSession expected next k =
     (case fmlookup (ct_byIntent k) (s_intentID expected) of
        None \<Rightarrow> Inl ErrCompareAndSwapConflict
      | Some current \<Rightarrow>
          if \<not> Equal current expected then Inl ErrCompareAndSwapConflict
          else if Equal current next then Inr ((), None)
          else
            Inr ((), Some (k\<lparr>ct_byIntent := fmupd (s_intentID next) next (ct_byIntent k),
              ct_telegramUI :=
                (if hasWorkStatus (s_status current) \<or> hasWorkStatus (s_status next)
                 then map_option (withoutEmptyEvidence (s_id next)) (ct_telegramUI k)
                 else ct_telegramUI k)\<rparr>)))"

definition Replace :: "stateCodec \<Rightarrow> call \<Rightarrow> Session \<Rightarrow> Session \<Rightarrow> unit op" where
  "Replace c cl expected next =
     bindS (liftS (bindE (ctxErr cl 0) (\<lambda>_.
        bindE (orFail (validateSessionValue expected)) (\<lambda>_.
        bindE (orFail (validateSessionValue next)) (\<lambda>_.
        failIf (\<not> sameIdentity expected next)
          (ErrInvariantConflict ''replace changes immutable session identity'')))))) (\<lambda>_.
     transact c cl KeepCache (\<lambda>st. replaceSession expected next (st_contents st)))"

definition preferModel :: "SessionID \<Rightarrow> string \<Rightarrow> string \<Rightarrow> contents \<Rightarrow> store_error + unit \<times> contents option" where
  "preferModel ident model effort k =
     bindE (sessionByID k ident) (\<lambda>(intent, current).
     case WithModelPreferences current model effort of
       Inl _ \<Rightarrow> Inl (ErrInvariantConflict ''model preferences'')
     | Inr next \<Rightarrow>
         if Equal next current then Inr ((), None)
         else Inr ((), Some (k\<lparr>ct_byIntent := fmupd intent next (ct_byIntent k)\<rparr>)))"

definition SetModelPreferences :: "stateCodec \<Rightarrow> call \<Rightarrow> SessionID \<Rightarrow> string \<Rightarrow> string \<Rightarrow> unit op" where
  "SetModelPreferences c cl ident model effort =
     bindS (liftS (bindE (ctxErr cl 0) (\<lambda>_. ctxErr cl 1))) (\<lambda>_.
     transact c cl ReloadQuietly (\<lambda>st. preferModel ident model effort (st_contents st)))"

section \<open>Reading\<close>

definition loaded :: "stateCodec \<Rightarrow> call \<Rightarrow> (SessionStore \<Rightarrow> store_error + 'a) \<Rightarrow> 'a op" where
  "loaded c cl f =
     bindS (liftS (ctxErr cl 0)) (\<lambda>_.
     bindS (reload c (cl_access cl 0)) (\<lambda>_.
     bindS (readS f) liftS))"

definition session_Load :: "stateCodec \<Rightarrow> call \<Rightarrow> SessionID \<Rightarrow> Session op" where
  "session_Load c cl ident = loaded c cl (\<lambda>st. bindE (sessionByID (st_contents st) ident) (\<lambda>(_, session). Inr session))"

definition GetByIntent :: "stateCodec \<Rightarrow> call \<Rightarrow> IntentID \<Rightarrow> Session option op" where
  "GetByIntent c cl intentID = loaded c cl (\<lambda>st. Inr (fmlookup (ct_byIntent (st_contents st)) intentID))"

definition listLoadedSessions :: "contents \<Rightarrow> Session list" where
  "listLoadedSessions k = map snd (entries (ct_byIntent k))"

definition session_List :: "stateCodec \<Rightarrow> call \<Rightarrow> Session list op" where
  "session_List c cl = loaded c cl (\<lambda>st. Inr (listLoadedSessions (st_contents st)))"

definition ProviderModelPreferences :: "stateCodec \<Rightarrow> call \<Rightarrow> SessionID \<Rightarrow> (string \<times> string) op" where
  "ProviderModelPreferences c cl ident =
     bindS (session_Load c cl ident) (\<lambda>session. liftS (Inr (s_model session, s_effort session)))"

definition LoadTelegramUI :: "stateCodec \<Rightarrow> call \<Rightarrow> State op" where
  "LoadTelegramUI c cl = loaded c cl (\<lambda>st. Inr (uiOrNew (st_contents st)))"

definition LoadActiveSession :: "stateCodec \<Rightarrow> call \<Rightarrow> SessionID op" where
  "LoadActiveSession c cl = bindS (LoadTelegramUI c cl) (\<lambda>s. liftS (Inr (u_ActiveSession s)))"

definition LoadNodeSelection :: "stateCodec \<Rightarrow> call \<Rightarrow> (ComputerID \<times> (ComputerID, SessionID) fmap) op" where
  "LoadNodeSelection c cl =
     bindS (LoadTelegramUI c cl) (\<lambda>s. liftS (Inr (u_SelectedNode s, u_ActiveSessions s)))"

definition LoadNodeSessionHistory :: "stateCodec \<Rightarrow> call \<Rightarrow> (ComputerID, SessionID list) fmap op" where
  "LoadNodeSessionHistory c cl = bindS (LoadTelegramUI c cl) (\<lambda>s. liftS (Inr (u_RecentSessions s)))"

definition LoadCardHistory :: "stateCodec \<Rightarrow> call \<Rightarrow> SessionID \<Rightarrow> string list op" where
  "LoadCardHistory c cl ident =
     bindS (LoadTelegramUI c cl) (\<lambda>s.
     liftS (Inr (let (card', ok) = State_Card s ident in if \<not> ok then [] else elems (c_History card'))))"

text \<open>The columns of a stored card are aligned, so that the loops over two of them are loops over pairs.\<close>

definition displayHistory :: "Card \<Rightarrow> bool \<Rightarrow> string list" where
  "displayHistory c showTechnical =
     (if showTechnical \<or> elems (c_HistoryKinds c) = [] then elems (c_History c)
      else map fst (filter (\<lambda>(_, kind). kind \<noteq> ''tool'') (zip (elems (c_History c)) (elems (c_HistoryKinds c)))))"

definition LoadCardDisplayHistory :: "stateCodec \<Rightarrow> call \<Rightarrow> SessionID \<Rightarrow> bool \<Rightarrow> string list op" where
  "LoadCardDisplayHistory c cl ident showTechnical =
     bindS (LoadTelegramUI c cl) (\<lambda>s.
     liftS (Inr (let (card', ok) = State_Card s ident in if \<not> ok then [] else displayHistory card' showTechnical)))"

definition userPrompts :: "Card \<Rightarrow> nat \<Rightarrow> string list" where
  "userPrompts c limit =
     (if length (elems (c_HistoryKeys c)) \<noteq> length (elems (c_History c)) then []
      else take limit (map snd (filter (\<lambda>(key, _). key \<noteq> []) (zip (elems (c_HistoryKeys c)) (elems (c_History c))))))"

definition LoadCardUserPrompts :: "stateCodec \<Rightarrow> call \<Rightarrow> SessionID \<Rightarrow> int \<Rightarrow> string list op" where
  "LoadCardUserPrompts c cl ident limit =
     (if limit \<le> 0 then liftS (Inr [])
      else
        bindS (LoadTelegramUI c cl) (\<lambda>s.
        liftS (Inr (case fmlookup (cardsOf s) ident of None \<Rightarrow> [] | Some card' \<Rightarrow> userPrompts card' (nat limit)))))"

definition LoadCardPage :: "stateCodec \<Rightarrow> call \<Rightarrow> SessionID \<Rightarrow> (Page \<times> bool) op" where
  "LoadCardPage c cl ident =
     bindS (LoadTelegramUI c cl) (\<lambda>s.
     liftS (Inr (let (card', found) = State_Card s ident in (c_Page card', found))))"

definition emptyEligible :: "Card \<Rightarrow> bool" where
  "emptyEligible c \<longleftrightarrow> c_EmptyCloseEligible c \<and> elems (c_History c) = []"

definition HasEmptyCloseEligibility :: "stateCodec \<Rightarrow> call \<Rightarrow> SessionID \<Rightarrow> bool op" where
  "HasEmptyCloseEligibility c cl ident =
     bindS (LoadTelegramUI c cl) (\<lambda>s.
     liftS (Inr (case fmlookup (cardsOf s) ident of None \<Rightarrow> False | Some card' \<Rightarrow> emptyEligible card')))"

definition eligibleSessions :: "contents \<Rightarrow> SessionID list" where
  "eligibleSessions k =
     (case ct_telegramUI k of
        None \<Rightarrow> []
      | Some s \<Rightarrow> map fst (filter (\<lambda>(_, card'). emptyEligible card') (entries (cardsOf s))))"

definition ListWithEmptyCloseEligibility :: "stateCodec \<Rightarrow> call \<Rightarrow> (Session list \<times> SessionID list) op" where
  "ListWithEmptyCloseEligibility c cl =
     loaded c cl (\<lambda>st. Inr (listLoadedSessions (st_contents st), eligibleSessions (st_contents st)))"

definition LoadCardTranscriptSnapshot :: "stateCodec \<Rightarrow> call \<Rightarrow> SessionID \<Rightarrow> bool \<Rightarrow> (Block list \<times> int) op" where
  "LoadCardTranscriptSnapshot c cl ident showTechnical =
     bindS (LoadTelegramUI c cl) (\<lambda>s.
     liftS (Inr (let (card', ok) = State_Card s ident in
       if \<not> ok then ([], 0) else (Blocks card' showTechnical, c_LastEventUnixNano card'))))"

definition LoadCardProjectionSnapshot ::
  "stateCodec \<Rightarrow> call \<Rightarrow> SessionID \<Rightarrow> ((Block list \<times> int \<times> Page) option \<times> Session list \<times> SessionID list) op" where
  "LoadCardProjectionSnapshot c cl ident =
     loaded c cl (\<lambda>st.
       let k = st_contents st in
       Inr ((case ct_telegramUI k of
               None \<Rightarrow> None
             | Some s \<Rightarrow>
                 let (card', found) = State_Card s ident in
                 if \<not> found then None else Some (Blocks card' True, c_LastEventUnixNano card', c_Page card')),
            listLoadedSessions k, eligibleSessions k))"

section \<open>Imported archives\<close>

type_synonym providerIdentity = "ComputerID \<times> Provider \<times> string"

definition validSession :: "Session \<Rightarrow> bool" where
  "validSession session \<longleftrightarrow> validateSessionValue session = Inr ()"

definition identityOf :: "Session \<Rightarrow> providerIdentity option" where
  "identityOf session = map_option (\<lambda>b. (s_computerID session, b_Provider b, b_SessionID b)) (s_binding session)"

text \<open>
  The first loop checks the sessions of the store and indexes them; a \<open>None\<close> result is \<^verbatim>\<open>ErrConflict\<close>.
\<close>

fun indexSessions ::
  "(IntentID \<times> Session) list \<Rightarrow> (SessionID, IntentID) fmap \<Rightarrow> (providerIdentity \<Rightarrow> SessionID option) \<Rightarrow>
   ((SessionID, IntentID) fmap \<times> (providerIdentity \<Rightarrow> SessionID option)) option" where
  "indexSessions [] byID byProvider = Some (byID, byProvider)"
| "indexSessions ((intentID, session) # rest) byID byProvider =
     (if \<not> validSession session \<or> fmlookup byID (s_id session) \<notin> {None, Some intentID} then None
      else
        let byID = fmupd (s_id session) intentID byID in
        case identityOf session of
          None \<Rightarrow> indexSessions rest byID byProvider
        | Some provider \<Rightarrow>
            if byProvider provider \<notin> {None, Some (s_id session)} then None
            else indexSessions rest byID (byProvider(provider \<mapsto> s_id session)))"

text \<open>A valid archived session has a binding, so its identity is present where it is used.\<close>

fun mergeCandidates ::
  "Session list \<Rightarrow> (IntentID, Session) fmap \<Rightarrow> (SessionID, IntentID) fmap \<Rightarrow> (providerIdentity \<Rightarrow> SessionID option) \<Rightarrow>
   bool \<Rightarrow> ((IntentID, Session) fmap \<times> (SessionID, IntentID) fmap \<times> bool) option" where
  "mergeCandidates [] next byID byProvider changed = Some (next, byID, changed)"
| "mergeCandidates (candidate # rest) next byID byProvider changed =
     (if \<not> validSession candidate \<or> s_status candidate \<noteq> SessionArchived then None
      else
        case fmlookup byID (s_id candidate) of
          Some intentID \<Rightarrow>
            (case fmlookup next intentID of
               Some existing \<Rightarrow>
                 if \<not> Equal existing candidate then None
                 else mergeCandidates rest next byID byProvider changed
             | None \<Rightarrow> None)
        | None \<Rightarrow>
            (case fmlookup next (s_intentID candidate) of
               Some existing \<Rightarrow>
                 if \<not> Equal existing candidate then None
                 else mergeCandidates rest next byID byProvider changed
             | None \<Rightarrow>
                 (case identityOf candidate of
                    None \<Rightarrow> None
                  | Some provider \<Rightarrow>
                      if byProvider provider \<notin> {None, Some (s_id candidate)} then None
                      else
                        mergeCandidates rest (fmupd (s_intentID candidate) candidate next)
                          (fmupd (s_id candidate) (s_intentID candidate) byID)
                          (byProvider(provider \<mapsto> s_id candidate)) True)))"

definition Merge ::
  "(IntentID, Session) fmap \<Rightarrow> Session list \<Rightarrow>
   ((IntentID, Session) fmap \<times> (SessionID, IntentID) fmap \<times> bool) option" where
  "Merge current candidates =
     Option.bind (indexSessions (entries current) fmempty Map.empty) (\<lambda>(byID, byProvider).
     mergeCandidates candidates current byID byProvider False)"

definition archiveimport_Equal :: "(IntentID, Session) fmap \<Rightarrow> (IntentID, Session) fmap \<Rightarrow> bool" where
  "archiveimport_Equal l r \<longleftrightarrow>
     length (entries l) = length (entries r) \<and>
     list_all (\<lambda>(intentID, session).
       case fmlookup r intentID of None \<Rightarrow> False | Some other \<Rightarrow> Equal session other) (entries l)"

text \<open>
  The two operations that read the committed document again before they install it. \<open>accepts\<close> compares
  what was read with what was written.
\<close>

definition verified :: "stateCodec \<Rightarrow> access \<Rightarrow> (contents \<Rightarrow> store_error + 'a) \<Rightarrow> 'a op" where
  "verified c a accepts = (\<lambda>(st, d).
     let (r, d) = readVerifiedSessionFile c a True d in
     (case r of
        Inl e \<Rightarrow> (Inl (Failure e), st, d)
      | Inr (k, generation) \<Rightarrow>
          (case accepts k of
             Inl e \<Rightarrow> (Inl e, st, d)
           | Inr x \<Rightarrow> (Inr x, st\<lparr>st_contents := k, st_generation := generation\<rparr>, d))))"

definition ImportArchived :: "stateCodec \<Rightarrow> call \<Rightarrow> Session list \<Rightarrow> unit op" where
  "ImportArchived c cl candidates =
     bindS (liftS (bindE (ctxErr cl 0) (\<lambda>_. ctxErr cl 1))) (\<lambda>_.
     bindS (reload c (cl_access cl 0)) (\<lambda>_.
     bindS (readS st_contents) (\<lambda>k.
     case Merge (ct_byIntent k) candidates of
       None \<Rightarrow> liftS (Inl (ErrInvariantConflict ''archived session import conflict''))
     | Some (next, _, changed) \<Rightarrow>
         if \<not> changed then liftS (Inr ())
         else
           bindS (liftS (ctxErr cl 2)) (\<lambda>_.
           bindS (store_persist c (cl_access cl 1) (k\<lparr>ct_byIntent := next\<rparr>)) (\<lambda>_.
           verified c (cl_access cl 3) (\<lambda>k'.
             failIf (\<not> archiveimport_Equal (ct_byIntent k') next) (Failure ''durable state differs'')))))))"

section \<open>User interface\<close>

text \<open>
  The function given to \<^verbatim>\<open>UpdateTelegramUI\<close> works on a copy of the state and sees the sessions that the
  reload has installed.
\<close>

definition updateUI :: "(contents \<Rightarrow> State \<Rightarrow> store_error + State) \<Rightarrow> contents \<Rightarrow> store_error + unit \<times> contents option" where
  "updateUI fn k =
     bindE (fn k (uiOrNew k)) (\<lambda>next.
     bindE (orFail (Validate next)) (\<lambda>_.
     Inr ((), Some (k\<lparr>ct_telegramUI := Some next\<rparr>))))"

definition UpdateTelegramUI ::
  "stateCodec \<Rightarrow> call \<Rightarrow> (contents \<Rightarrow> State \<Rightarrow> store_error + State) \<Rightarrow> unit op" where
  "UpdateTelegramUI c cl fn =
     bindS (liftS (bindE (ctxErr cl 0) (\<lambda>_. ctxErr cl 1))) (\<lambda>_.
     transact c cl KeepCache (\<lambda>st. updateUI fn (st_contents st)))"

definition promoteRecentSession :: "SessionID list \<Rightarrow> SessionID \<Rightarrow> SessionID list" where
  "promoteRecentSession history sessionID =
     take 512 (sessionID # filter (\<lambda>candidate. candidate \<noteq> sessionID) history)"

definition ensureCard :: "SessionID \<Rightarrow> State \<Rightarrow> State" where
  "ensureCard sessionID s =
     (if fmlookup (cardsOf s) sessionID = None
      then s\<lparr>u_Cards := Some (fmupd sessionID (freshCard sessionID) (cardsOf s))\<rparr> else s)"

definition recordActive :: "ComputerID \<Rightarrow> SessionID \<Rightarrow> State \<Rightarrow> State" where
  "recordActive nodeID sessionID s =
     s\<lparr>u_ActiveSessions := fmupd nodeID sessionID (u_ActiveSessions s),
       u_RecentSessions := fmupd nodeID
         (promoteRecentSession (valueOr [] (u_RecentSessions s) nodeID) sessionID) (u_RecentSessions s)\<rparr>"

definition activate :: "SessionID \<Rightarrow> State \<Rightarrow> State" where
  "activate sessionID s =
     (let s = s\<lparr>u_ActiveSession := sessionID\<rparr>;
          s = (if u_SelectedNode s \<noteq> [] then recordActive (u_SelectedNode s) sessionID s else s) in
      ensureCard sessionID s)"

definition SetActiveSession :: "stateCodec \<Rightarrow> call \<Rightarrow> SessionID \<Rightarrow> unit op" where
  "SetActiveSession c cl sessionID =
     bindS (liftS (failIf (blank sessionID) (Failure ''active session id is required''))) (\<lambda>_.
     UpdateTelegramUI c cl (\<lambda>_ s. Inr (activate sessionID s)))"

definition selectNode :: "ComputerID \<Rightarrow> State \<Rightarrow> State" where
  "selectNode nodeID s =
     s\<lparr>u_SelectedNode := nodeID, u_ActiveSession := valueOr [] (u_ActiveSessions s) nodeID\<rparr>"

definition SetSelectedNode :: "stateCodec \<Rightarrow> call \<Rightarrow> ComputerID \<Rightarrow> unit op" where
  "SetSelectedNode c cl nodeID =
     bindS (liftS (failIf (blank nodeID) (Failure ''selected node id is required''))) (\<lambda>_.
     UpdateTelegramUI c cl (\<lambda>_ s. Inr (selectNode nodeID s)))"

definition activateOnNode :: "ComputerID \<Rightarrow> SessionID \<Rightarrow> bool \<Rightarrow> State \<Rightarrow> State" where
  "activateOnNode nodeID sessionID navigate s =
     (let s = (if navigate then s\<lparr>u_SelectedNode := nodeID\<rparr> else s);
          s = (if u_SelectedNode s = nodeID then s\<lparr>u_ActiveSession := sessionID\<rparr> else s) in
      ensureCard sessionID (recordActive nodeID sessionID s))"

definition setNodeActiveSession :: "stateCodec \<Rightarrow> call \<Rightarrow> ComputerID \<Rightarrow> SessionID \<Rightarrow> bool \<Rightarrow> unit op" where
  "setNodeActiveSession c cl nodeID sessionID navigate =
     bindS (liftS (failIf (blank nodeID \<or> blank sessionID)
       (Failure ''node and active session ids are required''))) (\<lambda>_.
     UpdateTelegramUI c cl (\<lambda>_ s. Inr (activateOnNode nodeID sessionID navigate s)))"

definition SetNodeActiveSession :: "stateCodec \<Rightarrow> call \<Rightarrow> ComputerID \<Rightarrow> SessionID \<Rightarrow> unit op" where
  "SetNodeActiveSession c cl nodeID sessionID = setNodeActiveSession c cl nodeID sessionID True"

definition SetNodeLastActiveSession :: "stateCodec \<Rightarrow> call \<Rightarrow> ComputerID \<Rightarrow> SessionID \<Rightarrow> unit op" where
  "SetNodeLastActiveSession c cl nodeID sessionID = setNodeActiveSession c cl nodeID sessionID False"

definition clearNode :: "ComputerID \<Rightarrow> State \<Rightarrow> State" where
  "clearNode nodeID s =
     s\<lparr>u_ActiveSessions := fmdrop nodeID (u_ActiveSessions s),
       u_ActiveSession := (if u_SelectedNode s = nodeID then [] else u_ActiveSession s)\<rparr>"

definition ClearNodeActiveSession :: "stateCodec \<Rightarrow> call \<Rightarrow> ComputerID \<Rightarrow> unit op" where
  "ClearNodeActiveSession c cl nodeID =
     bindS (liftS (failIf (blank nodeID) (Failure ''node id is required''))) (\<lambda>_.
     UpdateTelegramUI c cl (\<lambda>_ s. Inr (clearNode nodeID s)))"

section \<open>Cards\<close>

definition cardOr :: "Card \<Rightarrow> State \<Rightarrow> SessionID \<Rightarrow> Card" where
  "cardOr fallback s ident = valueOr fallback (cardsOf s) ident"

definition SetCardCarrier :: "stateCodec \<Rightarrow> call \<Rightarrow> SessionID \<Rightarrow> int \<Rightarrow> int \<Rightarrow> unit op" where
  "SetCardCarrier c cl sessionID chatID messageID =
     bindS (liftS (failIf (sessionID = [] \<or> chatID \<le> 0 \<or> messageID \<le> 0)
       (Failure ''session and positive card carrier identifiers are required''))) (\<lambda>_.
     UpdateTelegramUI c cl (\<lambda>_ s.
       let card' = cardOr (freshCard sessionID) s sessionID;
           next = \<lparr>ChatID = chatID, MessageID = messageID\<rparr>;
           card' = (if c_Carrier card' \<noteq> next then card'\<lparr>c_CarrierOperation := []\<rparr> else card') in
       orFail (SetCard (card'\<lparr>c_Carrier := next\<rparr>) s)))"

definition SetCardPage :: "stateCodec \<Rightarrow> call \<Rightarrow> SessionID \<Rightarrow> int \<Rightarrow> int \<Rightarrow> string \<Rightarrow> bool \<Rightarrow> unit op" where
  "SetCardPage c cl sessionID current pages anch followLatest =
     bindS (liftS (failIf (sessionID = [] \<or> current < 1 \<or> pages < current)
       (Failure ''valid card page is required''))) (\<lambda>_.
     UpdateTelegramUI c cl (\<lambda>_ s.
       let card' = cardOr (zeroCard\<lparr>c_SessionID := sessionID\<rparr>) s sessionID in
       orFail (SetCard (card'\<lparr>c_Page := \<lparr>p_Current = current, p_Total = pages, p_Anchor = anch,
                                        p_FollowLatest = followLatest\<rparr>\<rparr>) s)))"

definition appendCard :: "time \<Rightarrow> SessionID \<Rightarrow> string \<Rightarrow> string \<Rightarrow> State \<Rightarrow> string + State" where
  "appendCard now ident item kind s =
     bindE (history_Append item kind ((cardOr (freshCard ident) s ident)\<lparr>c_EmptyCloseEligible := False\<rparr>)) (\<lambda>card'.
     SetCard (TouchEvent now card') s)"

definition cardeventhistory_Append :: "stateCodec \<Rightarrow> call \<Rightarrow> SessionID \<Rightarrow> string \<Rightarrow> string \<Rightarrow> unit op" where
  "cardeventhistory_Append c cl ident item kind =
     bindS (liftS (failIf (ident = [] \<or> item = []) (Failure ''session and history item are required''))) (\<lambda>_.
     UpdateTelegramUI c cl (\<lambda>_ s. orFail (appendCard (cl_now cl) ident item kind s)))"

definition AppendCardHistory :: "stateCodec \<Rightarrow> call \<Rightarrow> SessionID \<Rightarrow> string \<Rightarrow> unit op" where
  "AppendCardHistory c cl ident item = cardeventhistory_Append c cl ident item []"

definition AppendCardTechnicalHistory :: "stateCodec \<Rightarrow> call \<Rightarrow> SessionID \<Rightarrow> string \<Rightarrow> unit op" where
  "AppendCardTechnicalHistory c cl ident item = cardeventhistory_Append c cl ident item ''tool''"

definition AppendCardTypedHistory :: "stateCodec \<Rightarrow> call \<Rightarrow> SessionID \<Rightarrow> string \<Rightarrow> string \<Rightarrow> unit op" where
  "AppendCardTypedHistory c cl ident item kind = cardeventhistory_Append c cl ident item kind"

text \<open>\<^verbatim>\<open>ErrCardUnavailable\<close> of package \<^verbatim>\<open>cardeventhistory\<close> is reported as a missing session.\<close>

definition existingCard :: "State \<Rightarrow> SessionID \<Rightarrow> store_error + Card" where
  "existingCard s ident = (case fmlookup (cardsOf s) ident of None \<Rightarrow> Inl ErrSessionNotFound | Some card' \<Rightarrow> Inr card')"

definition InsertCardTypedHistoryAfterPrompt ::
  "stateCodec \<Rightarrow> call \<Rightarrow> SessionID \<Rightarrow> string \<Rightarrow> string \<Rightarrow> string \<Rightarrow> unit op" where
  "InsertCardTypedHistoryAfterPrompt c cl ident promptID item kind =
     bindS (liftS (failIf (ident = [] \<or> promptID = [] \<or> item = [])
       (Failure ''session, prompt, and history item are required''))) (\<lambda>_.
     UpdateTelegramUI c cl (\<lambda>_ s.
       bindE (existingCard s ident) (\<lambda>card'.
       bindE (orFail (limit_InsertAfterPrompt promptID item kind card')) (\<lambda>card'.
       orFail (SetCard (TouchEvent (cl_now cl) card') s)))))"

definition InsertCardRuntimeEvent ::
  "stateCodec \<Rightarrow> call \<Rightarrow> SessionID \<Rightarrow> string \<Rightarrow> string \<Rightarrow> string \<Rightarrow> string \<Rightarrow> unit op" where
  "InsertCardRuntimeEvent c cl ident promptID eventID item kind =
     UpdateTelegramUI c cl (\<lambda>_ s.
       bindE (existingCard s ident) (\<lambda>previous.
       bindE (orFail (InsertRuntimeEvent promptID eventID item kind previous)) (\<lambda>card'.
       let card' = card'\<lparr>c_EmptyCloseEligible := False\<rparr>;
           grown = length (elems (c_History card')) \<noteq> length (elems (c_History previous)) in
       orFail (SetCard (if grown then TouchEvent (cl_now cl) card' else card') s))))"

text \<open>A panic of \<open>history_Append\<close> or an index out of range would be the error \<open>panic\<close>.\<close>

definition promptCard :: "time \<Rightarrow> string \<Rightarrow> string \<Rightarrow> Card \<Rightarrow> State \<Rightarrow> string + State" where
  "promptCard now messageID item c s =
     (case indexOf (\<lambda>key. key = messageID) (elems (c_HistoryKeys c)) of
        Some index \<Rightarrow>
          if length (elems (c_History c)) \<le> index then Inl panic
          else if elems (c_History c) ! index = item then Inr s
          else SetCard (TouchEvent now (c\<lparr>c_History := Some ((elems (c_History c))[index := item])\<rparr>)) s
      | None \<Rightarrow>
          bindE (history_Append item [] c) (\<lambda>c.
          let keys = (if elems (c_HistoryKeys c) = [] then makeStrings (length (elems (c_History c)))
                      else c_HistoryKeys c) in
          SetCard (TouchEvent now (c\<lparr>c_HistoryKeys :=
            Some ((elems keys)[length (elems keys) - 1 := messageID])\<rparr>)) s))"

definition SetCardPrompt :: "stateCodec \<Rightarrow> call \<Rightarrow> SessionID \<Rightarrow> string \<Rightarrow> string \<Rightarrow> unit op" where
  "SetCardPrompt c cl sessionID messageID item =
     bindS (liftS (failIf (sessionID = [] \<or> blank messageID \<or> messageID \<noteq> TrimSpace messageID \<or> item = [])
       (Failure ''session, prompt message, and history item are required''))) (\<lambda>_.
     UpdateTelegramUI c cl (\<lambda>k s.
       bindE (sessionByID k sessionID) (\<lambda>(_, session).
       bindE (failIf (s_status session = SessionClosing \<or> s_status session = SessionArchived \<or>
                      (s_status session = SessionAwaitingRecovery \<and>
                       messageID \<notin> set (elems (c_HistoryKeys (cardOr zeroCard s sessionID)))))
                (Failure ''cannot accept request into session'')) (\<lambda>_.
       orFail (promptCard (cl_now cl) messageID item
         ((cardOr (freshCard sessionID) s sessionID)\<lparr>c_EmptyCloseEligible := False\<rparr>) s)))))"

text \<open>The inner loop of \<open>RestoreFinal\<close> is partial; \<open>None\<close> would be a call that does not return.\<close>

definition restoreFinalCard :: "time \<Rightarrow> SessionID \<Rightarrow> string \<Rightarrow> string \<Rightarrow> State \<Rightarrow> store_error + State" where
  "restoreFinalCard now ident messageID final s =
     bindE (existingCard s ident) (\<lambda>previous.
     case RestoreFinal messageID final previous of
       None \<Rightarrow> Inl (Failure ''no return'')
     | Some (Inl _) \<Rightarrow> Inl (Failure ''restore final'')
     | Some (Inr card') \<Rightarrow>
         let changed = length (elems (c_History card')) \<noteq> length (elems (c_History previous)) \<or>
               length (elems (c_PendingFinalOperations card')) \<noteq> length (elems (c_PendingFinalOperations previous)) in
         orFail (SetCard (if changed then TouchEvent now card' else card') s))"

definition RestoreAcceptedFinal :: "stateCodec \<Rightarrow> call \<Rightarrow> SessionID \<Rightarrow> string \<Rightarrow> string \<Rightarrow> unit op" where
  "RestoreAcceptedFinal c cl ident messageID final =
     UpdateTelegramUI c cl (\<lambda>_ s. restoreFinalCard (cl_now cl) ident messageID final s)"

definition errStale :: store_error where
  "errStale = Failure ''bound final session is stale''"

definition RestoreAcceptedFinalForSession :: "stateCodec \<Rightarrow> call \<Rightarrow> Session \<Rightarrow> string \<Rightarrow> string \<Rightarrow> bool op" where
  "RestoreAcceptedFinalForSession c cl expected messageID final s =
     (case UpdateTelegramUI c cl (\<lambda>k ui.
             case fmlookup (ct_byIntent k) (s_intentID expected) of
               None \<Rightarrow> Inl errStale
             | Some current \<Rightarrow>
                 if \<not> Equal current expected then Inl errStale
                 else restoreFinalCard (cl_now cl) (s_id expected) messageID final ui) s of
        (Inl e, s) \<Rightarrow> (if e = errStale then Inr False else Inl e, s)
      | (Inr _, s) \<Rightarrow> (Inr True, s))"

section \<open>Deleting empty sessions\<close>

definition firstOpen :: "contents \<Rightarrow> (IntentID, Session) fmap \<Rightarrow> SessionID list \<Rightarrow> SessionID option" where
  "firstOpen k sessions history =
     find (\<lambda>ident.
       case fmlookup (ct_byID k) ident of
         None \<Rightarrow> False
       | Some intent \<Rightarrow>
           (case fmlookup sessions intent of None \<Rightarrow> True | Some s \<Rightarrow> s_status s \<noteq> SessionArchived)) history"

text \<open>
  Both loops over maps treat every node on its own. A node whose active session is deleted falls back to
  its most recent session that is not archived.
\<close>

definition forgetRecent :: "SessionID \<Rightarrow> State \<Rightarrow> State" where
  "forgetRecent ident ui =
     ui\<lparr>u_RecentSessions := fmmap (filter (\<lambda>x. x \<noteq> ident)) (u_RecentSessions ui)\<rparr>"

definition reactivate :: "contents \<Rightarrow> (IntentID, Session) fmap \<Rightarrow> SessionID \<Rightarrow> State \<Rightarrow> ComputerID \<Rightarrow> SessionID option" where
  "reactivate k sessions ident ui node =
     (case fmlookup (u_ActiveSessions ui) node of
        None \<Rightarrow> None
      | Some active \<Rightarrow>
          if active \<noteq> ident then Some active
          else firstOpen k sessions (valueOr [] (u_RecentSessions ui) node))"

definition forgetActive :: "contents \<Rightarrow> (IntentID, Session) fmap \<Rightarrow> SessionID \<Rightarrow> State \<Rightarrow> State" where
  "forgetActive k sessions ident ui =
     ui\<lparr>u_ActiveSessions :=
       fmap_of_list (List.map_filter (\<lambda>node. map_option (Pair node) (reactivate k sessions ident ui node))
         (mapKeys (u_ActiveSessions ui)))\<rparr>"

definition deleteReferences :: "contents \<Rightarrow> (IntentID, Session) fmap \<Rightarrow> SessionID \<Rightarrow> State \<Rightarrow> State" where
  "deleteReferences k sessions ident ui =
     (let ui = Clone ui;
          ui = ui\<lparr>u_Cards := Some (fmdrop ident (cardsOf ui))\<rparr>;
          ui = forgetActive k sessions ident (forgetRecent ident ui) in
      ui\<lparr>u_ActiveSession :=
        (if u_SelectedNode ui \<noteq> [] then valueOr [] (u_ActiveSessions ui) (u_SelectedNode ui)
         else if u_ActiveSession ui = ident then [] else u_ActiveSession ui)\<rparr>)"

definition deleteBody ::
  "Session \<Rightarrow> bool \<Rightarrow> (SessionID, Session) fmap \<Rightarrow> contents \<Rightarrow> store_error + bool \<times> contents option" where
  "deleteBody expected requireEmpty deletedEmpty k =
     (case fmlookup (ct_byIntent k) (s_intentID expected) of
        None \<Rightarrow>
          (case fmlookup deletedEmpty (s_id expected) of
             None \<Rightarrow> Inl ErrCompareAndSwapConflict
           | Some deleted \<Rightarrow> if Equal deleted expected then Inr (True, None) else Inl ErrCompareAndSwapConflict)
      | Some current \<Rightarrow>
          if \<not> Equal current expected then Inl ErrCompareAndSwapConflict
          else
            (case ct_telegramUI k of
               None \<Rightarrow> Inr (False, None)
             | Some s \<Rightarrow>
                 if requireEmpty \<and>
                    (case fmlookup (cardsOf s) (s_id expected) of None \<Rightarrow> True | Some card' \<Rightarrow> \<not> emptyEligible card')
                 then Inr (False, None)
                 else
                   let sessions = fmdrop (s_intentID expected) (ct_byIntent k);
                       ui = deleteReferences k sessions (s_id expected) s in
                   bindE (orFail (Validate ui)) (\<lambda>_.
                   Inr (True, Some (k\<lparr>ct_byIntent := sessions, ct_byID := fmdrop (s_id expected) (ct_byID k),
                                      ct_telegramUI := Some ui\<rparr>)))))"

text \<open>The receipt of a deletion is kept when the document was replaced by this call.\<close>

definition deleteProven :: "stateCodec \<Rightarrow> call \<Rightarrow> Session \<Rightarrow> bool \<Rightarrow> bool op" where
  "deleteProven c cl expected requireEmpty =
     bindS (liftS (ctxErr cl 1)) (\<lambda>_.
     bindS (transact c cl KeepCache (\<lambda>st.
       bindE (deleteBody expected requireEmpty (st_deletedEmpty st) (st_contents st)) (\<lambda>(x, next). Inr ((x, next \<noteq> None), next)))) (\<lambda>(x, deleted) (st, d).
     (Inr x, if deleted then st\<lparr>st_deletedEmpty := fmupd (s_id expected) expected (st_deletedEmpty st)\<rparr> else st, d)))"

definition DeleteEmptyClosing :: "stateCodec \<Rightarrow> call \<Rightarrow> Session \<Rightarrow> bool op" where
  "DeleteEmptyClosing c cl expected =
     bindS (liftS (bindE (ctxErr cl 0) (\<lambda>_.
        failIf (s_status expected \<noteq> SessionClosing) (Failure ''empty deletion requires closing session'')))) (\<lambda>_.
     deleteProven c cl expected True)"

definition DeleteEmptyFailedStart :: "stateCodec \<Rightarrow> call \<Rightarrow> Session \<Rightarrow> bool op" where
  "DeleteEmptyFailedStart c cl expected =
     bindS (liftS (failIf (s_status expected \<noteq> SessionAwaitingRecovery \<or>
         s_recoveryTarget expected \<noteq> Some SessionStarting \<or> s_binding expected \<noteq> None)
       (Failure ''empty failed-start deletion requires unbound initial recovery''))) (\<lambda>_.
     deleteProven c cl expected True)"

definition DeleteEmptyAwaitingRecovery :: "stateCodec \<Rightarrow> call \<Rightarrow> Session \<Rightarrow> bool op" where
  "DeleteEmptyAwaitingRecovery c cl expected =
     bindS (liftS (failIf (s_status expected \<noteq> SessionAwaitingRecovery)
       (Failure ''empty recovery deletion requires awaiting recovery''))) (\<lambda>_.
     deleteProven c cl expected True)"

definition DeleteUnrecoverableAwaitingRecovery :: "stateCodec \<Rightarrow> call \<Rightarrow> Session \<Rightarrow> bool op" where
  "DeleteUnrecoverableAwaitingRecovery c cl expected =
     bindS (liftS (failIf (s_status expected \<noteq> SessionAwaitingRecovery)
       (Failure ''unrecoverable deletion requires awaiting recovery''))) (\<lambda>_.
     deleteProven c cl expected True)"

definition WasEmptySessionDeleted :: "stateCodec \<Rightarrow> call \<Rightarrow> SessionID \<Rightarrow> ProviderBinding \<Rightarrow> bool op" where
  "WasEmptySessionDeleted c cl ident binding =
     loaded c cl (\<lambda>st.
       Inr (if fmlookup (ct_byID (st_contents st)) ident \<noteq> None then False
            else
              (case fmlookup (st_deletedEmpty st) ident of
                 None \<Rightarrow> False
               | Some deleted \<Rightarrow> s_binding deleted = Some binding)))"

section \<open>Coordinator checkpoints\<close>

definition checkpoint_Load :: "stateCodec \<Rightarrow> call \<Rightarrow> StoredCheckpoint option op" where
  "checkpoint_Load c cl =
     loaded c cl (\<lambda>st.
       case ct_checkpoint (st_contents st) of
         None \<Rightarrow> Inr None
       | Some record \<Rightarrow> bindE (orFail (storedCheckpointFromRecord record)) (\<lambda>stored. Inr (Some stored)))"

text \<open>Either the checkpoint that an earlier call has already saved, or nothing when it is to be written.\<close>

definition checkRevision :: "u64 \<Rightarrow> Checkpoint \<Rightarrow> contents \<Rightarrow> store_error + StoredCheckpoint option" where
  "checkRevision expectedRevision next k =
     (case ct_checkpoint k of
        None \<Rightarrow> if expectedRevision \<noteq> 0 then Inl ErrCompareAndSwapConflict else Inr None
      | Some record \<Rightarrow>
          if cr_Revision record \<noteq> expectedRevision then
            bindE (orFail (storedCheckpointFromRecord record)) (\<lambda>current.
            if sc_Revision current = expectedRevision + 1 \<and> sc_Checkpoint current = next then Inr (Some current)
            else Inl ErrCompareAndSwapConflict)
          else Inr None)"

definition acceptReread :: "StoredCheckpoint \<Rightarrow> contents \<Rightarrow> store_error + StoredCheckpoint" where
  "acceptReread want k =
     (case ct_checkpoint k of
        None \<Rightarrow> Inl (Failure ''reread coordinator checkpoint: checkpoint is absent'')
      | Some record \<Rightarrow>
          bindE (orFail (storedCheckpointFromRecord record)) (\<lambda>persisted.
          if persisted \<noteq> want then Inl (Failure ''reread coordinator checkpoint: persisted value mismatch'')
          else Inr persisted))"

definition persistOr :: "stateCodec \<Rightarrow> call \<Rightarrow> contents \<Rightarrow> unit op" where
  "persistOr c cl k s =
     (case store_persist c (cl_access cl 1) k s of
        (Inl e, s) \<Rightarrow> afterFailure c cl ReloadJoin e s
      | (Inr _, s) \<Rightarrow> (Inr (), s))"

definition checkpoint_Save :: "stateCodec \<Rightarrow> call \<Rightarrow> u64 \<Rightarrow> Checkpoint \<Rightarrow> StoredCheckpoint op" where
  "checkpoint_Save c cl expectedRevision next =
     bindS (liftS (bindE (ctxErr cl 0) (\<lambda>_.
        bindE (orFail (store_validateCheckpoint next)) (\<lambda>_.
        bindE (failIf (expectedRevision = maxUint64) (Failure ''coordinator checkpoint revision overflow'')) (\<lambda>_.
        ctxErr cl 1))))) (\<lambda>_.
     bindS (reload c (cl_access cl 0)) (\<lambda>_.
     bindS (readS (\<lambda>st. checkRevision expectedRevision next (st_contents st))) (\<lambda>r.
     bindS (liftS r) (\<lambda>current.
     case current of
       Some stored \<Rightarrow> liftS (Inr stored)
     | None \<Rightarrow>
         let want = \<lparr>sc_Revision = expectedRevision + 1, sc_Checkpoint = store_cloneCheckpoint next\<rparr> in
         bindS (readS st_contents) (\<lambda>k.
         bindS (persistOr c cl (k\<lparr>ct_checkpoint := Some (recordFromStoredCheckpoint want)\<rparr>)) (\<lambda>_.
         verified c (cl_access cl 3) (acceptReread want)))))))"

end
