(* ===== verification/State_Evolution.thy ===== *)
theory State_Evolution
  imports State_Files
begin

text \<open>
  How the two files change over time. \<open>evolves\<close> is what every writer keeps to: a path is replaced by a newly
  created file or changes its mode. Under it a read whose two inspections agree has seen one state of the
  disk, and a write whose verification passes has left its own files in place.
\<close>

section \<open>Evolution\<close>

definition path_evolves :: "nat \<Rightarrow> nat \<Rightarrow> diskFile option \<Rightarrow> diskFile option \<Rightarrow> bool" where
  "path_evolves n n' old new \<longleftrightarrow>
     (case new of
        None \<Rightarrow> old = None
      | Some f \<Rightarrow>
          n \<le> fl_stamp f \<and> fl_stamp f < n' \<or>
          (\<exists>g. old = Some g \<and> fl_stamp g = fl_stamp f \<and> fl_data g = fl_data f))"

definition evolves :: "disk \<Rightarrow> disk \<Rightarrow> bool" where
  "evolves d d' \<longleftrightarrow>
     dk_next d \<le> dk_next d' \<and>
     path_evolves (dk_next d) (dk_next d') (dk_state d) (dk_state d') \<and>
     path_evolves (dk_next d) (dk_next d') (dk_activity d) (dk_activity d')"

definition path_fresh :: "nat \<Rightarrow> diskFile option \<Rightarrow> bool" where
  "path_fresh n path \<longleftrightarrow> (\<forall>f. path = Some f \<longrightarrow> fl_stamp f < n)"

definition disk_ok :: "disk \<Rightarrow> bool" where
  "disk_ok d \<longleftrightarrow> path_fresh (dk_next d) (dk_state d) \<and> path_fresh (dk_next d) (dk_activity d)"

definition honest :: "access \<Rightarrow> bool" where
  "honest a \<longleftrightarrow> (\<forall>n d. evolves d (ac_other a n d))"

definition quiet :: "access \<Rightarrow> bool" where
  "quiet a \<longleftrightarrow> (\<forall>n d. ac_other a n d = d)"

lemma path_evolves_refl: "path_evolves n n' x x"
  by (cases x) (auto simp: path_evolves_def)

lemma path_evolves_trans:
  "path_evolves n n' x y \<Longrightarrow> path_evolves n' n'' y z \<Longrightarrow> n \<le> n' \<Longrightarrow> n' \<le> n'' \<Longrightarrow> path_evolves n n'' x z"
  by (cases z) (auto simp: path_evolves_def)

lemma evolves_refl [simp]: "evolves d d"
  by (simp add: evolves_def path_evolves_refl)

lemma evolves_trans: "evolves d d' \<Longrightarrow> evolves d' d'' \<Longrightarrow> evolves d d''"
  by (auto simp: evolves_def intro: path_evolves_trans)

lemma evolves_ok: "disk_ok d \<Longrightarrow> evolves d d' \<Longrightarrow> disk_ok d'"
  by (auto simp: disk_ok_def evolves_def path_evolves_def path_fresh_def)

lemma quiet_honest: "quiet a \<Longrightarrow> honest a"
  by (simp add: quiet_def honest_def)

lemma quiet_other [simp]: "quiet a \<Longrightarrow> ac_other a n d = d"
  by (simp add: quiet_def)

lemma evolves_mode: "dk_state d = Some f \<Longrightarrow> evolves d (d\<lparr>dk_state := Some (f\<lparr>fl_mode := m\<rparr>)\<rparr>)"
  by (auto simp: evolves_def path_evolves_refl) (auto simp: path_evolves_def)

lemma evolves_next: "evolves d (d\<lparr>dk_next := Suc (dk_next d)\<rparr>)"
  by (auto simp: evolves_def path_evolves_refl)

text \<open>A path that ends with a stamp from before has kept its bytes all the time.\<close>

lemma path_unchanged:
  assumes "path_evolves n n' x y" and "path_evolves n' n'' y z" and "n \<le> n'"
    and "path_fresh n x" and "map_option fl_stamp z = map_option fl_stamp x"
  shows "map_option fl_stamp y = map_option fl_stamp x" "map_option fl_data y = map_option fl_data x"
  using assms by (cases x; cases y; cases z; force simp: path_evolves_def path_fresh_def)+

definition stamps :: "disk \<Rightarrow> nat option \<times> nat option" where
  "stamps d = (map_option fl_stamp (dk_state d), map_option fl_stamp (dk_activity d))"

definition bytes :: "disk \<Rightarrow> string option \<times> string option" where
  "bytes d = (map_option fl_data (dk_state d), map_option fl_data (dk_activity d))"

lemma unchanged:
  assumes "evolves d d1" and "evolves d1 d2" and "disk_ok d" and "stamps d2 = stamps d"
  shows "stamps d1 = stamps d" "bytes d1 = bytes d"
  using assms path_unchanged [of "dk_next d" "dk_next d1" "dk_state d" "dk_state d1" "dk_next d2" "dk_state d2"]
    path_unchanged [of "dk_next d" "dk_next d1" "dk_activity d" "dk_activity d1" "dk_next d2" "dk_activity d2"]
  by (auto simp: evolves_def disk_ok_def stamps_def bytes_def)

corollary unchanged_bytes: "evolves d d' \<Longrightarrow> disk_ok d \<Longrightarrow> stamps d' = stamps d \<Longrightarrow> bytes d' = bytes d"
  using unchanged(2) [of d d' d'] by simp

section \<open>Contents of the disk\<close>

definition contentsOf :: "stateCodec \<Rightarrow> string option \<times> string option \<Rightarrow> string + contents" where
  "contentsOf c b =
     (case fst b of None \<Rightarrow> Inr emptyContents | Some data \<Rightarrow> decodeContents c (Inr (snd b)) data)"

abbreviation diskContents :: "stateCodec \<Rightarrow> disk \<Rightarrow> string + contents" where
  "diskContents c d \<equiv> contentsOf c (bytes d)"

definition generation :: "disk \<Rightarrow> storeFileGeneration" where
  "generation d = (map_option generationOf (dk_state d), map_option generationOf (dk_activity d))"

definition generationStamps :: "storeFileGeneration \<Rightarrow> nat option \<times> nat option" where
  "generationStamps g = (map_option pg_stamp (fst g), map_option pg_stamp (snd g))"

lemma generationStamps_generation [simp]: "generationStamps (generation d) = stamps d"
  by (simp add: generationStamps_def generation_def stamps_def generationOf_def option.map_comp comp_def)

lemma attempt_Inr [result_simps]: "attempt a fs m = Inr u \<longleftrightarrow> \<not> list_ex (ac_fails a) fs"
  by (simp add: attempt_def failIf_Inr)

lemma inspectStoreGeneration_Inr:
  "inspectStoreGeneration a x y d = Inr g \<longleftrightarrow> \<not> ac_fails a x \<and> \<not> ac_fails a y \<and> g = generation d"
  by (auto simp: inspectStoreGeneration_def inspectPathGeneration_def generation_def result_simps)

lemma decodeContents_activity:
  "decodeContents c (Inl e) data = Inr k \<Longrightarrow> decodeContents c activity data = Inr k"
  by (auto simp: decodeContents_def readUI_def Apply_def result_simps split: option.splits)

section \<open>Reading\<close>

lemma readSessionFile_evolves:
  "readSessionFile c a repair d = (r, d') \<Longrightarrow> evolves d d' \<and> bytes d' = bytes d"
  by (auto simp: readSessionFile_def Let_def bytes_def intro!: evolves_mode split: option.splits if_splits)

lemma readSessionFile_Inr:
  assumes "readSessionFile c a repair d = (Inr k, d')"
  shows "diskContents c d = Inr k"
  using assms
  by (auto simp: readSessionFile_def Let_def contentsOf_def bytes_def intro: decodeContents_activity
      split: option.splits if_splits)

lemma readAttempts_sound:
  assumes "honest a" and "disk_ok d" and "readAttempts c a repair i n d = (r, d')"
  shows "evolves d d' \<and> (\<forall>k g. r = Inr (k, g) \<longrightarrow> g = generation d' \<and> diskContents c d' = Inr k)"
  using assms(2,3)
proof (induction n arbitrary: i d)
  case 0
  then show ?case by auto
next
  case (Suc n)
  define d1 where "d1 = ac_other a (2 * i) d"
  obtain r1 d2 where rd: "readSessionFile c a repair d1 = (r1, d2)" by fastforce
  define d3 where "d3 = ac_other a (2 * i + 1) d2"
  have ev: "evolves d d1" "evolves d1 d2" "evolves d2 d3" "bytes d2 = bytes d1"
    using assms(1) readSessionFile_evolves [OF rd] by (simp_all add: honest_def d1_def d3_def)
  have ok1: "disk_ok d1" "disk_ok d2" "disk_ok d3"
    using evolves_ok Suc.prems(1) ev by blast+
  have ev3: "evolves d d3" using ev evolves_trans by blast
  have step: "(r, d') = (case inspectStoreGeneration a BeforeState BeforeActivity d of
      Inl e \<Rightarrow> (Inl e, d)
    | Inr before \<Rightarrow> (case r1 of
        Inl e \<Rightarrow> (Inl e, d3)
      | Inr k \<Rightarrow> (case inspectStoreGeneration a AfterState AfterActivity d3 of
          Inl e \<Rightarrow> (Inl e, d3)
        | Inr after \<Rightarrow> if before = after then (Inr (k, after), d3) else readAttempts c a repair (Suc i) n d3)))"
    using Suc.prems(2) rd by (simp add: d1_def d3_def Let_def cong: sum.case_cong if_cong)
  show ?case
  proof (cases "inspectStoreGeneration a BeforeState BeforeActivity d")
    case before: (Inr before)
    show ?thesis
    proof (cases r1)
      case k: (Inr k)
      show ?thesis
      proof (cases "inspectStoreGeneration a AfterState AfterActivity d3")
        case after: (Inr after)
        from before after have g: "before = generation d" "after = generation d3"
          by (simp_all add: inspectStoreGeneration_Inr)
        show ?thesis
        proof (cases "before = after")
          case True
          with g have "stamps d3 = stamps d" by (metis generationStamps_generation)
          then have "bytes d1 = bytes d" "bytes d3 = bytes d"
            using unchanged(2) [OF ev(1) _ Suc.prems(1), of d3] evolves_trans [OF ev(2,3)]
              unchanged_bytes [OF ev3 Suc.prems(1)] by simp_all
          then have "diskContents c d3 = Inr k" using readSessionFile_Inr [OF rd [unfolded k]] by simp
          moreover have "r = Inr (k, generation d3)" "d' = d3" using step before k after True g by simp_all
          ultimately show ?thesis using ev3 by simp
        next
          case False
          then have "readAttempts c a repair (Suc i) n d3 = (r, d')" using step before k after by simp
          from Suc.IH [OF ok1(3) this] ev3 show ?thesis using evolves_trans by blast
        qed
      qed (use step before k ev3 in simp)
    qed (use step before ev3 in simp)
  qed (use step in simp)
qed

lemma readVerified_sound:
  assumes "honest a" and "disk_ok d" and "readVerifiedSessionFile c a repair d = (r, d')"
  shows "evolves d d'" "r = Inr (k, g) \<Longrightarrow> g = generation d' \<and> diskContents c d' = Inr k"
  using readAttempts_sound [OF assms(1,2) assms(3) [unfolded readVerifiedSessionFile_def]] by blast+

section \<open>Writing\<close>

lemma newFile_simps [simp]:
  "fl_stamp (newFile data d) = dk_next d" "fl_data (newFile data d) = data" "fl_regular (newFile data d)"
  "fl_mode (newFile data d) = ownerOnly"
  by (simp_all add: newFile_def)

text \<open>The bytes that a write of the contents is to leave on the disk.\<close>

definition encodes :: "stateCodec \<Rightarrow> contents \<Rightarrow> string \<Rightarrow> string \<Rightarrow> bool" where
  "encodes c k data activity \<longleftrightarrow>
     cd_marshal c (stateDocument k) = Some data \<and>
     cd_putActivity c (activityOf (cd_columns c) (ct_telegramUI k)) = Some activity \<and> len activity \<le> maxSize"

lemma activity_Save_cases:
  assumes "activity_Save c a ui d = (r, d')"
  obtains
    (failed) "\<exists>e. r = Inl e" "dk_state d' = dk_state d" "dk_activity d' = dk_activity d" "dk_next d \<le> dk_next d'"
  | (kept) activity f where "r = Inr ()" "d' = d" "dk_activity d = Some f" "fl_data f = activity"
      "cd_putActivity c (activityOf (cd_columns c) ui) = Some activity" "len activity \<le> maxSize"
  | (written) activity where "d' = d\<lparr>dk_next := Suc (dk_next d), dk_activity := Some (newFile activity d)\<rparr>"
      "cd_putActivity c (activityOf (cd_columns c) ui) = Some activity" "len activity \<le> maxSize"
  using assms
  by (auto simp: activity_Save_def Let_def not_less attempt_def failIf_def split: option.splits if_splits)

lemma activity_Save_evolves:
  assumes "activity_Save c a ui d = (r, d')"
  shows "evolves d d'" "dk_state d' = dk_state d"
  using assms
  by (cases rule: activity_Save_cases; force simp: evolves_def path_evolves_refl path_evolves_def)+

lemma activity_Save_bytes:
  assumes "activity_Save c a ui d = (Inr (), d')"
  obtains f where "dk_activity d' = Some f" "cd_putActivity c (activityOf (cd_columns c) ui) = Some (fl_data f)"
    "len (fl_data f) \<le> maxSize"
  using assms
proof (cases rule: activity_Save_cases)
  case (written activity)
  then show thesis by (intro that [of "newFile activity d"]) simp_all
qed auto

text \<open>
  A write fails before it has replaced the document, or it has replaced it, and then it may still fail or be
  followed by other writers.
\<close>

lemma writeSessionFile_cases:
  assumes "writeSessionFile c a (ct_byIntent k) (ct_checkpoint k) (ct_telegramUI k) d = (r, d')"
  obtains
    (failed) e where "r = Inl e" "dk_state d' = dk_state d" "evolves d d'"
  | (replaced) data f d1 where "encodes c k data (fl_data f)" "evolves d d1"
      "dk_state d1 = Some (newFile data d)" "dk_activity d1 = Some f"
      "d' = d1 \<and> (\<exists>e. r = Inl e) \<or>
       d' = ac_other a 0 d1 \<and> (\<forall>g. r = Inr g \<longrightarrow> g = generation d' \<and> generation d' = generation d1)"
proof (cases "cd_marshal c (stateDocument k)")
  case None
  with assms have "r = Inl ''encode session store''" "d' = d" by (auto simp: writeSessionFile_def)
  then show thesis using failed by simp
next
  case data: (Some data)
  let ?temps = "[CreateTemp, ChmodTemp, WriteTemp, SyncTemp, StatTemp, CloseTemp]"
  show thesis
  proof (cases "list_ex (ac_fails a) ?temps")
    case True
    with data assms have "\<exists>e. r = Inl e" "d' = d"
      by (auto simp: writeSessionFile_def attempt_def)
    then show thesis using failed by auto
  next
    case temps: False
    obtain saved d2 where sv: "activity_Save c a (ct_telegramUI k) (d\<lparr>dk_next := Suc (dk_next d)\<rparr>) = (saved, d2)"
      by fastforce
    note ev2 = evolves_trans [OF evolves_next activity_Save_evolves(1) [OF sv]]
    have st2: "dk_state d2 = dk_state d" using activity_Save_evolves(2) [OF sv] by simp
    show thesis
    proof (cases "(\<exists>e. saved = Inl e) \<or> ac_fails a LstatWritten \<or> ac_fails a RenameState")
      case True
      then have "(\<exists>e. r = Inl e) \<and> d' = d2"
        using data temps assms sv
        by (cases saved; cases "ac_fails a LstatWritten")
           (auto simp: writeSessionFile_def attempt_def inspectPathGeneration_def Let_def)
      with st2 ev2 show thesis using failed by auto
    next
      case False
      then have saved: "saved = Inr ()" by (cases saved) auto
      with sv obtain f where f: "dk_activity d2 = Some f" "encodes c k data (fl_data f)"
        using data by (auto simp: encodes_def elim: activity_Save_bytes)
      define d3 where "d3 = d2\<lparr>dk_state := Some (newFile data d)\<rparr>"
      have "dk_next d < dk_next d2"
        using activity_Save_evolves(1) [OF sv] by (auto simp: evolves_def)
      with ev2 have ev3: "evolves d d3"
        by (auto simp: d3_def evolves_def) (simp add: path_evolves_def)
      have single: "list_ex (ac_fails a) [x] = ac_fails a x" for x by simp
      have r: "(r, d') = (if list_ex (ac_fails a) [OpenDir, SyncDir, CloseDir] then (Inl ''sync session store directory'', d3)
         else (bindE (inspectStoreGeneration a VerifyState VerifyActivity (ac_other a 0 d3)) (\<lambda>current.
           bindE (failIf (\<not> samePathGeneration (Some (generationOf (newFile data d))) (fst current) \<or>
                         \<not> samePathGeneration (Some (generationOf f)) (snd current))
             ''session store changed before write verification completed'') (\<lambda>_. Inr current)), ac_other a 0 d3))"
        using assms data temps sv saved False f
        by (cases "list_ex (ac_fails a) [OpenDir, SyncDir, CloseDir]")
           (auto simp: writeSessionFile_def attempt_def inspectPathGeneration_def d3_def Let_def single
             simp del: list_ex_Cons_iff)
      have "generation d3 = (Some (generationOf (newFile data d)), Some (generationOf f))"
        by (simp add: generation_def d3_def f)
      with r have "d' = d3 \<and> (\<exists>e. r = Inl e) \<or>
        d' = ac_other a 0 d3 \<and> (\<forall>g. r = Inr g \<longrightarrow> g = generation d' \<and> generation d' = generation d3)"
        by (auto simp: result_simps inspectStoreGeneration_Inr prod_eq_iff split: if_splits)
      with ev3 f show thesis by (intro replaced [of data f d3]) (simp_all add: d3_def)
    qed
  qed
qed

end
