(* ===== verification/Store_Transactions.thy ===== *)
theory Store_Transactions
  imports Session_Store State_Evolution
begin

text \<open>
  The course that all operations of the session store share. \<open>coherent\<close> ties the cache of a store to the
  disk: whenever the files are the ones the store has seen, the cache is what they hold. The lemmas follow
  a reload, a write and a whole transaction through it.
\<close>

section \<open>Coherence\<close>

definition stamps_fresh :: "nat \<Rightarrow> nat option \<times> nat option \<Rightarrow> bool" where
  "stamps_fresh n x \<longleftrightarrow> (\<forall>i. fst x = Some i \<longrightarrow> i < n) \<and> (\<forall>i. snd x = Some i \<longrightarrow> i < n)"

definition coherent :: "stateCodec \<Rightarrow> SessionStore \<Rightarrow> disk \<Rightarrow> bool" where
  "coherent c st d \<longleftrightarrow>
     disk_ok d \<and> stamps_fresh (dk_next d) (generationStamps (st_generation st)) \<and>
     (generationStamps (st_generation st) = stamps d \<longrightarrow> diskContents c d = Inr (st_contents st))"

definition storable :: "stateCodec \<Rightarrow> contents \<Rightarrow> bool" where
  "storable c k \<longleftrightarrow>
     contents_ok k \<and> representable (jsonFile (cd_time c) (stateDocument k)) \<and>
     canonical (cd_lower c) (jsonFile (cd_time c) (stateDocument k))"

lemma path_old:
  assumes "path_evolves n n' x y" and "\<forall>i. map_option fl_stamp y = Some i \<longrightarrow> i < n"
  shows "map_option fl_stamp x = map_option fl_stamp y" "map_option fl_data x = map_option fl_data y"
  using assms by (cases y; force simp: path_evolves_def)+

lemma evolves_old:
  assumes "evolves d d'" and "stamps_fresh (dk_next d) (stamps d')"
  shows "stamps d' = stamps d" "bytes d' = bytes d"
  using assms path_old [of "dk_next d" "dk_next d'" "dk_state d" "dk_state d'"]
    path_old [of "dk_next d" "dk_next d'" "dk_activity d" "dk_activity d'"]
  by (simp_all add: evolves_def stamps_fresh_def stamps_def bytes_def)

lemma coherent_evolves:
  assumes "coherent c st d" and "evolves d d'"
  shows "coherent c st d'"
proof -
  have "stamps_fresh (dk_next d') (generationStamps (st_generation st))"
    using assms by (auto simp: coherent_def evolves_def stamps_fresh_def)
  moreover have "diskContents c d' = Inr (st_contents st)" if "generationStamps (st_generation st) = stamps d'"
    using assms that evolves_old [OF assms(2)] by (auto simp: coherent_def)
  ultimately show ?thesis
    using assms evolves_ok by (auto simp: coherent_def)
qed

lemma stamps_fresh_disk: "disk_ok d \<Longrightarrow> stamps_fresh (dk_next d) (stamps d)"
  by (auto simp: disk_ok_def path_fresh_def stamps_fresh_def stamps_def)

lemma coherentI:
  assumes "disk_ok d" and "st_generation st = generation d" and "diskContents c d = Inr (st_contents st)"
  shows "coherent c st d"
  using assms stamps_fresh_disk by (simp add: coherent_def)

lemma contentsOf_encodes:
  "faithful c \<Longrightarrow> storable c k \<Longrightarrow> encodes c k data activity \<Longrightarrow> contentsOf c (Some data, Some activity) = Inr k"
  by (simp add: contentsOf_def storable_def encodes_def decode_written)

section \<open>Reload and write\<close>

lemma reload_sound:
  assumes "honest a" and co: "coherent c st d" and r: "reload c a (st, d) = (r, st', d')"
  shows "evolves d d'" "coherent c st' d'" "st_deletedEmpty st' = st_deletedEmpty st"
    "r = Inr () \<Longrightarrow> st_generation st' = generation d' \<and> diskContents c d' = Inr (st_contents st')"
proof -
  have ok: "disk_ok d" using co by (simp add: coherent_def)
  have "evolves d d' \<and> coherent c st' d' \<and> st_deletedEmpty st' = st_deletedEmpty st \<and>
    (r = Inr () \<longrightarrow> st_generation st' = generation d' \<and> diskContents c d' = Inr (st_contents st'))"
  proof (cases "inspectStoreGeneration a ReloadState ReloadActivity d")
    case (Inl e)
    with r co show ?thesis by (auto simp: reload_def)
  next
    case (Inr current)
    then have current: "current = generation d" by (simp add: inspectStoreGeneration_Inr)
    show ?thesis
    proof (cases "st_generation st = current")
      case True
      with r Inr current co show ?thesis by (auto simp: reload_def coherent_def)
    next
      case False
      obtain v d1 where v: "readVerifiedSessionFile c a True d = (v, d1)" by fastforce
      note sound = readVerified_sound [OF assms(1) ok v]
      let ?st = "st\<lparr>st_fullReloads := st_fullReloads st + 1\<rparr>"
      have co1: "coherent c ?st d1"
        using coherent_evolves [OF _ sound(1), of c ?st] co by (simp add: coherent_def)
      show ?thesis
      proof (cases v)
        case (Inl e)
        with r Inr current False v co1 sound(1) show ?thesis by (auto simp: reload_def)
      next
        case kg: (Inr kg)
        obtain k g where kg': "kg = (k, g)" by (rule prod.exhaust)
        then have "g = generation d1" "diskContents c d1 = Inr k" using sound(2) kg by blast+
        with r Inr current False v kg kg' sound(1) evolves_ok [OF ok sound(1)] show ?thesis
          by (auto simp: reload_def intro!: coherentI)
      qed
    qed
  qed
  then show "evolves d d'" "coherent c st' d'" "st_deletedEmpty st' = st_deletedEmpty st"
    "r = Inr () \<Longrightarrow> st_generation st' = generation d' \<and> diskContents c d' = Inr (st_contents st')" by simp_all
qed

lemma readSessionFile_quiet:
  "quiet a \<Longrightarrow> readAttempts c a repair i n d = (r, d') \<Longrightarrow> bytes d' = bytes d"
proof (induction n arbitrary: i d)
  case (Suc n)
  obtain r1 d2 where rd: "readSessionFile c a repair d = (r1, d2)" by fastforce
  then have "bytes d2 = bytes d" using readSessionFile_evolves by blast
  with Suc rd show ?case
    by (cases "inspectStoreGeneration a BeforeState BeforeActivity d"; cases r1;
        cases "inspectStoreGeneration a AfterState AfterActivity d2")
       (auto split: if_splits)
qed simp

lemma reload_quiet: "quiet a \<Longrightarrow> reload c a (st, d) = (r, st', d') \<Longrightarrow> bytes d' = bytes d"
  by (auto simp: reload_def readVerifiedSessionFile_def Let_def split: sum.splits prod.splits if_splits
      dest: readSessionFile_quiet)

lemma persist_sound:
  assumes "faithful c" and "honest a" and co: "coherent c st d" and k: "storable c k"
    and r: "store_persist c a k (st, d) = (r, st', d')"
  shows "evolves d d'" "coherent c st d'"
    "r = Inr () \<Longrightarrow> st_generation st' = generation d' \<and> diskContents c d' = Inr k"
    "\<exists>e. r = Inl e \<Longrightarrow> st' = st" "st_deletedEmpty st' = st_deletedEmpty st"
    "\<exists>e. r = Inl e \<Longrightarrow> quiet a \<Longrightarrow> fst (bytes d') = fst (bytes d) \<or> diskContents c d' = Inr k"
proof -
  obtain w where w: "writeSessionFile c a (ct_byIntent k) (ct_checkpoint k) (ct_telegramUI k) d = (w, d')"
    using r by (auto simp: store_persist_def split: prod.splits sum.splits)
  with r have r': "r = (case w of Inl e \<Rightarrow> Inl (Failure e) | Inr _ \<Rightarrow> Inr ())"
    "st' = (case w of Inl _ \<Rightarrow> st | Inr g \<Rightarrow> st\<lparr>st_generation := g\<rparr>)"
    by (auto simp: store_persist_def split: sum.splits)
  have ok: "disk_ok d" using co by (simp add: coherent_def)
  have "evolves d d' \<and> (\<forall>g. w = Inr g \<longrightarrow> g = generation d' \<and> diskContents c d' = Inr k) \<and>
    (quiet a \<longrightarrow> fst (bytes d') = fst (bytes d) \<or> diskContents c d' = Inr k)"
    using w
  proof (cases rule: writeSessionFile_cases)
    case (failed e)
    then show ?thesis by (simp add: bytes_def)
  next
    case (replaced data f d1)
    then have "bytes d1 = (Some data, Some (fl_data f))" by (simp add: bytes_def)
    then have d1: "diskContents c d1 = Inr k" using contentsOf_encodes [OF assms(1) k replaced(1)] by simp
    have "evolves d1 (ac_other a 0 d1)" using assms(2) by (simp add: honest_def)
    then have ev: "evolves d d'" "evolves d1 d'" using replaced(2,5) evolves_trans by auto
    have "bytes d' = bytes d1" if "generation d' = generation d1"
      using that unchanged_bytes [OF ev(2) evolves_ok [OF ok replaced(2)]]
      by (metis generationStamps_generation)
    with replaced(5) ev d1 show ?thesis by auto
  qed
  with r' coherent_evolves [OF co] show "evolves d d'" "coherent c st d'"
    "r = Inr () \<Longrightarrow> st_generation st' = generation d' \<and> diskContents c d' = Inr k"
    "\<exists>e. r = Inl e \<Longrightarrow> st' = st" "st_deletedEmpty st' = st_deletedEmpty st"
    "\<exists>e. r = Inl e \<Longrightarrow> quiet a \<Longrightarrow> fst (bytes d') = fst (bytes d) \<or> diskContents c d' = Inr k"
    by (auto split: sum.splits)
qed

section \<open>Transactions\<close>

lemma afterFailure_sound:
  assumes "quiet (cl_access cl 2)" and "coherent c st d" and "afterFailure c cl policy e (st, d) = (r, st', d')"
  shows "evolves d d' \<and> coherent c st' d' \<and> st_deletedEmpty st' = st_deletedEmpty st \<and> bytes d' = bytes d \<and> (\<exists>e. r = Inl e)"
proof (cases "policy = KeepCache")
  case True
  with assms show ?thesis by (auto simp: afterFailure_def)
next
  case False
  obtain r1 st1 d1 where rl: "reload c (cl_access cl 2) (st, d) = (r1, st1, d1)" by (rule prod_cases3)
  note reload_sound [OF quiet_honest [OF assms(1)] assms(2) rl] reload_quiet [OF assms(1) rl]
  moreover have "\<exists>e. r = Inl e" "st' = st1" "d' = d1"
    using assms(3) False rl by (cases policy; cases r1; auto simp: afterFailure_def)+
  ultimately show ?thesis by simp
qed

text \<open>The outcome of a call that has found \<open>k0\<close> on the disk and may replace it by \<open>next\<close>.\<close>

definition outcome ::
  "stateCodec \<Rightarrow> disk \<Rightarrow> disk \<Rightarrow> SessionStore \<Rightarrow> (contents \<Rightarrow> store_error + 'a \<times> contents option) \<Rightarrow> store_error + 'a \<Rightarrow> bool" where
  "outcome c d d' st' f r \<longleftrightarrow>
     (case r of
        Inr x \<Rightarrow>
          (\<exists>k0 next. diskContents c d = Inr k0 \<and> f k0 = Inr (x, next) \<and>
             st_contents st' = (case next of None \<Rightarrow> k0 | Some k \<Rightarrow> k) \<and> diskContents c d' = Inr (st_contents st'))
      | Inl e \<Rightarrow>
          fst (bytes d') = fst (bytes d) \<or>
          (\<exists>k0 x k. diskContents c d = Inr k0 \<and> f k0 = Inr (x, Some k) \<and> diskContents c d' = Inr k))"

lemma commit_sound:
  assumes "faithful c" and q: "\<And>n. quiet (cl_access cl n)" and co: "coherent c st d" and k: "storable c k"
    and r: "commit c cl policy k (st, d) = (r, st', d')"
  shows "evolves d d' \<and> coherent c st' d' \<and> st_deletedEmpty st' = st_deletedEmpty st \<and>
    (case r of Inr _ \<Rightarrow> st_contents st' = k \<and> diskContents c d' = Inr k
     | Inl _ \<Rightarrow> fst (bytes d') = fst (bytes d) \<or> diskContents c d' = Inr k)"
proof -
  obtain r1 st1 d1 where p: "store_persist c (cl_access cl 1) k (st, d) = (r1, st1, d1)" by (rule prod_cases3)
  note ps = persist_sound [OF assms(1) quiet_honest [OF q] co k p]
  show ?thesis
  proof (cases r1)
    case (Inl e)
    then have "afterFailure c cl policy e (st, d1) = (r, st', d')"
      using r p ps(4) by (simp add: commit_def)
    from afterFailure_sound [OF q ps(2) this] ps(1,6) q Inl show ?thesis
      by (auto intro: evolves_trans)
  next
    case (Inr u)
    then have "r = Inr ()" "st' = st1\<lparr>st_contents := k\<rparr>" "d' = d1" using r p by (auto simp: commit_def)
    moreover have "disk_ok d1" using ps(2) by (simp add: coherent_def)
    ultimately show ?thesis using ps(1,3,5) Inr by (auto intro!: coherentI)
  qed
qed

lemma transact_sound:
  fixes f :: "(SessionID, Session) fmap \<Rightarrow> contents \<Rightarrow> store_error + 'a \<times> contents option"
  assumes "faithful c" and q: "\<And>n. quiet (cl_access cl n)" and co: "coherent c st d"
    and k: "\<And>k0 x k. diskContents c d = Inr k0 \<Longrightarrow> f (st_deletedEmpty st) k0 = Inr (x, Some k) \<Longrightarrow> storable c k"
    and r: "transact c cl policy (\<lambda>st. f (st_deletedEmpty st) (st_contents st)) (st, d) = (r, st', d')"
  shows "evolves d d' \<and> coherent c st' d' \<and> st_deletedEmpty st' = st_deletedEmpty st \<and>
    outcome c d d' st' (f (st_deletedEmpty st)) r"
proof -
  obtain r1 st1 d1 where rl: "reload c (cl_access cl 0) (st, d) = (r1, st1, d1)" by (rule prod_cases3)
  note rs = reload_sound [OF quiet_honest [OF q] co rl] reload_quiet [OF q rl]
  show ?thesis
  proof (cases r1)
    case (Inl e)
    then have "r = Inl e" "st' = st1" "d' = d1" using r rl by (auto simp: transact_def bindS_def)
    with rs show ?thesis by (auto simp: outcome_def)
  next
    case (Inr u)
    then have k0: "diskContents c d = Inr (st_contents st1)" using rs by simp
    show ?thesis
    proof (cases "f (st_deletedEmpty st) (st_contents st1)")
      case (Inl e)
      then have "r = Inl e" "st' = st1" "d' = d1"
        using r rl Inr rs(3) by (auto simp: transact_def bindS_def readS_def liftS_def)
      with rs show ?thesis by (auto simp: outcome_def)
    next
      case xn: (Inr xn)
      obtain x nxt where xn': "xn = (x, nxt)" by (rule prod.exhaust)
      show ?thesis
      proof (cases nxt)
        case None
        then have "r = Inr x" "st' = st1" "d' = d1"
          using r rl Inr rs(3) xn xn' by (auto simp: transact_def bindS_def readS_def liftS_def)
        with rs None xn xn' k0 show ?thesis by (auto simp: outcome_def)
      next
        case (Some k')
        obtain r2 st2 d2 where cm: "commit c cl policy k' (st1, d1) = (r2, st2, d2)" by (rule prod_cases3)
        have "storable c k'" using k [OF k0] xn xn' Some by blast
        note cs = commit_sound [OF assms(1) q rs(2) this cm]
        have "st' = st2" "d' = d2" "r = (case r2 of Inl e \<Rightarrow> Inl e | Inr _ \<Rightarrow> Inr x)"
          using r rl Inr rs(3) xn xn' Some cm
          by (cases r2; auto simp: transact_def bindS_def readS_def liftS_def)+
        with cs rs xn xn' Some k0 show ?thesis
          by (cases r2) (auto simp: outcome_def intro: evolves_trans)
      qed
    qed
  qed
qed

end
