(* ===== verification/Store_Machine.thy ===== *)
theory Store_Machine
  imports Store_Transactions
begin

text \<open>
  Mutating operations of the session store that share one course, with their specifications: \<open>effect\<close> is
  the change of the durable contents, \<open>perform\<close> the operation of the store. The lemmas lift the facts on
  transactions to every operation and to runs of several stores over one disk.
\<close>

section \<open>Operations\<close>

datatype store_op =
    PutOp Session
  | RenameOp SessionID string SessionNameSource
  | SwapOp Session Session
  | ReplaceOp Session Session
  | PreferOp SessionID string string
  | UpdateOp "contents \<Rightarrow> State \<Rightarrow> store_error + State"
  | DeleteOp Session

definition void :: "'a op \<Rightarrow> unit op" where
  "void m = bindS m (\<lambda>_. liftS (Inr ()))"

fun perform :: "stateCodec \<Rightarrow> call \<Rightarrow> store_op \<Rightarrow> unit op" where
  "perform c cl (PutOp session) = void (PutStartingIfAbsent c cl session)"
| "perform c cl (RenameOp ident name source) = void (RenameSession c cl ident name source)"
| "perform c cl (SwapOp expected next) = CompareAndSwap c cl expected next"
| "perform c cl (ReplaceOp expected next) = Replace c cl expected next"
| "perform c cl (PreferOp ident model effort) = SetModelPreferences c cl ident model effort"
| "perform c cl (UpdateOp fn) = UpdateTelegramUI c cl fn"
| "perform c cl (DeleteOp expected) = void (deleteProven c cl expected True)"

section \<open>Specification\<close>

fun precheck :: "store_op \<Rightarrow> store_error + unit" where
  "precheck (PutOp session) =
     bindE (orFail (validateSessionValue session)) (\<lambda>_.
     failIf (s_status session \<noteq> SessionStarting) (ErrInvariantConflict ''insert status''))"
| "precheck (SwapOp expected next) =
     bindE (orFail (validateSessionValue expected)) (\<lambda>_.
     bindE (orFail (validateSessionValue next)) (\<lambda>_.
     bindE (failIf (\<not> sameIdentity expected next)
              (ErrInvariantConflict ''compare-and-swap changes immutable session identity'')) (\<lambda>_.
     failIf (s_status expected \<noteq> SessionStarting \<or>
             (s_status next \<noteq> SessionReady \<and> s_status next \<noteq> SessionAwaitingRecovery))
       (ErrInvariantConflict ''unsupported transition''))))"
| "precheck (ReplaceOp expected next) =
     bindE (orFail (validateSessionValue expected)) (\<lambda>_.
     bindE (orFail (validateSessionValue next)) (\<lambda>_.
     failIf (\<not> sameIdentity expected next)
       (ErrInvariantConflict ''replace changes immutable session identity'')))"
| "precheck _ = Inr ()"

definition dropResult :: "store_error + 'a \<times> contents option \<Rightarrow> store_error + unit \<times> contents option" where
  "dropResult r = bindE r (\<lambda>(_, next). Inr ((), next))"

fun body ::
  "stateCodec \<Rightarrow> store_op \<Rightarrow> (SessionID, Session) fmap \<Rightarrow> contents \<Rightarrow> store_error + unit \<times> contents option" where
  "body c (PutOp session) deleted k = dropResult (insertStarting c session k)"
| "body c (RenameOp ident name source) deleted k = dropResult (renameTo c ident name source k)"
| "body c (SwapOp expected next) deleted k = swapSession expected next k"
| "body c (ReplaceOp expected next) deleted k = replaceSession expected next k"
| "body c (PreferOp ident model effort) deleted k = preferModel ident model effort k"
| "body c (UpdateOp fn) deleted k = updateUI fn k"
| "body c (DeleteOp expected) deleted k =
     dropResult (deleteBody expected True deleted k)"

definition effect ::
  "stateCodec \<Rightarrow> store_op \<Rightarrow> (SessionID, Session) fmap \<Rightarrow> contents \<Rightarrow> store_error + unit \<times> contents option" where
  "effect c op deleted k = bindE (precheck op) (\<lambda>_. body c op deleted k)"

fun policyOf :: "store_op \<Rightarrow> policy" where
  "policyOf (PutOp _) = ReloadJoin"
| "policyOf (SwapOp _ _) = ReloadJoin"
| "policyOf (RenameOp _ _ _) = ReloadQuietly"
| "policyOf (PreferOp _ _ _) = ReloadQuietly"
| "policyOf _ = KeepCache"

section \<open>Every operation is a transaction\<close>

lemma void_transact: "void (transact c cl p fn) = transact c cl p (\<lambda>st. dropResult (fn st))"
proof
  fix s :: "SessionStore \<times> disk"
  obtain r st d where rl: "reload c (cl_access cl 0) s = (r, st, d)" by (rule prod_cases3)
  show "void (transact c cl p fn) s = transact c cl p (\<lambda>st. dropResult (fn st)) s"
  proof (cases r)
    case (Inr u)
    show ?thesis
    proof (cases "fn st")
      case (Inr xn)
      obtain x nxt where xn: "xn = (x, nxt)" by (rule prod.exhaust)
      show ?thesis
      proof (cases nxt)
        case (Some k)
        obtain r2 s2 where "commit c cl p k (st, d) = (r2, s2)" by (rule prod.exhaust)
        with rl \<open>r = Inr u\<close> Inr xn Some show ?thesis
          by (cases r2) (simp_all add: void_def transact_def bindS_def readS_def liftS_def dropResult_def)
      qed (use rl \<open>r = Inr u\<close> Inr xn in \<open>simp add: void_def transact_def bindS_def readS_def liftS_def dropResult_def\<close>)
    qed (use rl Inr in \<open>simp add: void_def transact_def bindS_def readS_def liftS_def dropResult_def\<close>)
  qed (use rl in \<open>simp add: void_def transact_def bindS_def\<close>)
qed

lemma void_bindS: "void (bindS m f) = bindS m (\<lambda>x. void (f x))"
  by (rule ext) (simp add: void_def bindS_def split: sum.split prod.split)

lemma guarded_cases:
  assumes "bindS (liftS pre) (\<lambda>_. m) s = (r, s')"
  obtains e where "pre = Inl e" "r = Inl e" "s' = s" | "pre = Inr ()" "m s = (r, s')"
  using assms by (cases pre) (auto simp: bindS_def liftS_def)

definition sameCache :: "SessionStore \<Rightarrow> SessionStore \<Rightarrow> bool" where
  "sameCache st st' \<longleftrightarrow> st_contents st = st_contents st' \<and> st_generation st = st_generation st'"

lemma deleteProven_transact:
  assumes "void (deleteProven c cl expected True) (st, d) = (r, st', d')"
  shows "(\<exists>e. ctxErr cl 1 = Inl e \<and> r = Inl e \<and> st' = st \<and> d' = d) \<or>
    (ctxErr cl 1 = Inr () \<and> (\<exists>st1. transact c cl KeepCache (\<lambda>st. body c (DeleteOp expected) (st_deletedEmpty st) (st_contents st)) (st, d) =
       (r, st1, d') \<and> sameCache st1 st'))"
proof -
  define fn where "fn = (\<lambda>st :: SessionStore. bindE (deleteBody expected True (st_deletedEmpty st) (st_contents st)) (\<lambda>(x, nxt). Inr ((x, nxt \<noteq> None), nxt)))"
  obtain t st1 d1 where t: "transact c cl KeepCache fn (st, d) = (t, st1, d1)" by (rule prod_cases3)
  have drop: "dropResult (fn st) = body c (DeleteOp expected) (st_deletedEmpty st) (st_contents st)" for st :: SessionStore
    by (auto simp: fn_def dropResult_def bindE_def split: sum.split)
  have "void (transact c cl KeepCache fn) (st, d) = (bindE t (\<lambda>_. Inr ()), st1, d1)"
    by (cases t) (simp_all add: void_def bindS_def liftS_def t)
  then have body: "transact c cl KeepCache (\<lambda>st. body c (DeleteOp expected) (st_deletedEmpty st) (st_contents st)) (st, d) =
    (bindE t (\<lambda>_. Inr ()), st1, d1)"
    by (simp add: void_transact drop)
  show ?thesis
  proof (cases "ctxErr cl 1")
    case (Inl e)
    with assms have "r = Inl e \<and> st' = st \<and> d' = d" by (auto simp: deleteProven_def void_def bindS_def liftS_def)
    with Inl show ?thesis by blast
  next
    case (Inr u)
    with assms t have "r = bindE t (\<lambda>_. Inr ())" "d' = d1" "sameCache st1 st'"
      unfolding deleteProven_def fn_def [symmetric]
      by (cases t; auto simp: void_def bindS_def liftS_def sameCache_def split: prod.splits)+
    with body Inr show ?thesis by auto
  qed
qed

lemma ctxErr_refused: "ctxErr cl n = Inl e \<Longrightarrow> \<exists>n. ctxErr cl n \<noteq> Inr ()"
  by (rule exI [of _ n]) simp

lemma perform_cases:
  assumes "perform c cl op (st, d) = (r, st', d')"
  obtains
    (refused) e where "r = Inl e" "st' = st" "d' = d" "precheck op = Inr () \<Longrightarrow> \<exists>n. ctxErr cl n \<noteq> Inr ()"
  | (transacted) st1 where "precheck op = Inr ()" "sameCache st1 st'"
      "transact c cl (policyOf op) (\<lambda>st. body c op (st_deletedEmpty st) (st_contents st)) (st, d) = (r, st1, d')"
proof -
  note ops = PutStartingIfAbsent_def RenameSession_def CompareAndSwap_def Replace_def SetModelPreferences_def
    UpdateTelegramUI_def void_bindS void_transact
  have "(\<exists>e. r = Inl e \<and> st' = st \<and> d' = d \<and> (precheck op = Inr () \<longrightarrow> (\<exists>n. ctxErr cl n \<noteq> Inr ()))) \<or>
    (precheck op = Inr () \<and> (\<exists>st1. sameCache st1 st' \<and>
      transact c cl (policyOf op) (\<lambda>st. body c op (st_deletedEmpty st) (st_contents st)) (st, d) = (r, st1, d')))"
  proof (cases op)
    case (DeleteOp expected)
    with assms deleteProven_transact [of c cl expected st d r st' d'] show ?thesis by (auto intro: ctxErr_refused)
  qed (use assms in \<open>auto simp: ops result_simps sameCache_def elim!: guarded_cases intro: ctxErr_refused\<close>)
  with refused transacted show thesis by blast
qed

lemma coherent_sameCache: "sameCache st st' \<Longrightarrow> coherent c st d \<Longrightarrow> coherent c st' d"
  by (simp add: sameCache_def coherent_def)

lemma outcome_sameCache: "sameCache st st' \<Longrightarrow> outcome c d d' st f r \<Longrightarrow> outcome c d d' st' f r"
  by (cases r) (simp_all add: sameCache_def outcome_def)

lemma perform_sound:
  assumes "faithful c" and q: "\<And>n. quiet (cl_access cl n)" and co: "coherent c st d"
    and k: "\<And>k0 k. diskContents c d = Inr k0 \<Longrightarrow> effect c op (st_deletedEmpty st) k0 = Inr ((), Some k) \<Longrightarrow> storable c k"
    and r: "perform c cl op (st, d) = (r, st', d')"
  shows "evolves d d' \<and> coherent c st' d' \<and> outcome c d d' st' (effect c op (st_deletedEmpty st)) r"
  using r
proof (cases rule: perform_cases)
  case (refused e)
  with co show ?thesis by (auto simp: outcome_def)
next
  case (transacted st1)
  then have eff: "effect c op (st_deletedEmpty st) = body c op (st_deletedEmpty st)" by (simp add: effect_def fun_eq_iff)
  from transacted(3) have "evolves d d' \<and> coherent c st1 d' \<and> st_deletedEmpty st1 = st_deletedEmpty st \<and>
    outcome c d d' st1 (body c op (st_deletedEmpty st)) r"
    by (intro transact_sound [OF assms(1) q co]) (use k eff in auto)
  with transacted(2) eff show ?thesis using coherent_sameCache outcome_sameCache by metis
qed

section \<open>Calls without failures complete\<close>

definition working :: "access \<Rightarrow> bool" where
  "working a \<longleftrightarrow> quiet a \<and> (\<forall>f. \<not> ac_fails a f)"

definition healthy :: "call \<Rightarrow> bool" where
  "healthy cl \<longleftrightarrow> (\<forall>n. working (cl_access cl n) \<and> cl_ctx cl n = None)"

definition regular :: "disk \<Rightarrow> bool" where
  "regular d \<longleftrightarrow> (\<forall>f. dk_state d = Some f \<longrightarrow> fl_regular f)"

lemma workingD: "working a \<Longrightarrow> quiet a" "working a \<Longrightarrow> \<not> ac_fails a f"
  by (simp_all add: working_def)

lemma healthyD: "healthy cl \<Longrightarrow> working (cl_access cl n)" "healthy cl \<Longrightarrow> ctxErr cl n = Inr ()"
  by (simp_all add: healthy_def ctxErr_def)

lemma working_inspect [simp]: "working a \<Longrightarrow> inspectStoreGeneration a x y d = Inr (generation d)"
  by (simp add: inspectStoreGeneration_Inr workingD)

lemma working_attempt [simp]: "working a \<Longrightarrow> attempt a fs m = Inr ()"
  by (simp add: attempt_def workingD list_ex_iff)

definition repaired :: "disk \<Rightarrow> disk" where
  "repaired d = d\<lparr>dk_state := map_option (\<lambda>f. f\<lparr>fl_mode := ownerOnly\<rparr>) (dk_state d)\<rparr>"

lemma repaired_simps [simp]:
  "bytes (repaired d) = bytes d" "regular (repaired d) = regular d" "repaired (repaired d) = repaired d"
  by (simp_all add: repaired_def bytes_def regular_def option.map_comp comp_def)
     (auto simp: regular_def)

lemma working_read:
  assumes "working a" and "regular d" and "diskContents c d = Inr k"
  shows "readSessionFile c a True d = (Inr k, repaired d)"
  using assms
  by (cases "dk_state d"; cases d)
     (auto simp: readSessionFile_def workingD repaired_def contentsOf_def bytes_def regular_def)

lemma working_readVerified:
  assumes "working a" and "regular d" and "diskContents c d = Inr k"
  shows "readVerifiedSessionFile c a True d = (Inr (k, generation (repaired d)), repaired d)"
proof -
  have step: "readAttempts c a True i (Suc n) e =
    (if generation e = generation (repaired e) then (Inr (k, generation (repaired e)), repaired e)
     else readAttempts c a True (Suc i) n (repaired e))"
    if "regular e" "diskContents c e = Inr k" for i n e
    using assms(1) working_read [OF assms(1) that] by (simp add: workingD)
  have "readAttempts c a True 0 4 d = (Inr (k, generation (repaired d)), repaired d)"
    using step [OF assms(2,3), of 0 3] step [of "repaired d" 1 2] assms(2,3) by (simp add: numeral_eq_Suc)
  then show ?thesis by (simp add: readVerifiedSessionFile_def)
qed

lemma working_reload:
  assumes "working a" and "regular d" and "coherent c st d" and "diskContents c d = Inr k"
  obtains st' d' where "reload c a (st, d) = (Inr (), st', d')" "st_contents st' = k" "regular d'"
proof (cases "st_generation st = generation d")
  case True
  with assms that show thesis by (auto simp: reload_def coherent_def)
next
  case False
  with assms that working_readVerified [OF assms(1,2,4)] show thesis by (auto simp: reload_def)
qed

lemma working_save:
  assumes "working a" and "cd_putActivity c (activityOf (cd_columns c) ui) = Some activity" and "len activity \<le> maxSize"
  obtains d' where "activity_Save c a ui d = (Inr (), d')"
proof -
  have "\<exists>d'. activity_Save c a ui d = (Inr (), d')"
    using assms by (simp add: activity_Save_def workingD not_less Let_def)
  with that show thesis by blast
qed

lemma working_persist:
  assumes "working a" and enc: "encodes c k data activity"
  obtains st' d' where "store_persist c a k (st, d) = (Inr (), st', d')" "regular d'"
proof -
  obtain d1 where sv: "activity_Save c a (ct_telegramUI k) (d\<lparr>dk_next := Suc (dk_next d)\<rparr>) = (Inr (), d1)"
    using working_save [OF assms(1)] enc unfolding encodes_def by metis
  have "generation (d1\<lparr>dk_state := Some (newFile data d)\<rparr>) =
    (Some (generationOf (newFile data d)), map_option generationOf (dk_activity d1))"
    by (simp add: generation_def)
  with sv assms obtain g where
    "writeSessionFile c a (ct_byIntent k) (ct_checkpoint k) (ct_telegramUI k) d = (Inr g, d1\<lparr>dk_state := Some (newFile data d)\<rparr>)"
    by (auto simp: writeSessionFile_def workingD encodes_def inspectPathGeneration_def Let_def)
  then show thesis using that by (simp add: store_persist_def regular_def)
qed

lemma working_transact:
  assumes cl: "healthy cl" and "regular d" and "coherent c st d" and k0: "diskContents c d = Inr k0"
    and f: "f (st_deletedEmpty st) k0 = Inr (x, next)"
    and enc: "\<And>k. next = Some k \<Longrightarrow> \<exists>data activity. encodes c k data activity"
  shows "\<exists>st' d'. transact c cl policy (\<lambda>st. f (st_deletedEmpty st) (st_contents st)) (st, d) = (Inr x, st', d') \<and> regular d'"
proof -
  obtain st1 d1 where rl: "reload c (cl_access cl 0) (st, d) = (Inr (), st1, d1)" "st_contents st1 = k0" "regular d1"
    using working_reload [OF healthyD(1) [OF cl] assms(2,3) k0] by blast
  have del: "st_deletedEmpty st1 = st_deletedEmpty st"
    using reload_sound(3) [OF quiet_honest [OF workingD(1) [OF healthyD(1) [OF cl]]] assms(3) rl(1)] .
  show ?thesis
  proof (cases "next")
    case None
    with rl f del show ?thesis by (simp add: transact_def bindS_def readS_def liftS_def)
  next
    case (Some k)
    then obtain data activity where "encodes c k data activity" using enc by blast
    from working_persist [OF healthyD(1) [OF cl] this] obtain st2 d2 where
      "store_persist c (cl_access cl 1) k (st1, d1) = (Inr (), st2, d2)" "regular d2" by blast
    with rl f del Some show ?thesis by (simp add: transact_def bindS_def readS_def liftS_def commit_def)
  qed
qed

lemma perform_completes:
  assumes "healthy cl" and "regular d" and "coherent c st d" and "diskContents c d = Inr k0"
    and eff: "effect c op (st_deletedEmpty st) k0 = Inr ((), next)"
    and enc: "\<And>k. next = Some k \<Longrightarrow> \<exists>data activity. encodes c k data activity"
  shows "\<exists>st' d'. perform c cl op (st, d) = (Inr (), st', d') \<and> regular d'"
proof -
  obtain r st' d' where r: "perform c cl op (st, d) = (r, st', d')" by (rule prod_cases3)
  from eff have pre: "precheck op = Inr ()" "body c op (st_deletedEmpty st) k0 = Inr ((), next)"
    by (auto simp: effect_def result_simps)
  from r show ?thesis
  proof (cases rule: perform_cases)
    case (refused e)
    with pre healthyD(2) [OF assms(1)] show ?thesis by auto
  next
    case (transacted st1)
    with working_transact [where f = "body c op" and policy = "policyOf op", OF assms(1-4) pre(2) enc] r
    show ?thesis by auto
  qed
qed

section \<open>Several stores over one disk\<close>

text \<open>
  A disk with the stores that are open on it. A store operates, another one is opened, or a writer outside
  of these stores changes the files.
\<close>

inductive store_step :: "stateCodec \<Rightarrow> SessionStore list \<times> disk \<Rightarrow> SessionStore list \<times> disk \<Rightarrow> bool" for c where
  operate: "i < length sts \<Longrightarrow> (\<And>n. quiet (cl_access cl n)) \<Longrightarrow>
     (\<And>k0 k. diskContents c d = Inr k0 \<Longrightarrow> effect c op (st_deletedEmpty (sts ! i)) k0 = Inr ((), Some k) \<Longrightarrow> storable c k) \<Longrightarrow>
     perform c cl op (sts ! i, d) = (r, st', d') \<Longrightarrow> store_step c (sts, d) (sts[i := st'], d')"
| opened: "honest a \<Longrightarrow> OpenSessionStore c a path d = (Inr st, d') \<Longrightarrow> store_step c (sts, d) (sts @ [st], d')"
| outside: "evolves d d' \<Longrightarrow> store_step c (sts, d) (sts, d')"

definition all_coherent :: "stateCodec \<Rightarrow> SessionStore list \<times> disk \<Rightarrow> bool" where
  "all_coherent c w \<longleftrightarrow> disk_ok (snd w) \<and> (\<forall>st\<in>set (fst w). coherent c st (snd w))"

lemma Open_sound:
  assumes "honest a" and "disk_ok d" and "OpenSessionStore c a path d = (Inr st, d')"
  shows "evolves d d'" "coherent c st d'" "st_generation st = generation d'" "diskContents c d' = Inr (st_contents st)"
proof -
  obtain v d1 where v: "readVerifiedSessionFile c a True d = (v, d1)" by fastforce
  note sound = readVerified_sound [OF assms(1,2) v]
  from assms(3) v obtain kg where kg: "v = Inr kg" by (cases v) (auto simp: OpenSessionStore_def split: if_splits)
  obtain k g where k: "kg = (k, g)" by (rule prod.exhaust)
  with assms(3) v kg have "st_contents st = k" "st_generation st = g" "d' = d1"
    by (auto simp: OpenSessionStore_def split: if_splits)
  with sound(1) sound(2) [of k g] kg k evolves_ok [OF assms(2) sound(1)] show "evolves d d'" "coherent c st d'"
    "st_generation st = generation d'" "diskContents c d' = Inr (st_contents st)"
    by (auto intro!: coherentI)
qed

lemma store_step_coherent:
  assumes "faithful c" and "store_step c w w'" and "all_coherent c w"
  shows "all_coherent c w'"
  using assms(2,3)
proof cases
  case (operate i sts cl d op r st' d')
  then have "coherent c (sts ! i) d" using assms(3) by (simp add: all_coherent_def)
  from perform_sound [OF assms(1) operate(4) this operate(5,6)]
  have p: "evolves d d'" "coherent c st' d'" by simp_all
  with operate assms(3) show ?thesis
    by (auto simp: all_coherent_def dest!: set_update_subset_insert [THEN subsetD] intro: coherent_evolves evolves_ok)
next
  case (opened a path d st d' sts)
  then have "disk_ok d" using assms(3) by (simp add: all_coherent_def)
  from Open_sound [OF opened(3) this opened(4)] this opened assms(3) show ?thesis
    by (auto simp: all_coherent_def intro: coherent_evolves evolves_ok)
next
  case (outside d d' sts)
  with assms(3) show ?thesis by (auto simp: all_coherent_def intro: coherent_evolves evolves_ok)
qed

definition store_event_step :: "stateCodec \<Rightarrow> SessionStore list \<times> disk \<Rightarrow> unit \<Rightarrow> SessionStore list \<times> disk \<Rightarrow> bool" where
  "store_event_step c w u w' \<longleftrightarrow> faithful c \<and> store_step c w w'"

interpretation open_stores: invariant_machine "store_event_step c" "all_coherent c" for c
  by unfold_locales (auto simp: store_event_step_def intro: store_step_coherent)

end
