(* ===== verification/Store_Effects.thy ===== *)
theory Store_Effects
  imports Store_Machine
begin

text \<open>
  What the operations of the session store do to the contents: what a document may hold at all, which
  sessions an operation may touch, what a deletion leaves behind and which labels are given out.
\<close>

section \<open>What a document may hold\<close>

lemma restoreAll_ok:
  "restoreAll rs m b = Inr (m', b') \<Longrightarrow> sessions_ok m b \<Longrightarrow> sessions_ok m' b'"
proof (induction rs m b rule: restoreAll.induct)
  case (2 r rest m b)
  then obtain s where s: "restore r = Inr s" by (auto split: sum.splits)
  then have "restorable s" unfolding restore_def by (rule RestoreSession_restorable)
  with 2 s show ?case by (auto simp: result_simps intro: sessions_ok_insert)
qed auto

lemma card_ok_clone: "card_ok ident c \<Longrightarrow> card_ok ident (cloneCard c)"
  by (simp add: card_ok_def cloneCard_def history_ok_def finals_ok_def column_ok_def PendingFinalsAfter_Nil)

lemma Validate_Clone:
  assumes "Validate s = Inr ()"
  shows "Validate (Clone s) = Inr ()"
proof -
  have "selection_ok (s\<lparr>u_Cards := Some (fmmap cloneCard (cardsOf s))\<rparr>)"
    by (rule selection_ok_mono) (use assms in \<open>auto simp: Validate_iff\<close>)
  with assms show ?thesis
    by (auto simp: Validate_iff Clone_def intro: card_ok_clone)
qed

lemma readUI_ok: "readUI c activity ui = Inr ui' \<Longrightarrow> ui_ok ui'"
  by (auto simp: readUI_def ui_ok_def result_simps Validate_Clone split: option.splits)

definition accepted :: "contents \<Rightarrow> bool" where
  "accepted k \<longleftrightarrow>
     sessions_ok (ct_byIntent k) (ct_byID k) \<and> ui_ok (ct_telegramUI k) \<and>
     (\<forall>r. ct_checkpoint k = Some r \<longrightarrow> (\<exists>stored. storedCheckpointFromRecord r = Inr stored))"

lemma contentsOf_accepted:
  assumes "contentsOf c b = Inr k"
  shows "accepted k"
proof (cases "fst b")
  case None
  with assms show ?thesis
    by (auto simp: contentsOf_def accepted_def emptyContents_def sessions_ok_def ui_ok_def)
next
  case (Some data)
  have empty: "sessions_ok fmempty fmempty" by (simp add: sessions_ok_def)
  from assms Some show ?thesis
    by (auto simp: contentsOf_def decodeContents_def accepted_def result_simps split: option.splits)
       (blast intro: restoreAll_ok [OF _ empty] readUI_ok)+
qed

section \<open>Identities\<close>

text \<open>How an operation may change the sessions.\<close>

definition index_ok :: "contents \<Rightarrow> bool" where
  "index_ok k \<longleftrightarrow>
     (\<forall>i s. fmlookup (ct_byIntent k) i = Some s \<longrightarrow> s_intentID s = i) \<and>
     (\<forall>d i. fmlookup (ct_byID k) d = Some i \<longleftrightarrow> (\<exists>s. fmlookup (ct_byIntent k) i = Some s \<and> s_id s = d))"

definition mayDelete :: "store_op \<Rightarrow> contents \<Rightarrow> Session \<Rightarrow> bool" where
  "mayDelete op k s \<longleftrightarrow>
     (\<exists>expected ui card'. op = DeleteOp expected \<and> Equal s expected \<and> ct_telegramUI k = Some ui \<and>
        fmlookup (cardsOf ui) (s_id s) = Some card' \<and> emptyEligible card')"

definition mayInsert :: "store_op \<Rightarrow> Session \<Rightarrow> bool" where
  "mayInsert op t \<longleftrightarrow> (\<exists>session. op = PutOp session \<and> sameIdentity session t \<and> s_status t = SessionStarting)"

definition keeps_identity :: "store_op \<Rightarrow> contents \<Rightarrow> contents \<Rightarrow> bool" where
  "keeps_identity op k k' \<longleftrightarrow>
     index_ok k' \<and>
     (\<forall>i s. fmlookup (ct_byIntent k) i = Some s \<longrightarrow>
        (case fmlookup (ct_byIntent k') i of Some t \<Rightarrow> sameIdentity s t | None \<Rightarrow> mayDelete op k s)) \<and>
     (\<forall>i t. fmlookup (ct_byIntent k) i = None \<longrightarrow> fmlookup (ct_byIntent k') i = Some t \<longrightarrow> mayInsert op t)"

lemma index_ok_sessions: "sessions_ok (ct_byIntent k) (ct_byID k) \<Longrightarrow> index_ok k"
  by (simp add: sessions_ok_def index_ok_def)

lemma sameIdentity_refl [simp]: "sameIdentity s s"
  by (simp add: sameIdentity_def)

lemma Equal_identity: "Equal s t \<Longrightarrow> sameIdentity s t"
  by (simp add: Equal_def sameIdentity_def)

lemma keeps_identity_refl: "index_ok k \<Longrightarrow> keeps_identity op k k"
  by (simp add: keeps_identity_def split: option.split)

lemma index_ok_ui: "index_ok (k\<lparr>ct_telegramUI := ui\<rparr>) = index_ok k"
  by (simp add: index_ok_def)

lemma index_ok_replace:
  assumes "index_ok k" and "fmlookup (ct_byIntent k) i = Some s" and "sameIdentity s t"
  shows "index_ok (k\<lparr>ct_byIntent := fmupd i t (ct_byIntent k)\<rparr>)"
proof -
  have t: "s_id t = s_id s" "s_intentID t = i"
    using assms by (auto simp: sameIdentity_def index_ok_def)
  have "fmlookup (ct_byID k) d = Some j \<longleftrightarrow> (\<exists>u. fmlookup (fmupd i t (ct_byIntent k)) j = Some u \<and> s_id u = d)" for d j
    using assms(1,2) t by (cases "j = i") (auto simp: index_ok_def)
  with assms(1) t show ?thesis by (simp add: index_ok_def)
qed

lemma keeps_identity_replace:
  assumes "index_ok k" and "fmlookup (ct_byIntent k) i = Some s" and "sameIdentity s t"
  shows "keeps_identity op k (k\<lparr>ct_byIntent := fmupd i t (ct_byIntent k), ct_telegramUI := ui\<rparr>)"
  using index_ok_replace [OF assms] assms(2,3)
  by (auto simp: keeps_identity_def index_ok_ui split: option.split)

lemma keeps_identity_ui: "index_ok k \<Longrightarrow> keeps_identity op k (k\<lparr>ct_telegramUI := ui\<rparr>)"
  by (simp add: keeps_identity_def index_ok_ui split: option.split)

lemma index_okI:
  assumes "\<And>i s. fmlookup (ct_byIntent k) i = Some s \<Longrightarrow> s_intentID s = i"
    and "\<And>d i. fmlookup (ct_byID k) d = Some i \<longleftrightarrow> (\<exists>s. fmlookup (ct_byIntent k) i = Some s \<and> s_id s = d)"
  shows "index_ok k"
  using assms by (simp add: index_ok_def)

lemma index_okD:
  assumes "index_ok k"
  shows "fmlookup (ct_byIntent k) i = Some s \<Longrightarrow> s_intentID s = i"
    and "fmlookup (ct_byIntent k) i = Some s \<Longrightarrow> fmlookup (ct_byID k) (s_id s) = Some i"
    and "fmlookup (ct_byID k) d = Some i \<Longrightarrow> \<exists>s. fmlookup (ct_byIntent k) i = Some s \<and> s_id s = d"
  using assms by (auto simp: index_ok_def)

lemma keeps_identity_insert:
  assumes ok: "index_ok k" and "fmlookup (ct_byIntent k) i = None" and new: "fmlookup (ct_byID k) (s_id t) = None"
    and "s_intentID t = i" and "mayInsert op t"
  shows "keeps_identity op k (k\<lparr>ct_byIntent := fmupd i t (ct_byIntent k),
    ct_byID := fmupd (s_id t) i (ct_byID k), ct_telegramUI := ui\<rparr>)" (is "keeps_identity op k ?k'")
proof -
  have other: "s_id u \<noteq> s_id t" if "fmlookup (ct_byIntent k) l = Some u" for l u
    using index_okD(2) [OF ok that] new by auto
  have "index_ok ?k'"
  proof (rule index_okI)
    show "fmlookup (ct_byIntent ?k') j = Some s \<Longrightarrow> s_intentID s = j" for j s
      using assms(4) index_okD(1) [OF ok] by (auto split: if_splits)
    show "fmlookup (ct_byID ?k') d = Some j \<longleftrightarrow> (\<exists>s. fmlookup (ct_byIntent ?k') j = Some s \<and> s_id s = d)" for d j
      using other index_okD(2,3) [OF ok] assms(2)
      by (cases "j = i"; cases "d = s_id t") (auto dest: index_okD(3) [OF ok] index_okD(2) [OF ok])
  qed
  with assms show ?thesis by (auto simp: keeps_identity_def split: option.split)
qed

lemma keeps_identity_delete:
  assumes ok: "index_ok k" and old: "fmlookup (ct_byIntent k) i = Some s" and "mayDelete op k s"
  shows "keeps_identity op k (k\<lparr>ct_byIntent := fmdrop i (ct_byIntent k), ct_byID := fmdrop (s_id s) (ct_byID k),
    ct_telegramUI := ui\<rparr>)" (is "keeps_identity op k ?k'")
proof -
  have other: "l = i" if "fmlookup (ct_byIntent k) l = Some u" "s_id u = s_id s" for l u
    using index_okD(2) [OF ok that(1)] index_okD(2) [OF ok old] that(2) by auto
  have "index_ok ?k'"
  proof (rule index_okI)
    show "fmlookup (ct_byIntent ?k') j = Some t \<Longrightarrow> s_intentID t = j" for j t
      using index_okD(1) [OF ok] by (auto split: if_splits)
    show "fmlookup (ct_byID ?k') d = Some j \<longleftrightarrow> (\<exists>t. fmlookup (ct_byIntent ?k') j = Some t \<and> s_id t = d)" for d j
    proof (cases "d = s_id s")
      case True
      then show ?thesis using other by auto
    next
      case False
      with old have "j = i \<Longrightarrow> fmlookup (ct_byID k) d \<noteq> Some j" by (auto dest: index_okD(3) [OF ok])
      with False show ?thesis by (auto dest: index_okD(3) [OF ok] index_okD(2) [OF ok])
    qed
  qed
  with assms show ?thesis by (auto simp: keeps_identity_def split: option.split)
qed

lemma RestoreSession_static:
  "RestoreSession n = Inr t \<Longrightarrow> s_id t = n_ID n \<and> s_intentID t = n_IntentID n \<and> s_computerID t = n_ComputerID n \<and>
   s_provider t = n_Provider n \<and> s_workdir t = n_Workdir n \<and> s_status t = n_Status n"
  by (auto simp: RestoreSession_Inr restoreName_Inr defaultRecoveryTarget_def sessionOf_def split: if_splits)

lemma RestoreSession_identity:
  assumes "RestoreSession n = Inr t" and "n_ID n = s_id s" "n_IntentID n = s_intentID s"
    "n_ComputerID n = s_computerID s" "n_Provider n = s_provider s" "n_Workdir n = s_workdir s" "n_Status n = s_status s"
  shows "sameIdentity s t" "s_status t = s_status s"
  using RestoreSession_static [OF assms(1)] assms(2-) by (simp_all add: sameIdentity_def)

lemma renamed_identity:
  "Rename s name source = Inr t \<Longrightarrow> sameIdentity s t"
  "WithModelPreferences s model effort = Inr t \<Longrightarrow> sameIdentity s t"
  "RestoreSession ((Snapshot s)\<lparr>n_Name := name\<rparr>) = Inr t \<Longrightarrow> sameIdentity s t \<and> s_status t = s_status s"
  by (auto simp: Rename_def WithModelPreferences_def result_simps Snapshot_def intro: RestoreSession_identity
      elim!: RestoreSession_identity)

lemma sessionByID_Inr:
  "sessionByID k ident = Inr (i, s) \<Longrightarrow> fmlookup (ct_byIntent k) i = Some s"
  by (auto simp: sessionByID_def split: option.splits)

lemma insertStarting_identity:
  assumes "index_ok k" and "s_status session = SessionStarting"
    and "insertStarting c session k = Inr (x, Some k')"
  shows "keeps_identity (PutOp session) k k'"
proof -
  define put where "put t = k\<lparr>ct_byIntent := fmupd (s_intentID t) t (ct_byIntent k),
     ct_byID := fmupd (s_id t) (s_intentID t) (ct_byID k),
     ct_telegramUI := Some ((uiOrNew k)\<lparr>u_Cards := Some (fmupd (s_id t)
       ((freshCard (s_id t))\<lparr>c_EmptyCloseEligible := True\<rparr>) (cardsOf (uiOrNew k)))\<rparr>)\<rparr>" for t
  have fresh: "fmlookup (ct_byIntent k) (s_intentID session) = None" "fmlookup (ct_byID k) (s_id session) = None"
    using assms(3) by (auto simp: insertStarting_def result_simps split: option.splits)
  have "\<exists>t. (t = session \<or> (\<exists>name. RestoreSession ((Snapshot session)\<lparr>n_Name := name\<rparr>) = Inr t)) \<and> k' = put t"
    using assms(3) fresh
    by (auto simp: insertStarting_def result_simps Let_def put_def split: if_splits sum.splits)
  then obtain t where t: "sameIdentity session t" "s_status t = s_status session" "k' = put t"
    using renamed_identity(3) sameIdentity_refl by blast
  then have "mayInsert (PutOp session) t" "s_id t = s_id session" "s_intentID t = s_intentID session"
    using assms(2) by (simp_all add: mayInsert_def sameIdentity_def)
  with fresh show ?thesis
    unfolding t(3) put_def by (intro keeps_identity_insert [OF assms(1)]) simp_all
qed

lemma swapSession_identity:
  assumes "index_ok k" and "sameIdentity expected nxt" and "swapSession expected nxt k = Inr (x, Some k')"
  shows "keeps_identity op k k'"
proof -
  from assms(3) obtain current where current: "fmlookup (ct_byIntent k) (s_intentID expected) = Some current"
    "Equal current expected" "k' = k\<lparr>ct_byIntent := fmupd (s_intentID nxt) nxt (ct_byIntent k)\<rparr>"
    by (auto simp: swapSession_def split: option.splits if_splits)
  with assms(2) Equal_identity [OF current(2)] have "sameIdentity current nxt" "s_intentID nxt = s_intentID expected"
    by (simp_all add: sameIdentity_def)
  with current keeps_identity_replace [OF assms(1) current(1), of nxt op "ct_telegramUI k"] show ?thesis by simp
qed

lemma replaceSession_identity:
  assumes "index_ok k" and "sameIdentity expected nxt" and "replaceSession expected nxt k = Inr (x, Some k')"
  shows "keeps_identity op k k'"
proof -
  obtain current where current: "fmlookup (ct_byIntent k) (s_intentID expected) = Some current"
    using assms(3) by (auto simp: replaceSession_def split: option.splits)
  have eq: "Equal current expected" "\<not> Equal current nxt"
    using assms(3) current by (auto simp: replaceSession_def split: if_splits)
  obtain ui where k': "k' = k\<lparr>ct_byIntent := fmupd (s_intentID nxt) nxt (ct_byIntent k), ct_telegramUI := ui\<rparr>"
    using assms(3) current eq unfolding replaceSession_def by (simp del: if_split split del: if_split) blast
  from assms(2) Equal_identity [OF eq(1)] have "sameIdentity current nxt" "s_intentID nxt = s_intentID expected"
    by (simp_all add: sameIdentity_def)
  with k' keeps_identity_replace [OF assms(1) current] show ?thesis by simp
qed

lemma session_update_identity:
  assumes "index_ok k" and "sessionByID k ident = Inr (i, s)" and "sameIdentity s t"
  shows "keeps_identity op k (k\<lparr>ct_byIntent := fmupd i t (ct_byIntent k)\<rparr>)"
  using keeps_identity_replace [OF assms(1) sessionByID_Inr [OF assms(2)] assms(3), of op "ct_telegramUI k"] by simp

lemma renameTo_identity:
  assumes "index_ok k" and "renameTo c ident name source k = Inr (x, Some k')"
  shows "keeps_identity op k k'"
proof -
  from assms(2) obtain i s where s: "sessionByID k ident = Inr (i, s)" by (auto simp: renameTo_def bindE_Inr)
  show ?thesis
  proof (cases "Rename s (Unique (cd_lower c) (ct_byIntent k) ident name) source")
    case (Inl e)
    with assms(2) s show ?thesis by (simp add: renameTo_def Let_def)
  next
    case (Inr t)
    with assms(2) s have "k' = k\<lparr>ct_byIntent := fmupd i t (ct_byIntent k)\<rparr>"
      by (auto simp: renameTo_def Let_def split: if_splits)
    with session_update_identity [OF assms(1) s renamed_identity(1) [OF Inr]] show ?thesis by simp
  qed
qed

lemma preferModel_identity:
  assumes "index_ok k" and "preferModel ident model effort k = Inr (x, Some k')"
  shows "keeps_identity op k k'"
proof -
  from assms(2) obtain i s where s: "sessionByID k ident = Inr (i, s)" by (auto simp: preferModel_def bindE_Inr)
  show ?thesis
  proof (cases "WithModelPreferences s model effort")
    case (Inl e)
    with assms(2) s show ?thesis by (simp add: preferModel_def)
  next
    case (Inr t)
    with assms(2) s have "k' = k\<lparr>ct_byIntent := fmupd i t (ct_byIntent k)\<rparr>"
      by (auto simp: preferModel_def split: if_splits)
    with session_update_identity [OF assms(1) s renamed_identity(2) [OF Inr]] show ?thesis by simp
  qed
qed

lemma deleteBody_identity:
  assumes "index_ok k" and "deleteBody expected True deleted k = Inr (x, Some k')"
  shows "keeps_identity (DeleteOp expected) k k'"
proof -
  from assms(2) obtain current s card' ui where current:
    "fmlookup (ct_byIntent k) (s_intentID expected) = Some current" "Equal current expected"
    "ct_telegramUI k = Some s" "fmlookup (cardsOf s) (s_id expected) = Some card'" "emptyEligible card'"
    "k' = k\<lparr>ct_byIntent := fmdrop (s_intentID expected) (ct_byIntent k),
          ct_byID := fmdrop (s_id expected) (ct_byID k), ct_telegramUI := Some ui\<rparr>"
    by (auto simp: deleteBody_def Let_def result_simps split: option.splits if_splits)
  then have "s_id expected = s_id current" by (simp add: Equal_def)
  with current keeps_identity_delete [OF assms(1) current(1), of "DeleteOp expected" "Some ui"] show ?thesis
    by (auto simp: mayDelete_def)
qed

lemma effect_identity:
  assumes ok: "index_ok k" and "effect c op deleted k = Inr ((), next)"
  shows "keeps_identity op k (case next of None \<Rightarrow> k | Some k' \<Rightarrow> k')"
proof (cases "next")
  case None
  with ok show ?thesis by (simp add: keeps_identity_refl)
next
  case (Some k')
  with assms(2) have pre: "precheck op = Inr ()" and b: "body c op deleted k = Inr ((), Some k')"
    by (auto simp: effect_def result_simps)
  have "keeps_identity op k k'"
  proof (cases op)
    case (PutOp s)
    with ok pre b show ?thesis by (auto simp: dropResult_def result_simps intro: insertStarting_identity)
  next
    case (RenameOp ident name source)
    with ok b show ?thesis by (auto simp: dropResult_def result_simps intro: renameTo_identity)
  next
    case (SwapOp e n)
    with ok pre b show ?thesis by (auto simp: result_simps intro: swapSession_identity)
  next
    case (ReplaceOp e n)
    with ok pre b show ?thesis by (auto simp: result_simps intro: replaceSession_identity)
  next
    case (PreferOp ident m e)
    with ok b show ?thesis by (auto intro: preferModel_identity)
  next
    case (UpdateOp fn)
    with ok b show ?thesis by (auto simp: updateUI_def result_simps intro: keeps_identity_ui)
  next
    case (DeleteOp e)
    with ok b show ?thesis by (auto simp: dropResult_def result_simps intro: deleteBody_identity)
  qed
  with Some show ?thesis by simp
qed

section \<open>Deletion\<close>

lemma fmlookup_forgetActive:
  "fmlookup (u_ActiveSessions (forgetActive k sessions ident ui)) node = reactivate k sessions ident ui node"
proof -
  define r where "r = reactivate k sessions ident ui"
  have "map_of (List.map_filter (\<lambda>n. map_option (Pair n) (r n)) ns) node = (if node \<in> set ns then r node else None)" for ns
    by (induction ns) (auto simp: List.map_filter_simps split: option.splits)
  moreover have "node \<notin> set (mapKeys (u_ActiveSessions ui)) \<Longrightarrow> r node = None"
    by (auto simp: r_def reactivate_def fmdom_notD)
  ultimately show ?thesis by (auto simp: forgetActive_def fmlookup_of_list simp flip: r_def)
qed

lemma reactivate_other:
  assumes "\<And>n xs. fmlookup (u_RecentSessions ui) n = Some xs \<Longrightarrow> ident \<notin> set xs"
    and "reactivate k sessions ident ui node = Some active"
  shows "active \<noteq> ident"
proof -
  have "ident \<notin> set (valueOr [] (u_RecentSessions ui) node)"
    using assms(1) by (cases "fmlookup (u_RecentSessions ui) node") (auto simp: valueOr_def)
  moreover have "active \<in> set xs" if "firstOpen k sessions xs = Some active" for xs
    using that by (induction xs) (auto simp: firstOpen_def split: if_splits)
  ultimately show ?thesis
    using assms(2) by (auto simp: reactivate_def split: option.splits if_splits)
qed

definition forgotten :: "SessionID \<Rightarrow> State \<Rightarrow> bool" where
  "forgotten ident ui \<longleftrightarrow>
     fmlookup (cardsOf ui) ident = None \<and> u_ActiveSession ui \<noteq> ident \<and>
     (\<forall>node. fmlookup (u_ActiveSessions ui) node \<noteq> Some ident) \<and>
     (\<forall>node xs. fmlookup (u_RecentSessions ui) node = Some xs \<longrightarrow> ident \<notin> set xs)"

definition others_kept :: "SessionID \<Rightarrow> State \<Rightarrow> State \<Rightarrow> bool" where
  "others_kept ident ui ui' \<longleftrightarrow>
     u_SelectedNode ui' = u_SelectedNode ui \<and>
     (\<forall>j. j \<noteq> ident \<longrightarrow> fmlookup (cardsOf ui') j = fmlookup (cardsOf ui) j) \<and>
     (\<forall>node active. active \<noteq> ident \<longrightarrow> fmlookup (u_ActiveSessions ui) node = Some active \<longrightarrow>
        fmlookup (u_ActiveSessions ui') node = Some active)"

lemma deleteReferences_forgets:
  assumes "ident \<noteq> []" and "Clone ui = ui"
  shows "forgotten ident (deleteReferences k sessions ident ui)" "others_kept ident ui (deleteReferences k sessions ident ui)"
proof -
  define ui1 where "ui1 = forgetRecent ident (ui\<lparr>u_Cards := Some (fmdrop ident (cardsOf ui))\<rparr>)"
  define ui2 where "ui2 = forgetActive k sessions ident ui1"
  have del: "deleteReferences k sessions ident ui = ui2\<lparr>u_ActiveSession :=
      (if u_SelectedNode ui2 \<noteq> [] then valueOr [] (u_ActiveSessions ui2) (u_SelectedNode ui2)
       else if u_ActiveSession ui2 = ident then [] else u_ActiveSession ui2)\<rparr>"
    by (simp add: deleteReferences_def ui2_def ui1_def assms(2) Let_def)
  have recent: "ident \<notin> set xs" if "fmlookup (u_RecentSessions ui1) n = Some xs" for n xs
    using that by (auto simp: ui1_def forgetRecent_def)
  have active: "fmlookup (u_ActiveSessions ui2) n = reactivate k sessions ident ui1 n" for n
    by (simp add: ui2_def fmlookup_forgetActive)
  have other: "fmlookup (u_ActiveSessions ui2) n \<noteq> Some ident" for n
  proof
    assume "fmlookup (u_ActiveSessions ui2) n = Some ident"
    then have "reactivate k sessions ident ui1 n = Some ident" by (simp add: active)
    from reactivate_other [OF recent this] show False by simp
  qed
  have same: "cardsOf ui2 = fmdrop ident (cardsOf ui)" "u_RecentSessions ui2 = u_RecentSessions ui1"
    "u_SelectedNode ui2 = u_SelectedNode ui"
    by (simp_all add: ui2_def ui1_def forgetActive_def forgetRecent_def cardsOf_def)
  have "valueOr [] (u_ActiveSessions ui2) n \<noteq> ident" for n
    using other [of n] assms(1) by (auto simp: valueOr_def split: option.split)
  with other recent same assms(1) show "forgotten ident (deleteReferences k sessions ident ui)"
    by (auto simp: forgotten_def del)
  have "fmlookup (u_ActiveSessions ui2) n = Some a" if "a \<noteq> ident" "fmlookup (u_ActiveSessions ui) n = Some a" for n a
    using that unfolding active by (simp add: reactivate_def ui1_def forgetRecent_def)
  with same show "others_kept ident ui (deleteReferences k sessions ident ui)"
    by (auto simp: others_kept_def del)
qed

section \<open>Labels\<close>

text \<open>On ASCII labels every candidate is a trimmed prefix with a number behind it.\<close>

definition digitValue :: "char \<Rightarrow> nat" where
  "digitValue c = of_char c - 48"

lemma digitValue_nth: "n < 10 \<Longrightarrow> digitValue (''0123456789'' ! n) = n"
  by (auto simp: digitValue_def less_Suc_eq numeral_eq_Suc)

lemma decimal_value: "foldl (\<lambda>a c. 10 * a + digitValue c) 0 (decimal n) = n"
proof (induction n rule: decimal.induct)
  case (1 n)
  show ?case
  proof (cases "n < 10")
    case True
    then have "decimal n = [''0123456789'' ! n]" by (subst decimal.simps) (rule if_P)
    with True show ?thesis by (simp only: foldl.simps digitValue_nth)
  next
    case False
    then have e: "decimal n = decimal (n div 10) @ [''0123456789'' ! (n mod 10)]"
      by (subst decimal.simps) (rule if_not_P)
    have "foldl (\<lambda>a c. 10 * a + digitValue c) 0 (decimal n) = 10 * (n div 10) + n mod 10"
      unfolding e foldl_append 1 [OF False] by (simp only: foldl.simps digitValue_nth [of "n mod 10"] mod_less_divisor zero_less_numeral)
    then show ?thesis by simp
  qed
qed

lemma decimal_inj: "decimal m = decimal n \<Longrightarrow> m = n"
  by (metis decimal_value)

lemma decimal_bound: "n < 10 ^ Suc k \<Longrightarrow> length (decimal n) \<le> Suc k"
proof (induction k arbitrary: n)
  case 0
  then show ?case by (subst decimal.simps) simp
next
  case (Suc k)
  then show ?case using Suc.IH [of "n div 10"] by (subst decimal.simps) (simp add: div_less_iff_less_mult)
qed

lemma decimal_large: "10 ^ k \<le> n \<Longrightarrow> k < length (decimal n)"
proof (induction k arbitrary: n)
  case 0
  then show ?case using decimal_not_Nil by simp
next
  case (Suc k)
  have "1 \<le> (10 :: nat) ^ k" by simp
  then have "\<not> n < 10" using Suc.prems unfolding power_Suc by linarith
  moreover have "10 ^ k \<le> n div 10" using Suc.prems by (simp add: less_eq_div_iff_mult_less_eq mult.commute)
  ultimately show ?case using Suc.IH [of "n div 10"] by (subst decimal.simps) simp
qed

lemma lowerASCII_digit: "c \<in> set ''0123456789'' \<Longrightarrow> lowerASCII c = c \<and> of_char c < (0x80 :: int)"
  by (auto simp: lowerASCII_def)

lemma lower_decimal: "map lowerASCII (decimal n) = decimal n" "ascii (decimal n)"
proof -
  have "lowerASCII c = c \<and> of_char c < (0x80 :: int)" if "c \<in> set (decimal n)" for c
    using set_decimal that lowerASCII_digit by blast
  then show "map lowerASCII (decimal n) = decimal n" "ascii (decimal n)"
    by (auto simp: ascii_def intro: map_idI)
qed

lemma ascii_take: "ascii s \<Longrightarrow> ascii (take n s)"
  by (auto simp: ascii_def dest: in_set_takeD)

lemma encode_ascii:
  assumes "ascii s"
  shows "concat (map encodeChunk (take n (rune_chunks s))) = take n s"
proof -
  have "encodeChunk (of_char c, [c]) = [c]" if "c \<in> set s" for c
    using assms that by (auto simp: encodeChunk_def ascii_def runeError_def)
  moreover have "concat (map (\<lambda>c. encodeChunk (of_char c, [c])) xs) = xs"
    if "\<And>c. c \<in> set xs \<Longrightarrow> encodeChunk (of_char c, [c]) = [c]" for xs
    using that by (induction xs) simp_all
  ultimately have "concat (map (\<lambda>c. encodeChunk (of_char c, [c])) (take n s)) = take n s"
    by (meson in_set_takeD)
  then show ?thesis by (simp add: rune_chunks_ascii [OF assms] take_map comp_def)
qed

lemma TrimSpace_ascii_eq:
  assumes "ascii s"
  shows "TrimSpace s = rev (dropWhile (\<lambda>c. IsSpace (of_char c)) (rev (dropWhile (\<lambda>c. IsSpace (of_char c)) s)))"
proof -
  have "space_chunk \<circ> (\<lambda>c. (of_char c, [c])) = (\<lambda>c. IsSpace (of_char c))" by (auto simp: space_chunk_def)
  moreover have "concat (map (\<lambda>c. [c]) xs) = xs" for xs :: string by (induction xs) simp_all
  ultimately show ?thesis
    by (simp add: TrimSpace_def rune_chunks_ascii [OF assms] dropWhile_map rev_map comp_def)
qed

lemma TrimSpace_ascii_sub:
  assumes "ascii s"
  shows "ascii (TrimSpace s)" "length (TrimSpace s) \<le> length s"
proof -
  show "ascii (TrimSpace s)"
    using assms unfolding TrimSpace_ascii_eq [OF assms] ascii_def by (auto dest!: set_dropWhileD)
  show "length (TrimSpace s) \<le> length s"
    using length_dropWhile_le unfolding TrimSpace_ascii_eq [OF assms] by (metis length_rev order_trans)
qed

lemma labelCandidate_ascii:
  "ascii r \<Longrightarrow> labelCandidate r n = TrimSpace (take (MaxSessionNameRunes - length (labelSuffix n)) r) @ labelSuffix n"
  by (simp add: labelCandidate_def encode_ascii Let_def)

lemma labelSuffix_ascii: "ascii (labelSuffix n)"
  using lower_decimal(2) by (auto simp: labelSuffix_def ascii_def)

lemma candidate_ascii: "ascii r \<Longrightarrow> ascii (labelCandidate r n)"
  using TrimSpace_ascii_sub(1) [OF ascii_take] labelSuffix_ascii
  by (auto simp: labelCandidate_ascii ascii_def)

lemma candidate_length:
  assumes "ascii r" and "n < 10000"
  shows "length (labelCandidate r n) \<le> MaxSessionNameRunes"
proof -
  have "length (labelSuffix n) \<le> 4" using decimal_bound [of n 3] assms(2) by (simp add: labelSuffix_def)
  moreover have "length (TrimSpace (take m r)) \<le> m" for m
    using TrimSpace_ascii_sub(2) [OF ascii_take [OF assms(1)], of m] by simp
  ultimately have "length (labelSuffix n) \<le> 4"
    "length (TrimSpace (take (10 - length (labelSuffix n)) r)) \<le> 10 - length (labelSuffix n)" by simp_all
  then show ?thesis
    unfolding labelCandidate_ascii [OF assms(1)] MaxSessionNameRunes_def length_append by linarith
qed

lemma candidates_inj:
  assumes "ascii r"
  shows "inj_on (\<lambda>n. ToLower lower (labelCandidate r n)) {1000..<10000}"
proof (rule inj_onI)
  fix m n :: nat
  assume mn: "m \<in> {1000..<10000}" "n \<in> {1000..<10000}"
    and eq: "ToLower lower (labelCandidate r m) = ToLower lower (labelCandidate r n)"
  have len: "length (decimal x) = 4" if "x \<in> {1000..<10000}" for x
    using that decimal_bound [of x 3] decimal_large [of 3 x] by simp
  have cand: "ToLower lower (labelCandidate r x) = map lowerASCII (TrimSpace (take 6 r)) @ decimal x"
    if "x \<in> {1000..<10000}" for x
    using that len [OF that] candidate_ascii [OF assms, of x]
    by (simp add: ToLower_def labelCandidate_ascii [OF assms] labelSuffix_def MaxSessionNameRunes_def lower_decimal)
  from eq mn have "decimal m = decimal n" by (simp add: cand)
  then show "m = n" by (rule decimal_inj)
qed

lemma usedLabels_card: "finite (usedLabels lower sessions excluded)"
  "card (usedLabels lower sessions excluded) \<le> length (entries sessions)"
proof -
  show "finite (usedLabels lower sessions excluded)" by (simp add: usedLabels_def)
  have "card (usedLabels lower sessions excluded) \<le>
    length (filter (\<lambda>(_, s). s_id s \<noteq> excluded \<and> s_name s \<noteq> []) (entries sessions))"
    unfolding usedLabels_def by (rule order_trans [OF card_image_le card_length]) simp
  also have "\<dots> \<le> length (entries sessions)" by (rule length_filter_le)
  finally show "card (usedLabels lower sessions excluded) \<le> length (entries sessions)" .
qed

lemma Unique_free:
  assumes "ascii r" and "length (entries sessions) < 9000"
  obtains n where "n < 10000" "Unique lower sessions excluded r = labelCandidate r n"
    "ToLower lower (labelCandidate r n) \<notin> usedLabels lower sessions excluded"
proof -
  let ?used = "usedLabels lower sessions excluded" and ?f = "\<lambda>n. ToLower lower (labelCandidate r n)"
  have "\<not> ?f ` {1000..<10000} \<subseteq> ?used"
  proof
    assume "?f ` {1000..<10000} \<subseteq> ?used"
    then have "card (?f ` {1000..<10000}) \<le> card ?used" by (rule card_mono [OF usedLabels_card(1)])
    with card_image [OF candidates_inj [OF assms(1), of lower]] usedLabels_card(2) [of lower sessions excluded] assms(2)
    show False by simp
  qed
  then have "find (\<lambda>x. ToLower lower x \<notin> ?used) (map (labelCandidate r) [1..<10000]) \<noteq> None"
    by (auto simp: find_None_iff)
  then obtain x where x: "find (\<lambda>x. ToLower lower x \<notin> ?used) (map (labelCandidate r) [1..<10000]) = Some x" by blast
  then obtain i where "i < 9999" "x = labelCandidate r (Suc i)" "ToLower lower x \<notin> ?used"
    by (auto simp: find_Some_iff)
  with x show thesis by (intro that [of "Suc i"]) (simp_all add: Unique_def)
qed

end
