(* ===== verification/Store_Samples.thy ===== *)
theory Store_Samples
  imports Store_Effects Card_Properties
begin

text \<open>
  A concrete codec and concrete stores on which the properties of the session store are evaluated. The
  codec writes the documents of a table, each as a text of its own length, and reads them back.
\<close>

section \<open>A codec\<close>

fun position :: "'a \<Rightarrow> 'a list \<Rightarrow> nat option" where
  "position x [] = None"
| "position x (y # ys) = (if x = y then Some 0 else map_option Suc (position x ys))"

lemma position_nth: "position x xs = Some n \<Longrightarrow> n < length xs \<and> xs ! n = x"
  by (induction xs arbitrary: n) (auto split: if_splits)

definition printed :: "'a list \<Rightarrow> 'a \<Rightarrow> string option" where
  "printed xs x = map_option (\<lambda>n. replicate (Suc n) CHR ''x'') (position x xs)"

definition parsed :: "'a list \<Rightarrow> string \<Rightarrow> 'a option" where
  "parsed xs data = (if data \<noteq> [] \<and> length data \<le> length xs then Some (xs ! (length data - 1)) else None)"

lemma parsed_printed: "printed xs x = Some data \<Longrightarrow> parsed xs data = Some x"
  by (auto simp: printed_def parsed_def dest!: position_nth)

definition tableCodec :: "sessionFile list \<Rightarrow> activityDocument list \<Rightarrow> stateCodec" where
  "tableCodec docs acts =
     \<lparr>cd_marshal = printed docs,
      cd_tokens = (\<lambda>data. case parsed docs data of None \<Rightarrow> [] | Some f \<Rightarrow> tokens (jsonFile (\<lambda>_. []) f)),
      cd_decode = (\<lambda>data. case parsed docs data of None \<Rightarrow> Inl ''unexpected end of JSON input'' | Some f \<Rightarrow> Inr (decoded f)),
      cd_trailing = (\<lambda>_. None),
      cd_putActivity = printed acts, cd_getActivity = parsed acts,
      cd_columns = (\<lambda>_. []), cd_lower = map lowerASCII, cd_time = (\<lambda>_. [])\<rparr>"

lemma tableCodec_faithful: "faithful (tableCodec docs acts)"
  by (auto simp: faithful_def tableCodec_def dest!: parsed_printed)

lemma position_member: "x \<in> set xs \<Longrightarrow> \<exists>n. position x xs = Some n"
  by (induction xs) auto

lemma printed_member:
  assumes "x \<in> set xs"
  obtains data where "printed xs x = Some data" "length data \<le> length xs"
  using position_member [OF assms] position_nth [of x xs] by (auto simp: printed_def)

text \<open>The codec whose table holds exactly what is written for the contents \<open>ks\<close>.\<close>

definition codecFor :: "contents list \<Rightarrow> stateCodec" where
  "codecFor ks = tableCodec (map (\<lambda>k. stateDocument k) ks) (map (\<lambda>k. activityOf (\<lambda>_. []) (ct_telegramUI k)) ks)"

lemma codecFor_faithful: "faithful (codecFor ks)"
  by (simp add: codecFor_def tableCodec_faithful)

lemma codecFor_simps [simp]: "cd_time (codecFor ks) = (\<lambda>_. [])" "cd_lower (codecFor ks) = map lowerASCII"
  by (simp_all add: codecFor_def tableCodec_def)

lemma codecFor_encodes:
  assumes "k \<in> set ks" and "length ks \<le> 10"
  shows "\<exists>data activity. encodes (codecFor ks) k data activity"
proof -
  obtain data where "cd_marshal (codecFor ks) (stateDocument k) = Some data"
    using printed_member [of "stateDocument k" "map (\<lambda>k. stateDocument k) ks"] assms(1)
    by (auto simp: codecFor_def tableCodec_def)
  moreover obtain activity where "cd_putActivity (codecFor ks) (activityOf (cd_columns (codecFor ks)) (ct_telegramUI k)) = Some activity"
      "length activity \<le> length ks"
    using printed_member [of "activityOf (\<lambda>_. []) (ct_telegramUI k)" "map (\<lambda>k. activityOf (\<lambda>_. []) (ct_telegramUI k)) ks"] assms(1)
    by (auto simp: codecFor_def tableCodec_def)
  moreover have "len activity \<le> maxSize" using calculation(3) assms(2) by (simp add: maxSize_def len_def)
  ultimately show ?thesis by (auto simp: encodes_def)
qed

section \<open>Calls and disks\<close>

definition plainAccess :: access where
  "plainAccess = \<lparr>ac_fails = (\<lambda>_. False), ac_other = (\<lambda>_ d. d)\<rparr>"

definition plainCall :: call where
  "plainCall = \<lparr>cl_ctx = (\<lambda>_. None), cl_access = (\<lambda>_. plainAccess), cl_now = 0\<rparr>"

definition newDisk :: disk where
  "newDisk = \<lparr>dk_state = None, dk_activity = None, dk_next = 0\<rparr>"

definition newStore :: SessionStore where
  "newStore = \<lparr>st_contents = emptyContents, st_deletedEmpty = fmempty, st_fullReloads = 0, st_generation = (None, None)\<rparr>"

lemma plain_working: "working plainAccess" "healthy plainCall"
  by (simp_all add: working_def quiet_def healthy_def plainAccess_def plainCall_def)

lemma plain_quiet: "quiet plainAccess" "quiet (cl_access plainCall n)" "honest plainAccess"
  using plain_working by (simp_all add: healthy_def workingD quiet_honest)

lemma newDisk_facts: "disk_ok newDisk" "regular newDisk" "diskContents c newDisk = Inr emptyContents"
  by (simp_all add: newDisk_def disk_ok_def path_fresh_def regular_def contentsOf_def bytes_def)

lemma newStore_coherent: "coherent c newStore newDisk"
  by (rule coherentI) (simp_all add: newDisk_facts newStore_def generation_def newDisk_def
      contentsOf_def bytes_def disk_ok_def path_fresh_def)

lemma Open_new: "path \<noteq> [] \<Longrightarrow> OpenSessionStore c plainAccess path newDisk = (Inr newStore, newDisk)"
  using working_readVerified [OF plain_working(1) newDisk_facts(2,3), of c]
  by (simp add: OpenSessionStore_def newStore_def repaired_def newDisk_def generation_def result_simps)

section \<open>Contents\<close>

text \<open>A session that starts, and the contents of a new store after it was put.\<close>

definition sample_new :: Session where
  "sample_new =
     \<lparr>s_id = ''s-1'', s_intentID = ''intent-1'', s_computerID = ''local'',
      s_provider = ProviderCodex, s_workdir = ''/work'', s_name = [],
      s_nameSource = SessionNameUnset, s_model = [], s_effort = [],
      s_status = SessionStarting, s_binding = None, s_createdAt = 1000,
      s_lastResumedAt = None, s_stateChangedAt = 1000, s_lifetime = SessionLifetime24Hours,
      s_deadlineAt = Some (1000 + SessionLifetime24Hours), s_recoveryTarget = None\<rparr>"

definition sample_eligible :: Card where
  "sample_eligible = (freshCard ''s-1'')\<lparr>c_EmptyCloseEligible := True\<rparr>"

definition sample_contents :: contents where
  "sample_contents =
     \<lparr>ct_byIntent = fmupd ''intent-1'' sample_new fmempty, ct_byID = fmupd ''s-1'' ''intent-1'' fmempty,
      ct_checkpoint = None, ct_telegramUI = Some (New\<lparr>u_Cards := Some (fmupd ''s-1'' sample_eligible fmempty)\<rparr>)\<rparr>"

lemma sample_new_restorable: "RestoreSession (Snapshot sample_new) = Inr sample_new"
  by code_simp

lemma sample_new_valid: "validateSessionValue sample_new = Inr ()"
  using sample_new_restorable by (simp add: validateSessionValue_def failIf_Inr)

lemma sample_effect: "effect c (PutOp sample_new) deleted emptyContents = Inr ((), Some sample_contents)"
  using sample_new_valid
  by (simp add: effect_def insertStarting_def dropResult_def emptyContents_def result_simps failIf_def
      orFail_def uiOrNew_def sample_contents_def sample_eligible_def New_def cardsOf_def sample_new_def bindE_def Let_def)

lemma sample_eligible_ok: "card_ok ''s-1'' sample_eligible"
  by (simp add: card_ok_def sample_eligible_def freshCard_def freshPage_def card_simps ascii_simps blank_def
      Page_validate_def Carrier_validate_def validateOperation_def containsBreak_def maxPages_def zeroCarrier_def)

lemma sample_eligible_clone: "cloneCard sample_eligible = sample_eligible"
  by code_simp

lemma sample_contents_ok: "contents_ok sample_contents"
proof -
  have "sessions_ok (ct_byIntent sample_contents) (ct_byID sample_contents)"
    using sample_new_restorable
    by (auto simp: sessions_ok_def sample_contents_def restorable_def) (auto simp: sample_new_def)
  moreover have "ui_ok (ct_telegramUI sample_contents)"
    using sample_eligible_ok
    by (simp add: ui_ok_def sample_contents_def Validate_iff New_def cardsOf_def selection_ok_def validateSelection_def
        Clone_def fmmap_fmupd sample_eligible_clone)
  ultimately show ?thesis by (simp add: contents_ok_def checkpoint_ok_def sample_contents_def)
qed


lemma sample_document:
  "representable (jsonFile (\<lambda>_. []) (stateDocument sample_contents))"
  "canonical (map lowerASCII) (jsonFile (\<lambda>_. []) (stateDocument sample_contents))"
  by code_simp+


text \<open>The contents after the session was deleted again.\<close>

definition sample_deleted :: contents where
  "sample_deleted = emptyContents\<lparr>ct_telegramUI := Some New\<rparr>"

lemma sample_references:
  "deleteReferences k sessions ''s-1'' (New\<lparr>u_Cards := Some (fmupd ''s-1'' sample_eligible fmempty)\<rparr>) = New"
  by (simp add: deleteReferences_def forgetRecent_def forgetActive_def Clone_def New_def cardsOf_def fmmap_fmupd
      mapKeys_def List.map_filter_def fmdrop_fmupd_same Let_def)

lemma sample_delete: "deleteBody sample_new True deleted sample_contents = Inr (True, Some sample_deleted)"
proof -
  have "s_intentID sample_new = ''intent-1''" "s_id sample_new = ''s-1''" by (simp_all add: sample_new_def)
  moreover have "emptyEligible sample_eligible"
    by (simp add: emptyEligible_def sample_eligible_def freshCard_def zeroCard_def)
  ultimately show ?thesis
    using Validate_New sample_references
    by (simp add: deleteBody_def sample_contents_def sample_deleted_def emptyContents_def cardsOf_def Let_def orFail_def
        bindE_def fmdrop_fmupd_same)
qed

lemma sample_deleted_document:
  "contents_ok sample_deleted"
  "representable (jsonFile (\<lambda>_. []) (stateDocument sample_deleted))"
  "canonical (map lowerASCII) (jsonFile (\<lambda>_. []) (stateDocument sample_deleted))"
proof -
  show "contents_ok sample_deleted"
    using contents_ok_empty Validate_New
    by (simp add: contents_ok_def ui_ok_def sample_deleted_def) (simp add: Clone_def New_def cardsOf_def)
qed code_simp+

definition sample_codec :: stateCodec where
  "sample_codec = codecFor [sample_contents, sample_deleted]"

lemma sample_storable: "storable sample_codec sample_contents" "storable sample_codec sample_deleted"
  using sample_contents_ok sample_document sample_deleted_document by (simp_all add: storable_def sample_codec_def)

lemma sample_faithful: "faithful sample_codec"
  by (simp add: sample_codec_def codecFor_faithful)

lemma sample_encodes:
  "\<exists>data activity. encodes sample_codec sample_contents data activity"
  "\<exists>data activity. encodes sample_codec sample_deleted data activity"
  unfolding sample_codec_def by (rule codecFor_encodes; simp)+

lemma sample_put:
  obtains st d where "perform sample_codec plainCall (PutOp sample_new) (newStore, newDisk) = (Inr (), st, d)"
    "coherent sample_codec st d" "st_contents st = sample_contents"
    "regular d" "diskContents sample_codec d = Inr sample_contents"
proof -
  have "\<exists>st d. perform sample_codec plainCall (PutOp sample_new) (newStore, newDisk) = (Inr (), st, d) \<and> regular d"
    using sample_encodes
    by (intro perform_completes [OF plain_working(2) newDisk_facts(2) newStore_coherent newDisk_facts(3) sample_effect]) auto
  then obtain st d where p: "perform sample_codec plainCall (PutOp sample_new) (newStore, newDisk) = (Inr (), st, d)"
    and reg: "regular d" by blast
  have "evolves newDisk d \<and> coherent sample_codec st d \<and>
      outcome sample_codec newDisk d st (effect sample_codec (PutOp sample_new) (st_deletedEmpty newStore)) (Inr ())"
    by (rule perform_sound [OF sample_faithful plain_quiet(2) newStore_coherent _ p])
       (auto simp: newDisk_facts sample_effect sample_storable)
  with p reg that show thesis by (auto simp: outcome_def newDisk_facts sample_effect)
qed


text \<open>The disk that the operation leaves, as another process opens it.\<close>

definition sample_disk :: disk where
  "sample_disk = snd (snd (perform sample_codec plainCall (PutOp sample_new) (newStore, newDisk)))"

lemma sample_disk_facts:
  "disk_ok sample_disk" "regular sample_disk" "diskContents sample_codec sample_disk = Inr sample_contents"
  by (rule sample_put, simp add: sample_disk_def coherent_def)+

lemma sample_opened:
  obtains st d where "OpenSessionStore sample_codec plainAccess ''state.json'' sample_disk = (Inr st, d)"
    "st_contents st = sample_contents" "coherent sample_codec st d" "regular d"
    "diskContents sample_codec d = Inr sample_contents" "st_deletedEmpty st = fmempty"
proof -
  define st where "st = \<lparr>st_contents = sample_contents, st_deletedEmpty = fmempty, st_fullReloads = 0,
    st_generation = generation (repaired sample_disk)\<rparr>"
  have o: "OpenSessionStore sample_codec plainAccess ''state.json'' sample_disk = (Inr st, repaired sample_disk)"
    using working_readVerified [OF plain_working(1) sample_disk_facts(2,3)]
    by (simp add: OpenSessionStore_def st_def result_simps)
  have "regular (repaired sample_disk)" "diskContents sample_codec (repaired sample_disk) = Inr sample_contents"
    by (simp_all add: sample_disk_facts)
  with o Open_sound(2) [OF plain_quiet(3) sample_disk_facts(1) o] that show thesis by (simp add: st_def)
qed

text \<open>A process that writes its activity file while the first attempt of a read is under way.\<close>

definition busyAccess :: access where
  "busyAccess = \<lparr>ac_fails = (\<lambda>_. False),
     ac_other = (\<lambda>n d. if n = 1 then d\<lparr>dk_activity := Some (newFile ''x'' d), dk_next := Suc (dk_next d)\<rparr> else d)\<rparr>"

lemma busyAccess_honest: "honest busyAccess"
  by (auto simp: honest_def busyAccess_def evolves_def path_evolves_refl) (auto simp: path_evolves_def)

lemma busyAccess_read:
  "readVerifiedSessionFile c busyAccess True newDisk =
     (Inr (emptyContents, generation (ac_other busyAccess 1 newDisk)), ac_other busyAccess 1 newDisk)"
  by (simp add: readVerifiedSessionFile_def numeral_eq_Suc readSessionFile_def inspectStoreGeneration_def
      inspectPathGeneration_def busyAccess_def newDisk_def generation_def result_simps bindE_def failIf_def attempt_def
      sameStoreGeneration_def)


text \<open>The contents of a new store after a session was activated on a computer with a capital letter in its id.\<close>

definition sample_capital :: contents where
  "sample_capital = emptyContents\<lparr>ct_telegramUI := Some (activateOnNode ''Mac'' ''s-1'' True (uiOrNew emptyContents))\<rparr>"

lemma sample_capital_document: "representable (jsonFile (\<lambda>_. []) (stateDocument sample_capital))"
  by code_simp

lemma sample_capital_valid: "Validate (activateOnNode ''Mac'' ''s-1'' True (uiOrNew emptyContents)) = Inr ()"
  by code_simp

lemma sample_capital_ok: "contents_ok sample_capital"
proof -
  have "cloneCard (freshCard ''s-1'') = freshCard ''s-1''" by code_simp
  then have "Clone (activateOnNode ''Mac'' ''s-1'' True (uiOrNew emptyContents)) = activateOnNode ''Mac'' ''s-1'' True (uiOrNew emptyContents)"
    by (simp add: activateOnNode_def recordActive_def ensureCard_def uiOrNew_def emptyContents_def Let_def New_def
        cardsOf_def Clone_def fmmap_fmupd)
  with contents_ok_empty sample_capital_valid show ?thesis
    by (simp add: contents_ok_def ui_ok_def sample_capital_def)
qed

end
