(* ===== verification/Store_Claims.thy ===== *)
theory Store_Claims
  imports Store_Samples
begin

text \<open>
  The properties of the session store: what a read returns, what an operation does to the files, and what
  the operations keep of the sessions and of the interface state.
\<close>

section \<open>Reading and writing the files\<close>

lemma readAttempts_source:
  "readAttempts c a repair i n d = (Inr (k, g), d') \<Longrightarrow> \<exists>d1. diskContents c d1 = Inr k"
proof (induction n arbitrary: i d)
  case (Suc n)
  obtain r1 d2 where rd: "readSessionFile c a repair (ac_other a (2 * i) d) = (r1, d2)" by fastforce
  with Suc readSessionFile_Inr [of c a repair] show ?case
    by (cases r1) (auto simp: Let_def split: sum.splits if_splits)
qed simp

lemma Open_Inr:
  assumes "OpenSessionStore c a path d = (Inr st, d')"
  obtains d1 where "diskContents c d1 = Inr (st_contents st)"
proof -
  obtain v d1 where v: "readVerifiedSessionFile c a True d = (v, d1)" by fastforce
  with assms obtain k g where "v = Inr (k, g)" "st_contents st = k"
    by (cases v) (auto simp: OpenSessionStore_def result_simps split: if_splits)
  with v readAttempts_source that show thesis unfolding readVerifiedSessionFile_def by blast
qed

text \<open>
  C17. Whatever bytes the files hold, and however other processes interfere, the contents of an opened store
  have their invariant: every session can be restored and is indexed by its intent and by its id, the
  interface state is valid and normalised, and the checkpoint decodes.
\<close>

theorem opened_accepted:
  assumes "OpenSessionStore c a path d = (Inr st, d')"
  shows "accepted (st_contents st)"
  using assms by (rule Open_Inr) (rule contentsOf_accepted)

theorem opened_accepted_witness:
  "\<exists>st d. OpenSessionStore sample_codec plainAccess ''state.json'' sample_disk = (Inr st, d) \<and>
     st_contents st = sample_contents \<and> accepted (st_contents st)"
  using opened_accepted [of sample_codec plainAccess "''state.json''" sample_disk] sample_opened by metis



lemma write_sound:
  assumes "faithful c" and "storable c k" and "honest a" and "disk_ok d"
    and "writeSessionFile c a (ct_byIntent k) (ct_checkpoint k) (ct_telegramUI k) d = (Inr g, d')"
  shows "diskContents c d' = Inr k" "regular d'" "g = generation d'" "disk_ok d'"
proof -
  from assms(5) have "diskContents c d' = Inr k \<and> regular d' \<and> g = generation d' \<and> disk_ok d'"
  proof (cases rule: writeSessionFile_cases)
    case (replaced data f d1)
    then have d': "d' = ac_other a 0 d1" "g = generation d'" "generation d' = generation d1" by auto
    have ev: "evolves d1 d'" using assms(3) by (simp add: honest_def d'(1))
    have ok: "disk_ok d1" using evolves_ok [OF assms(4) replaced(2)] .
    have "stamps d' = stamps d1" using arg_cong [OF d'(3), of generationStamps] by simp
    then have "bytes d' = (Some data, Some (fl_data f))"
      using unchanged_bytes [OF ev ok] replaced(3,4) by (simp add: bytes_def)
    moreover have "regular d'"
      using d'(3) replaced(3) by (auto simp: generation_def generationOf_def regular_def)
    ultimately show ?thesis
      using contentsOf_encodes [OF assms(1,2) replaced(1)] d'(2) evolves_ok [OF ok ev] by simp
  qed simp
  then show "diskContents c d' = Inr k" "regular d'" "g = generation d'" "disk_ok d'" by simp_all
qed

text \<open>
  C13. Contents that a write has reported as saved are what a store opened afterwards holds, although the
  state file omits empty fields and the activity times are in a file of their own.
\<close>

theorem written_read_back:
  assumes "faithful c" and "storable c k" and "honest a" and "disk_ok d"
    and "writeSessionFile c a (ct_byIntent k) (ct_checkpoint k) (ct_telegramUI k) d = (Inr g, d')"
    and "working a'" and "path \<noteq> []"
  shows "\<exists>st d''. OpenSessionStore c a' path d' = (Inr st, d'') \<and> st_contents st = k"
  using write_sound [OF assms(1-5)] working_readVerified [OF assms(6), of d' c k] assms(7)
  by (simp add: OpenSessionStore_def result_simps)

theorem written_read_back_witness:
  "\<exists>g d st d'. writeSessionFile sample_codec plainAccess (ct_byIntent sample_contents) (ct_checkpoint sample_contents)
       (ct_telegramUI sample_contents) newDisk = (Inr g, d) \<and>
     OpenSessionStore sample_codec plainAccess ''state.json'' d = (Inr st, d') \<and> st_contents st = sample_contents"
proof -
  obtain st d where "store_persist sample_codec plainAccess sample_contents (newStore, newDisk) = (Inr (), st, d)"
    using sample_encodes(1) working_persist [OF plain_working(1)] by blast
  then obtain g where "writeSessionFile sample_codec plainAccess (ct_byIntent sample_contents)
      (ct_checkpoint sample_contents) (ct_telegramUI sample_contents) newDisk = (Inr g, d)"
    by (auto simp: store_persist_def split: prod.splits sum.splits)
  with written_read_back [OF sample_faithful sample_storable(1) plain_quiet(3) newDisk_facts(1) this plain_working(1), of "''state.json''"]
  show ?thesis by auto
qed

section \<open>Operations\<close>

text \<open>The contents that an operation would write can be written and read back.\<close>

definition writesStorable :: "stateCodec \<Rightarrow> store_op \<Rightarrow> SessionStore \<Rightarrow> disk \<Rightarrow> bool" where
  "writesStorable c op st d \<longleftrightarrow>
     (\<forall>k0 k. diskContents c d = Inr k0 \<longrightarrow> effect c op (st_deletedEmpty st) k0 = Inr ((), Some k) \<longrightarrow> storable c k)"

lemma perform_outcome:
  assumes "faithful c" and "\<And>n. quiet (cl_access cl n)" and "coherent c st d" and "writesStorable c op st d"
    and "perform c cl op (st, d) = (r, st', d')"
  shows "evolves d d'" "coherent c st' d'" "outcome c d d' st' (effect c op (st_deletedEmpty st)) r"
proof -
  have "storable c k" if "diskContents c d = Inr k0" "effect c op (st_deletedEmpty st) k0 = Inr ((), Some k)" for k0 k
    using assms(4) that unfolding writesStorable_def by blast
  from perform_sound [OF assms(1-3) this assms(5)]
  show "evolves d d'" "coherent c st' d'" "outcome c d d' st' (effect c op (st_deletedEmpty st)) r" by simp_all
qed

lemma sample_writesStorable: "writesStorable sample_codec (PutOp sample_new) newStore newDisk"
  by (auto simp: writesStorable_def newDisk_facts sample_effect sample_storable)



text \<open>
  C15. An operation whose change is defined on the contents of the files, and whose result can be encoded,
  succeeds when no system call fails, no other process writes and the context is not cancelled, from every
  cache that is coherent with the files: a stale one is reloaded first.
\<close>

theorem store_completes:
  assumes "healthy cl" and "regular d" and "coherent c st d" and "diskContents c d = Inr k0"
    and "effect c op (st_deletedEmpty st) k0 = Inr ((), next)"
    and "\<And>k. next = Some k \<Longrightarrow> \<exists>data activity. encodes c k data activity"
  shows "\<exists>st' d'. perform c cl op (st, d) = (Inr (), st', d') \<and> regular d'"
  using perform_completes [OF assms] .

theorem store_completes_witness:
  "\<exists>st d. perform sample_codec plainCall (PutOp sample_new) (newStore, newDisk) = (Inr (), st, d) \<and> regular d"
  using sample_encodes
  by (intro store_completes [OF plain_working(2) newDisk_facts(2) newStore_coherent newDisk_facts(3) sample_effect]) auto

text \<open>
  C14. None of these operations changes the identity of a session. After a successful one every session is indexed
  by its intent and by its id, each session of before is there with the same identity unless it was deleted
  as one whose card is marked as never used, and a new one is the starting session that was put.
\<close>

theorem session_identity:
  assumes "faithful c" and "\<And>n. quiet (cl_access cl n)" and "coherent c st d"
    and "writesStorable c op st d"
    and "perform c cl op (st, d) = (Inr (), st', d')"
  shows "\<exists>k k'. diskContents c d = Inr k \<and> diskContents c d' = Inr k' \<and> keeps_identity op k k'"
proof -
  from perform_outcome(3) [OF assms] obtain k nxt where k: "diskContents c d = Inr k"
      "effect c op (st_deletedEmpty st) k = Inr ((), nxt)" "diskContents c d' = Inr (case nxt of None \<Rightarrow> k | Some k \<Rightarrow> k)"
    by (auto simp: outcome_def)
  have "index_ok k" using contentsOf_accepted [OF k(1)] by (simp add: accepted_def index_ok_sessions)
  with k effect_identity show ?thesis by blast
qed

theorem session_identity_witness:
  "\<exists>st d k k'. perform sample_codec plainCall (PutOp sample_new) (newStore, newDisk) = (Inr (), st, d) \<and>
     diskContents sample_codec newDisk = Inr k \<and> diskContents sample_codec d = Inr k' \<and>
     fmlookup (ct_byIntent k') ''intent-1'' = Some sample_new \<and> keeps_identity (PutOp sample_new) k k'"
proof -
  obtain st d where p: "perform sample_codec plainCall (PutOp sample_new) (newStore, newDisk) = (Inr (), st, d)"
      "diskContents sample_codec d = Inr sample_contents"
    by (rule sample_put)
  have "fmlookup (ct_byIntent sample_contents) ''intent-1'' = Some sample_new" by (simp add: sample_contents_def)
  with session_identity [OF sample_faithful plain_quiet(2) newStore_coherent sample_writesStorable p(1)] p show ?thesis by auto
qed

lemma loaded_healthy:
  assumes "healthy cl" and "regular d" and "coherent c st d" and "diskContents c d = Inr k"
  obtains st' where "fst (loaded c cl f (st, d)) = f st'" "st_contents st' = k"
proof -
  obtain st' d' where "reload c (cl_access cl 0) (st, d) = (Inr (), st', d')" "st_contents st' = k"
    using working_reload [OF healthyD(1) [OF assms(1)] assms(2-4)] by blast
  with that healthyD(2) [OF assms(1)] show thesis by (simp add: loaded_def bindS_def liftS_def readS_def)
qed

text \<open>
  C11. Several stores may be open on the same files while other processes replace them. After any sequence of
  openings, of the operations above, failed ones included, and of replacements, each open store answers a query without
  failures from what the files hold then, not from what it cached.
\<close>

theorem stores_read_disk:
  assumes "run (store_event_step c) ([], d0) es (sts, d)" and "disk_ok d0" and "st \<in> set sts"
    and "healthy cl" and "regular d" and "diskContents c d = Inr k"
  shows "fst (GetByIntent c cl intent (st, d)) = Inr (fmlookup (ct_byIntent k) intent)"
proof -
  have "all_coherent c (sts, d)"
    using open_stores.run_inv [OF assms(1)] assms(2) by (simp add: all_coherent_def)
  then have "coherent c st d" using assms(3) by (simp add: all_coherent_def)
  then obtain st' :: SessionStore where "fst (loaded c cl (\<lambda>st. Inr (fmlookup (ct_byIntent (st_contents st)) intent)) (st, d)) =
      Inr (fmlookup (ct_byIntent (st_contents st')) intent)" "st_contents st' = k"
    by (rule loaded_healthy [OF assms(4,5) _ assms(6), where f = "\<lambda>st. Inr (fmlookup (ct_byIntent (st_contents st)) intent)"])
  then show ?thesis by (simp add: GetByIntent_def)
qed

theorem stores_read_disk_witness:
  "\<exists>st d. run (store_event_step sample_codec) ([], newDisk) [(), (), ()] ([st, newStore], d) \<and>
     fst (GetByIntent sample_codec plainCall ''intent-1'' (newStore, d)) = Inr (Some sample_new)"
proof -
  obtain st d where p: "perform sample_codec plainCall (PutOp sample_new) (newStore, newDisk) = (Inr (), st, d)"
      "regular d" "diskContents sample_codec d = Inr sample_contents"
    by (rule sample_put)
  have "store_step sample_codec (sts, newDisk) (sts @ [newStore], newDisk)" for sts
    by (rule store_step.opened [OF plain_quiet(3) Open_new [of "''state.json''"]]) simp
  from this [of "[]"] this [of "[newStore]"]
  have "store_step sample_codec ([], newDisk) ([newStore], newDisk)"
    "store_step sample_codec ([newStore], newDisk) ([newStore, newStore], newDisk)" by simp_all
  moreover have "store_step sample_codec ([newStore, newStore], newDisk) ([newStore, newStore][0 := st], d)"
    using sample_writesStorable p(1)
    by (intro store_step.operate [where cl = plainCall and op = "PutOp sample_new"])
       (auto simp: writesStorable_def intro: plain_quiet)
  ultimately have run: "run (store_event_step sample_codec) ([], newDisk) [(), (), ()] ([st, newStore], d)"
    by (intro run_Cons [where t = "([newStore], newDisk)"] run_Cons [where t = "([newStore, newStore], newDisk)"] run_Cons)
       (auto simp: store_event_step_def sample_faithful)
  have "fst (GetByIntent sample_codec plainCall ''intent-1'' (newStore, d)) = Inr (Some sample_new)"
    using stores_read_disk [OF run newDisk_facts(1) _ plain_working(2) p(2,3), of newStore "''intent-1''"]
    by (simp add: sample_contents_def)
  with run show ?thesis by (intro exI conjI)
qed

section \<open>Deletion and labels\<close>

text \<open>
  C33. A label that the store derives for an ASCII request among fewer than 9000 sessions differs from the
  label of every other session, whatever the case of its letters, and has at most ten characters. The search
  for a free suffix ends before its bound.
\<close>

theorem unique_label:
  assumes "ascii requested" and "length (entries sessions) < 9000"
    and "fmlookup sessions i = Some s" and "s_id s \<noteq> excluded" and "s_name s \<noteq> []"
  shows "ToLower lower (Unique lower sessions excluded requested) \<noteq> ToLower lower (s_name s) \<and>
    length (Unique lower sessions excluded requested) \<le> MaxSessionNameRunes"
proof -
  obtain n where n: "n < 10000" "Unique lower sessions excluded requested = labelCandidate requested n"
    "ToLower lower (labelCandidate requested n) \<notin> usedLabels lower sessions excluded"
    by (rule Unique_free [OF assms(1,2)])
  have "(i, s) \<in> set (entries sessions)" using assms(3) by (simp add: set_entries)
  then have "ToLower lower (s_name s) \<in> usedLabels lower sessions excluded"
    using assms(4,5) unfolding usedLabels_def by force
  with n candidate_length [OF assms(1) n(1)] show ?thesis by auto
qed

theorem unique_label_witness:
  "Unique (map lowerASCII) (fmupd ''intent-1'' (sample_new\<lparr>s_name := ''MyProjectX''\<rparr>) fmempty) [] ''myprojectx'' \<noteq> ''MyProjectX'' \<and>
   length (Unique (map lowerASCII) (fmupd ''intent-1'' (sample_new\<lparr>s_name := ''MyProjectX''\<rparr>) fmempty) [] ''myprojectx'') \<le> 10"
proof -
  let ?m = "fmupd ''intent-1'' (sample_new\<lparr>s_name := ''MyProjectX''\<rparr>) fmempty"
  have "ascii ''myprojectx''" "length (entries ?m) < 9000" by (simp_all add: ascii_def)
  from unique_label [OF this, of "''intent-1''" "sample_new\<lparr>s_name := ''MyProjectX''\<rparr>" "[]" "map lowerASCII"]
  show ?thesis by (auto simp: sample_new_def MaxSessionNameRunes_def)
qed

lemma restorable_id:
  assumes "restorable s"
  shows "s_id s \<noteq> []"
proof -
  have "\<not> blank (n_ID (Snapshot s))" using assms by (simp add: restorable_def RestoreSession_def result_simps)
  then show ?thesis by (auto simp: Snapshot_def blank_def)
qed

lemma deleteBody_deletes:
  assumes "accepted k" and "fmlookup (ct_byIntent k) (s_intentID expected) = Some current"
    and "deleteBody expected True deleted k = Inr (True, nxt)"
  obtains ui k' ui' card' where "Equal current expected" "ct_telegramUI k = Some ui"
    "fmlookup (cardsOf ui) (s_id expected) = Some card'" "emptyEligible card'"
    "nxt = Some k'" "ct_telegramUI k' = Some ui'" "ct_byIntent k' = fmdrop (s_intentID expected) (ct_byIntent k)"
    "ct_byID k' = fmdrop (s_id expected) (ct_byID k)"
    "forgotten (s_id expected) ui'" "others_kept (s_id expected) ui ui'"
proof -
  from assms(2,3) obtain ui card' ui' where d: "Equal current expected" "ct_telegramUI k = Some ui"
      "fmlookup (cardsOf ui) (s_id expected) = Some card'" "emptyEligible card'"
      "ui' = deleteReferences k (fmdrop (s_intentID expected) (ct_byIntent k)) (s_id expected) ui"
      "nxt = Some (k\<lparr>ct_byIntent := fmdrop (s_intentID expected) (ct_byIntent k),
        ct_byID := fmdrop (s_id expected) (ct_byID k), ct_telegramUI := Some ui'\<rparr>)"
    by (auto simp: deleteBody_def Let_def result_simps split: option.splits if_splits)
  have "s_id expected \<noteq> []" "Clone ui = ui"
    using assms(1,2) d(1,2) restorable_id by (auto simp: accepted_def ui_ok_def Equal_def dest!: sessions_okD(2))
  from deleteReferences_forgets [OF this] d(5) show thesis by (intro that [OF d(1-4,6)]) simp_all
qed


text \<open>
  C16. A session is deleted only when its card is marked as never used and has no history, and when it has not
  changed since the caller read it. Then nothing on the disk refers to it any more: not the two indexes, the
  card, the active session of any computer, nor any list of recent sessions. The cards and the active
  sessions of the other sessions are kept, and the store remembers the deletion.
\<close>

theorem delete_forgets:
  assumes "faithful c" and "\<And>n. quiet (cl_access cl n)" and "coherent c st d" and "writesStorable c (DeleteOp expected) st d"
    and "deleteProven c cl expected True (st, d) = (Inr True, st', d')"
    and "diskContents c d = Inr k" and "fmlookup (ct_byIntent k) (s_intentID expected) = Some current"
  shows "\<exists>ui card' k' ui'. Equal current expected \<and> ct_telegramUI k = Some ui \<and>
    fmlookup (cardsOf ui) (s_id expected) = Some card' \<and> emptyEligible card' \<and>
    diskContents c d' = Inr k' \<and> ct_telegramUI k' = Some ui' \<and>
    ct_byIntent k' = fmdrop (s_intentID expected) (ct_byIntent k) \<and> ct_byID k' = fmdrop (s_id expected) (ct_byID k) \<and>
    forgotten (s_id expected) ui' \<and> others_kept (s_id expected) ui ui' \<and>
    fmlookup (st_deletedEmpty st') (s_id expected) = Some expected"
proof -
  define f where "f = (\<lambda>deleted k. bindE (deleteBody expected True deleted k) (\<lambda>(x, nxt). Inr ((x, nxt \<noteq> None), nxt)))"
  from assms(5) obtain x st1 where t: "transact c cl KeepCache (\<lambda>st. f (st_deletedEmpty st) (st_contents st)) (st, d) = (Inr (True, x), st1, d')"
      "st' = (if x then st1\<lparr>st_deletedEmpty := fmupd (s_id expected) expected (st_deletedEmpty st1)\<rparr> else st1)"
    by (auto simp: deleteProven_def f_def bindS_def liftS_def split: sum.splits prod.splits)
  have "storable c k2" if "diskContents c d = Inr k1" "f (st_deletedEmpty st) k1 = Inr (y, Some k2)" for k1 y k2
    using assms(4) that
    by (auto simp: f_def writesStorable_def effect_def dropResult_def result_simps)
  then have "outcome c d d' st1 (f (st_deletedEmpty st)) (Inr (True, x))"
    using transact_sound [where f = f, OF assms(1-3) _ t(1)] by blast
  with assms(6) obtain nxt where
    n: "f (st_deletedEmpty st) k = Inr ((True, x), nxt)" "diskContents c d' = Inr (case nxt of None \<Rightarrow> k | Some k \<Rightarrow> k)"
    by (auto simp: outcome_def)
  then have "deleteBody expected True (st_deletedEmpty st) k = Inr (True, nxt)" "x \<longleftrightarrow> nxt \<noteq> None"
    by (auto simp: f_def result_simps)
  from deleteBody_deletes [OF contentsOf_accepted [OF assms(6)] assms(7) this(1)]
  obtain ui k' ui' card' where "Equal current expected" "ct_telegramUI k = Some ui"
    "fmlookup (cardsOf ui) (s_id expected) = Some card'" "emptyEligible card'"
    "nxt = Some k'" "ct_telegramUI k' = Some ui'" "ct_byIntent k' = fmdrop (s_intentID expected) (ct_byIntent k)"
    "ct_byID k' = fmdrop (s_id expected) (ct_byID k)" "forgotten (s_id expected) ui'" "others_kept (s_id expected) ui ui'" .
  with n(2) t(2) \<open>x \<longleftrightarrow> nxt \<noteq> None\<close> show ?thesis by (intro exI [of _ ui] exI [of _ card'] exI [of _ k'] exI [of _ ui']) simp
qed

theorem delete_forgets_witness:
  "\<exists>st d st' d' k' ui'. OpenSessionStore sample_codec plainAccess ''state.json'' sample_disk = (Inr st, d) \<and>
     deleteProven sample_codec plainCall sample_new True (st, d) = (Inr True, st', d') \<and>
     diskContents sample_codec d' = Inr k' \<and> ct_byIntent k' = fmempty \<and> ct_telegramUI k' = Some ui' \<and> forgotten ''s-1'' ui' \<and>
     fmlookup (st_deletedEmpty st') ''s-1'' = Some sample_new"
proof -
  obtain st d where o: "OpenSessionStore sample_codec plainAccess ''state.json'' sample_disk = (Inr st, d)"
    "coherent sample_codec st d" "regular d" "diskContents sample_codec d = Inr sample_contents"
    by (rule sample_opened)
  define f where "f = (\<lambda>deleted k. bindE (deleteBody sample_new True deleted k) (\<lambda>(x, nxt). Inr ((x, nxt \<noteq> None), nxt)))"
  have "f (st_deletedEmpty st) sample_contents = Inr ((True, True), Some sample_deleted)"
    by (simp add: f_def sample_delete bindE_def)
  from working_transact [where f = f, OF plain_working(2) o(3,2,4) this] sample_encodes obtain st1 d1 where
    "transact sample_codec plainCall KeepCache (\<lambda>st. f (st_deletedEmpty st) (st_contents st)) (st, d) = (Inr (True, True), st1, d1)"
    by blast
  then obtain st2 where p: "deleteProven sample_codec plainCall sample_new True (st, d) = (Inr True, st2, d1)"
    using healthyD(2) [OF plain_working(2)] by (simp add: deleteProven_def f_def bindS_def liftS_def)
  have w: "writesStorable sample_codec (DeleteOp sample_new) st d"
    by (auto simp: writesStorable_def o(4) effect_def dropResult_def bindE_def sample_delete sample_storable)
  have "fmlookup (ct_byIntent sample_contents) (s_intentID sample_new) = Some sample_new" "s_id sample_new = ''s-1''"
    "fmdrop (s_intentID sample_new) (ct_byIntent sample_contents) = fmempty"
    by (simp_all add: sample_contents_def sample_new_def fmdrop_fmupd_same)
  with delete_forgets [OF sample_faithful plain_quiet(2) o(2) w p o(4)] o(1) p show ?thesis by auto
qed

section \<open>Keys with capital letters\<close>

lemma readAttempts_quiet_source:
  "quiet a \<Longrightarrow> readAttempts c a repair i n d = (Inr (k, g), d') \<Longrightarrow> diskContents c d = Inr k"
proof (induction n arbitrary: i d)
  case (Suc n)
  obtain r1 d2 where rd: "readSessionFile c a repair d = (r1, d2)" by fastforce
  then have "bytes d2 = bytes d" using readSessionFile_evolves by blast
  then have "readAttempts c a repair (Suc i) n d2 = (Inr (k, g), d') \<Longrightarrow> diskContents c d = Inr k"
    using Suc.IH [OF Suc.prems(1), of "Suc i" d2] by simp
  with Suc.prems rd readSessionFile_Inr [of c a repair d] show ?case
    by (cases r1) (auto simp: Let_def split: sum.splits if_splits)
qed simp

lemma Open_undecodable:
  assumes "quiet a" and "diskContents c d = Inl e"
  shows "\<exists>e. fst (OpenSessionStore c a path d) = Inl e"
proof -
  obtain v d1 where v: "readVerifiedSessionFile c a True d = (v, d1)" by fastforce
  have "\<exists>e. v = Inl e"
  proof (cases v)
    case (Inr kg)
    obtain k g where "kg = (k, g)" by (rule prod.exhaust)
    with Inr v readAttempts_quiet_source [OF assms(1)] assms(2) show ?thesis
      by (auto simp: readVerifiedSessionFile_def)
  qed simp
  with v show ?thesis by (auto simp: OpenSessionStore_def bindE_def)
qed

lemma transact_writes:
  assumes q: "\<And>n. quiet (cl_access cl n)" and "coherent c st d" and "diskContents c d = Inr k0"
    and "transact c cl policy (\<lambda>st. f (st_contents st)) (st, d) = (Inr x, st', d')" and "f k0 = Inr (y, Some k)"
  obtains data activity where "encodes c k data activity" "bytes d' = (Some data, Some activity)"
proof -
  obtain r1 st1 d1 where rl: "reload c (cl_access cl 0) (st, d) = (r1, st1, d1)" by (rule prod_cases3)
  have r1: "r1 = Inr ()" using assms(4) rl by (cases r1) (auto simp: transact_def bindS_def)
  have "st_contents st1 = k0"
    using reload_sound(4) [OF quiet_honest [OF q] assms(2) rl r1] reload_quiet [OF q rl] assms(3) by simp
  then have "fst (commit c cl policy k (st1, d1)) = Inr () \<and> snd (snd (commit c cl policy k (st1, d1))) = d'"
    using assms(4,5) rl r1
    by (cases "fst (commit c cl policy k (st1, d1))")
       (auto simp: transact_def bindS_def readS_def liftS_def split: prod.splits sum.splits)
  moreover have "fst (afterFailure c cl policy e s) \<noteq> Inr ()" for e s
    by (cases policy) (auto simp: afterFailure_def split: prod.splits sum.splits)
  moreover obtain w d2 where w: "writeSessionFile c (cl_access cl 1) (ct_byIntent k) (ct_checkpoint k) (ct_telegramUI k) d1 = (w, d2)"
    by (rule prod.exhaust)
  ultimately obtain g where
    "writeSessionFile c (cl_access cl 1) (ct_byIntent k) (ct_checkpoint k) (ct_telegramUI k) d1 = (Inr g, d')"
    by (cases w) (simp_all add: commit_def store_persist_def)
  then show thesis
  proof (cases rule: writeSessionFile_cases)
    case (replaced data f d2)
    with q have "d' = d2" by auto
    with replaced that show thesis by (simp add: bytes_def)
  qed simp
qed

text \<open>
  C37. The store reports an activation on a computer whose id has a capital letter as saved, and from then on
  no process can open the files: reading refuses every object key that is not in lower case, and the interface
  state is written with the ids of computers as keys. Computer ids with capital letters are accepted by the
  configuration.
\<close>

theorem uppercase_node_unreadable:
  assumes "faithful c" and "\<And>n. quiet (cl_access cl n)" and "coherent c st d" and "diskContents c d = Inr k"
    and "k' = k\<lparr>ct_telegramUI := Some (activateOnNode nodeID sessionID True (uiOrNew k))\<rparr>"
    and "contents_ok k'" and "representable (jsonFile (cd_time c) (stateDocument k'))"
    and "ToLower (cd_lower c) nodeID \<noteq> nodeID"
    and "SetNodeActiveSession c cl nodeID sessionID (st, d) = (Inr (), st', d')" and "quiet a"
  shows "\<exists>e. fst (OpenSessionStore c a path d') = Inl e"
proof -
  let ?fn = "\<lambda>_ s. Inr (activateOnNode nodeID sessionID True s)"
  have "Validate (activateOnNode nodeID sessionID True (uiOrNew k)) = Inr ()"
    using assms(5,6) by (simp add: contents_ok_def ui_ok_def)
  then have f: "updateUI ?fn k = Inr ((), Some k')" by (simp add: updateUI_def bindE_def orFail_def assms(5))
  have "transact c cl KeepCache (\<lambda>st. updateUI ?fn (st_contents st)) (st, d) = (Inr (), st', d')"
    using assms(9)
    by (auto simp: SetNodeActiveSession_def setNodeActiveSession_def UpdateTelegramUI_def elim!: guarded_cases)
  from transact_writes [where f = "updateUI ?fn", OF assms(2-4) this f] obtain data activity where
    w: "encodes c k' data activity" "bytes d' = (Some data, Some activity)" .
  have "nodeID \<in> set (stateKeys (activateOnNode nodeID sessionID True (uiOrNew k)))"
    by (simp add: stateKeys_def activateOnNode_def recordActive_def ensureCard_def Let_def mapKeys_eq)
  then have "\<not> canonical (cd_lower c) (jsonFile (cd_time c) (stateDocument k'))"
    using canonical_document [of k' "cd_lower c" "cd_time c"] assms(5,6,8)
    by (auto simp: contents_ok_def list_all_iff)
  then obtain e where "diskContents c d' = Inl e"
    using decode_refused [OF assms(1,6) _ assms(7)] w by (auto simp: encodes_def contentsOf_def)
  with Open_undecodable [OF assms(10)] show ?thesis .
qed

theorem uppercase_node_unreadable_witness:
  "\<exists>st d e. SetNodeActiveSession (codecFor [sample_capital]) plainCall ''Mac'' ''s-1'' (newStore, newDisk) = (Inr (), st, d) \<and>
     fst (OpenSessionStore (codecFor [sample_capital]) plainAccess ''state.json'' d) = Inl e"
proof -
  let ?c = "codecFor [sample_capital]" and ?fn = "\<lambda>_ s. Inr (activateOnNode ''Mac'' ''s-1'' True s)"
  have f: "updateUI ?fn emptyContents = Inr ((), Some sample_capital)"
    by (simp add: updateUI_def bindE_def orFail_def sample_capital_valid sample_capital_def)
  have "\<exists>data activity. encodes ?c k data activity" if "Some sample_capital = Some k" for k
    using that codecFor_encodes [of k "[sample_capital]"] by simp
  from working_transact [where f = "\<lambda>_. updateUI ?fn", OF plain_working(2) newDisk_facts(2) newStore_coherent newDisk_facts(3) f this]
  obtain st d where "transact ?c plainCall KeepCache (\<lambda>st. updateUI ?fn (st_contents st)) (newStore, newDisk) = (Inr (), st, d)"
    by blast
  moreover have "\<not> blank ''Mac''" "\<not> blank ''s-1''" by (simp_all add: blank_def ascii_simps)
  ultimately have p: "SetNodeActiveSession ?c plainCall ''Mac'' ''s-1'' (newStore, newDisk) = (Inr (), st, d)"
    using healthyD(2) [OF plain_working(2)]
    by (simp add: SetNodeActiveSession_def setNodeActiveSession_def UpdateTelegramUI_def bindS_def liftS_def failIf_def bindE_def)
  have "ToLower (map lowerASCII) ''Mac'' \<noteq> ''Mac''" by code_simp
  then have "ToLower (cd_lower ?c) ''Mac'' \<noteq> ''Mac''" by (simp only: codecFor_simps not_False_eq_True)
  from uppercase_node_unreadable [OF codecFor_faithful plain_quiet(2) newStore_coherent newDisk_facts(3) sample_capital_def
      sample_capital_ok _ this p plain_quiet(1)] sample_capital_document p
  show ?thesis by auto
qed

end
