(* ===== verification/Store_Checkpoint.thy ===== *)
theory Store_Checkpoint
  imports Store_Claims Coordinator_Properties
begin

text \<open>
  The checkpoint store as the coordinator sees it: every save is one of the outcomes that the coordinator is
  verified against. A save whose verification fails leaves a cache that hides what was written.
\<close>

section \<open>The checkpoint of a disk\<close>

definition durableOf :: "coordinatorRecord option \<Rightarrow> durable" where
  "durableOf record =
     (case record of
        None \<Rightarrow> None
      | Some r \<Rightarrow> (case storedCheckpointFromRecord r of Inl _ \<Rightarrow> None | Inr stored \<Rightarrow> Some stored))"

definition checkpointOn :: "stateCodec \<Rightarrow> disk \<Rightarrow> durable" where
  "checkpointOn c d =
     (case fst (bytes d) of
        None \<Rightarrow> None
      | Some data \<Rightarrow> (case cd_decode c data of Inl _ \<Rightarrow> None | Inr f \<Rightarrow> durableOf (f_Coordinator f)))"


lemma checkpointOn_contents:
  assumes "diskContents c d = Inr k"
  shows "checkpointOn c d = durableOf (ct_checkpoint k)"
proof (cases "fst (bytes d)")
  case None
  with assms show ?thesis by (auto simp: checkpointOn_def contentsOf_def emptyContents_def durableOf_def)
next
  case (Some data)
  with assms obtain f where "cd_decode c data = Inr f" "ct_checkpoint k = f_Coordinator f"
    by (auto simp: contentsOf_def decodeContents_def result_simps)
  with Some show ?thesis by (simp add: checkpointOn_def)
qed

definition savedCheckpoint :: "u64 \<Rightarrow> Checkpoint \<Rightarrow> StoredCheckpoint" where
  "savedCheckpoint r next = \<lparr>sc_Revision = r + 1, sc_Checkpoint = store_cloneCheckpoint next\<rparr>"

definition checkpointContents :: "u64 \<Rightarrow> Checkpoint \<Rightarrow> contents \<Rightarrow> contents" where
  "checkpointContents r next k = k\<lparr>ct_checkpoint := Some (recordFromStoredCheckpoint (savedCheckpoint r next))\<rparr>"

text \<open>The document of the next checkpoint can be written and read back.\<close>

definition writable :: "stateCodec \<Rightarrow> contents \<Rightarrow> bool" where
  "writable c k \<longleftrightarrow>
     contents_ok (normal k) \<and> representable (jsonFile (cd_time c) (stateDocument k)) \<and>
     canonical (cd_lower c) (jsonFile (cd_time c) (stateDocument k))"

definition savable :: "stateCodec \<Rightarrow> disk \<Rightarrow> u64 \<Rightarrow> Checkpoint \<Rightarrow> bool" where
  "savable c d r next \<longleftrightarrow> (\<forall>k. diskContents c d = Inr k \<longrightarrow> writable c (checkpointContents r next k))"

lemma contentsOf_written:
  "faithful c \<Longrightarrow> writable c k \<Longrightarrow> encodes c k data activity \<Longrightarrow>
     contentsOf c (Some data, Some activity) = Inr (normal k)"
  by (simp add: contentsOf_def writable_def encodes_def decode_normal)

lemma durableOf_saved:
  assumes "store_validateCheckpoint next = Inr ()" and "r \<noteq> maxUint64"
  obtains c' where "durableOf (ct_checkpoint (normal (checkpointContents r next k))) = Some \<lparr>sc_Revision = r + 1, sc_Checkpoint = c'\<rparr>"
    "keyboardless c' = keyboardless next"
proof -
  have "r + 1 \<noteq> 0" using assms(2) by (metis add_eq_0_iff2 maxUint64_def)
  from reread_checkpoint [OF assms(1) this] that show thesis
    by (auto simp: durableOf_def checkpointContents_def savedCheckpoint_def reread_def keyboardless_def setOutbound_def
        option.map_comp comp_def)
qed

section \<open>The steps of a save\<close>










section \<open>A save that cannot be verified\<close>

lemma persist_written:
  assumes "quiet a" and "store_persist c a k (st, d) = (Inr (), st', d')"
  obtains data activity f where "encodes c k data activity" "bytes d' = (Some data, Some activity)"
    "dk_state d' = Some f" "fl_mode f = ownerOnly" "fl_regular f" "st' = st\<lparr>st_generation := generation d'\<rparr>"
proof -
  obtain g where g: "writeSessionFile c a (ct_byIntent k) (ct_checkpoint k) (ct_telegramUI k) d = (Inr g, d')"
    "st' = st\<lparr>st_generation := g\<rparr>"
    using assms(2) by (auto simp: store_persist_def split: prod.splits sum.splits)
  from g(1) show thesis
  proof (cases rule: writeSessionFile_cases)
    case (replaced data f d1)
    with assms(1) have "d' = d1" "g = generation d'" by auto
    with replaced g(2) that show thesis by (simp add: bytes_def)
  qed simp
qed

lemma readAttempts_clean:
  assumes "quiet a" and "dk_state d = Some f" and "fl_mode f = ownerOnly"
  shows "snd (readAttempts c a repair i n d) = d"
proof -
  have clean: "d\<lparr>dk_state := Some (f\<lparr>fl_mode := ownerOnly\<rparr>)\<rparr> = d" using assms(2,3) by (cases d; cases f) simp
  have "snd (readSessionFile c a repair d) = d"
    using assms(2) clean by (simp add: readSessionFile_def Let_def)
  then obtain r1 where rd: "readSessionFile c a repair d = (r1, d)" by (metis prod.collapse)
  show ?thesis
  proof (induction n arbitrary: i)
    case (Suc n)
    with rd assms(1) show ?case by (cases r1) (auto simp: Let_def split: sum.splits)
  qed simp
qed

lemma verified_failed:
  assumes "quiet a" and "dk_state d = Some f" and "fl_mode f = ownerOnly"
    and "verified c a accepts (st, d) = (Inl e, st', d')"
  shows "st' = st" "d' = d"
  using assms(4) readAttempts_clean [OF assms(1-3), of c True 0 4]
  by (auto simp: verified_def readVerifiedSessionFile_def split: prod.splits sum.splits)

text \<open>Nothing but the last step of a save, reading the document again, may fail.\<close>

definition rereadMayFail :: "call \<Rightarrow> bool" where
  "rereadMayFail cl \<longleftrightarrow> (\<forall>n. cl_ctx cl n = None \<and> quiet (cl_access cl n) \<and> (n \<noteq> 3 \<longrightarrow> working (cl_access cl n)))"

lemma checkRevision_current:
  assumes "accepted k" and "revision (durableOf (ct_checkpoint k)) = r"
  shows "checkRevision r next k = Inr None"
  using assms
  by (auto simp: checkRevision_def durableOf_def revision_def accepted_def storedCheckpointFromRecord_def Let_def
      result_simps split: option.splits sum.splits)

text \<open>Such a save writes the document and comes to reading it again, with the old contents in the cache.\<close>

lemma save_written:
  assumes cl: "rereadMayFail cl" and "regular d" and co: "coherent c st d" and k: "diskContents c d = Inr k"
    and enc: "encodes c (checkpointContents r next k) data activity"
    and ok: "store_validateCheckpoint next = Inr ()" "r \<noteq> maxUint64" and rev: "revision (checkpointOn c d) = r"
  obtains st2 d2 data activity f where
    "checkpoint_Save c cl r next (st, d) = verified c (cl_access cl 3) (acceptReread (savedCheckpoint r next)) (st2, d2)"
    "encodes c (checkpointContents r next k) data activity" "bytes d2 = (Some data, Some activity)"
    "dk_state d2 = Some f" "fl_mode f = ownerOnly" "fl_regular f" "st_contents st2 = k" "st_generation st2 = generation d2"
proof -
  have w: "working (cl_access cl 0)" "working (cl_access cl 1)" "ctxErr cl n = Inr ()" for n
    using cl by (simp_all add: rereadMayFail_def ctxErr_def)
  obtain st1 d1 where rl: "reload c (cl_access cl 0) (st, d) = (Inr (), st1, d1)" "st_contents st1 = k"
    using working_reload [OF w(1) assms(2) co k] by blast
  obtain st2 d2 where p: "store_persist c (cl_access cl 1) (checkpointContents r next k) (st1, d1) = (Inr (), st2, d2)"
    using working_persist [OF w(2) enc] by blast
  from persist_written [OF workingD(1) [OF w(2)] p] obtain data' activity' f where
    f: "encodes c (checkpointContents r next k) data' activity'" "bytes d2 = (Some data', Some activity')"
      "dk_state d2 = Some f" "fl_mode f = ownerOnly" "fl_regular f" "st2 = st1\<lparr>st_generation := generation d2\<rparr>" .
  have "checkRevision r next k = Inr None"
    using checkRevision_current [OF contentsOf_accepted [OF k]] rev checkpointOn_contents [OF k] by simp
  then have "checkpoint_Save c cl r next (st, d) = verified c (cl_access cl 3) (acceptReread (savedCheckpoint r next)) (st2, d2)"
    using rl p ok w(3)
    by (simp add: checkpoint_Save_def bindS_def readS_def liftS_def persistOr_def orFail_def Let_def
        checkpointContents_def savedCheckpoint_def failIf_def bindE_def)
  with f rl(2) that show thesis by simp
qed

lemma unverified_save:
  assumes "rereadMayFail cl" and "regular d" and "coherent c st d" and "diskContents c d = Inr k"
    and "encodes c (checkpointContents r next k) data activity"
    and "store_validateCheckpoint next = Inr ()" "r \<noteq> maxUint64" and "revision (checkpointOn c d) = r"
    and save: "checkpoint_Save c cl r next (st, d) = (Inl e, st', d')"
  obtains data activity where "encodes c (checkpointContents r next k) data activity"
    "bytes d' = (Some data, Some activity)" "st_contents st' = k" "st_generation st' = generation d'"
proof -
  have q: "quiet (cl_access cl 3)" using assms(1) by (simp add: rereadMayFail_def)
  show thesis
  proof (rule save_written [OF assms(1-8)])
    fix st2 d2 data activity f
    assume s: "checkpoint_Save c cl r next (st, d) = verified c (cl_access cl 3) (acceptReread (savedCheckpoint r next)) (st2, d2)"
      "encodes c (checkpointContents r next k) data activity" "bytes d2 = (Some data, Some activity)"
      "dk_state d2 = Some f" "fl_mode f = ownerOnly" "st_contents st2 = k" "st_generation st2 = generation d2"
    from verified_failed [OF q s(4,5) save [unfolded s(1)]] s that show thesis by simp
  qed
qed

lemma reload_current:
  "working a \<Longrightarrow> st_generation st = generation d \<Longrightarrow> reload c a (st, d) = (Inr (), st, d)"
  by (simp add: reload_def)

text \<open>
  C39. When a save has replaced the document and only reading it again fails, the store has already taken
  over the generation of the new document but not its contents. Until another process writes, it loads the
  old checkpoint although the disk holds the next one, and its next successful update of the interface state
  puts the old checkpoint back on the disk: the revision goes back.
\<close>

theorem unverified_save_lost:
  assumes "faithful c" and "rereadMayFail cl" and "regular d" and "coherent c st d" and "diskContents c d = Inr k"
    and "savable c d r next" and "encodes c (checkpointContents r next k) data activity"
    and "store_validateCheckpoint next = Inr ()" and "r \<noteq> maxUint64" and "revision (checkpointOn c d) = r"
    and "checkpoint_Save c cl r next (st, d) = (Inl e, st', d')"
    and "healthy cl'" and "updateUI fn k = Inr ((), Some k2)" and "storable c k2" and "encodes c k2 data2 activity2"
    and "UpdateTelegramUI c cl' fn (st', d') = (a, st'', d'')"
  shows "(\<exists>c'. checkpointOn c d' = Some \<lparr>sc_Revision = r + 1, sc_Checkpoint = c'\<rparr>) \<and>
    fst (checkpoint_Load c cl' (st', d')) = Inr (checkpointOn c d) \<and>
    a = Inr () \<and> checkpointOn c d'' = checkpointOn c d"
proof -
  from unverified_save [OF assms(2-5,7-11)] obtain data' activity' where
    s: "encodes c (checkpointContents r next k) data' activity'" "bytes d' = (Some data', Some activity')"
      "st_contents st' = k" "st_generation st' = generation d'" .
  have w: "working (cl_access cl' n)" "ctxErr cl' n = Inr ()" for n using healthyD [OF assms(12)] by simp_all
  have old: "checkpointOn c d = durableOf (ct_checkpoint k)" using checkpointOn_contents [OF assms(5)] .
  have "diskContents c d' = Inr (normal (checkpointContents r next k))"
    using contentsOf_written [OF assms(1) _ s(1)] assms(5,6) s(2) by (simp add: savable_def)
  with durableOf_saved [OF assms(8,9), of k] have "\<exists>c'. checkpointOn c d' = Some \<lparr>sc_Revision = r + 1, sc_Checkpoint = c'\<rparr>"
    using checkpointOn_contents by metis
  moreover have "fst (checkpoint_Load c cl' (st', d')) = Inr (checkpointOn c d)"
    using contentsOf_accepted [OF assms(5)] reload_current [OF w(1) s(4)] w(2)
    by (auto simp: checkpoint_Load_def loaded_def bindS_def liftS_def readS_def s(3) old durableOf_def accepted_def
        orFail_def bindE_def split: option.split)
  moreover have "a = Inr () \<and> checkpointOn c d'' = checkpointOn c d"
  proof -
    obtain st3 d3 where p: "store_persist c (cl_access cl' 1) k2 (st', d') = (Inr (), st3, d3)"
      using working_persist [OF w(1) assms(15)] by blast
    then have "a = Inr ()" "d'' = d3"
      using assms(13,16) reload_current [OF w(1) s(4)] w(2) s(3)
      by (auto simp: UpdateTelegramUI_def transact_def bindS_def liftS_def readS_def commit_def bindE_def)
    moreover have "diskContents c d3 = Inr k2"
      using persist_written [OF workingD(1) [OF w(1)] p] contentsOf_encodes [OF assms(1,14)] by metis
    moreover have "ct_checkpoint k2 = ct_checkpoint k"
      using assms(13) by (auto simp: updateUI_def result_simps)
    ultimately show ?thesis using checkpointOn_contents [of c d3 k2] old by simp
  qed
  ultimately show ?thesis by blast
qed

section \<open>Examples\<close>

definition sample_next :: Checkpoint where
  "sample_next = \<lparr>cp_Initialized = True, cp_NextUpdateID = 5, cp_Blocked = None, cp_Outbound = None, cp_Recovery = None\<rparr>"

definition sample_saved :: contents where
  "sample_saved = checkpointContents 0 sample_next emptyContents"

definition checkpoint_codec :: stateCodec where
  "checkpoint_codec = codecFor [sample_saved, sample_deleted]"

text \<open>A call in which no system call of the last step succeeds.\<close>

definition faultyCall :: call where
  "faultyCall = plainCall\<lparr>cl_access := (\<lambda>n. plainAccess\<lparr>ac_fails := (\<lambda>_. n = 3)\<rparr>)\<rparr>"

lemma sample_next_valid: "store_validateCheckpoint sample_next = Inr ()"
  by code_simp

lemma sample_saved_document:
  "representable (jsonFile (\<lambda>_. []) (stateDocument sample_saved))"
  "canonical (map lowerASCII) (jsonFile (\<lambda>_. []) (stateDocument sample_saved))"
  by code_simp+


lemma sample_saved_ok: "contents_ok (normal sample_saved)"
proof -
  have "\<exists>stored. storedCheckpointFromRecord (omitEmpty (recordFromStoredCheckpoint (savedCheckpoint 0 sample_next))) = Inr stored"
    by (rule durableOf_saved [OF sample_next_valid, of 0 emptyContents])
       (auto simp: durableOf_def checkpointContents_def maxUint64_def split: sum.splits)
  moreover have "omitEmpty (omitEmpty r) = omitEmpty r" for r
    by (cases "cr_Outbound r"; cases r) (simp_all add: omitEmpty_def)
  ultimately show ?thesis
    using contents_ok_empty
    by (simp add: contents_ok_def checkpoint_ok_def sample_saved_def checkpointContents_def)
       (simp add: omitEmpty_def recordFromStoredCheckpoint_def Let_def)
qed

lemma checkpoint_codec_facts:
  "faithful checkpoint_codec" "savable checkpoint_codec newDisk 0 sample_next" "storable checkpoint_codec sample_deleted"
  "\<exists>data activity. encodes checkpoint_codec sample_saved data activity"
  "\<exists>data activity. encodes checkpoint_codec sample_deleted data activity"
  "checkpointOn checkpoint_codec newDisk = None"
proof -
  show "savable checkpoint_codec newDisk 0 sample_next"
    using sample_saved_ok sample_saved_document
    by (auto simp: checkpoint_codec_def savable_def newDisk_facts writable_def sample_saved_def)
  show "storable checkpoint_codec sample_deleted"
    using sample_deleted_document by (simp add: checkpoint_codec_def storable_def)
  show "faithful checkpoint_codec" by (simp add: checkpoint_codec_def codecFor_faithful)
  show "checkpointOn checkpoint_codec newDisk = None" by (simp add: checkpointOn_def bytes_def newDisk_def)
qed (unfold checkpoint_codec_def, (rule codecFor_encodes; simp)+)

lemma sample_calls: "rereadMayFail plainCall" "rereadMayFail faultyCall" "quiet (cl_access faultyCall n)"
  by (simp_all add: rereadMayFail_def faultyCall_def plainCall_def plainAccess_def working_def quiet_def)

text \<open>In both calls the save comes to reading the new document again.\<close>

lemma sample_save:
  assumes "rereadMayFail cl"
  obtains st d where
    "checkpoint_Save checkpoint_codec cl 0 sample_next (newStore, newDisk) =
       verified checkpoint_codec (cl_access cl 3) (acceptReread (savedCheckpoint 0 sample_next)) (st, d)"
    "diskContents checkpoint_codec d = Inr (normal sample_saved)" "regular d"
proof -
  obtain data activity where enc: "encodes checkpoint_codec (checkpointContents 0 sample_next emptyContents) data activity"
    using checkpoint_codec_facts(4) unfolding sample_saved_def by blast
  have "(0 :: u64) \<noteq> maxUint64" "revision (checkpointOn checkpoint_codec newDisk) = 0"
    by (simp_all add: maxUint64_def revision_def checkpoint_codec_facts(6))
  from save_written [OF assms newDisk_facts(2) newStore_coherent newDisk_facts(3) enc sample_next_valid this]
  obtain st d data' activity' f where
    s: "checkpoint_Save checkpoint_codec cl 0 sample_next (newStore, newDisk) =
       verified checkpoint_codec (cl_access cl 3) (acceptReread (savedCheckpoint 0 sample_next)) (st, d)"
      "encodes checkpoint_codec (checkpointContents 0 sample_next emptyContents) data' activity'"
      "bytes d = (Some data', Some activity')" "dk_state d = Some f" "fl_regular f" by metis
  have "writable checkpoint_codec (checkpointContents 0 sample_next emptyContents)"
    using checkpoint_codec_facts(2) by (simp add: savable_def newDisk_facts)
  with contentsOf_written [OF checkpoint_codec_facts(1) _ s(2)] s that show thesis
    by (simp add: sample_saved_def regular_def)
qed


theorem unverified_save_lost_witness:
  "\<exists>e st d st' d'. checkpoint_Save checkpoint_codec faultyCall 0 sample_next (newStore, newDisk) = (Inl e, st, d) \<and>
     (\<exists>c'. checkpointOn checkpoint_codec d = Some \<lparr>sc_Revision = 1, sc_Checkpoint = c'\<rparr>) \<and>
     fst (checkpoint_Load checkpoint_codec plainCall (st, d)) = Inr None \<and>
     UpdateTelegramUI checkpoint_codec plainCall (\<lambda>_ s. Inr s) (st, d) = (Inr (), st', d') \<and>
     checkpointOn checkpoint_codec d' = None"
proof -
  obtain st1 d1 where "checkpoint_Save checkpoint_codec faultyCall 0 sample_next (newStore, newDisk) =
       verified checkpoint_codec (cl_access faultyCall 3) (acceptReread (savedCheckpoint 0 sample_next)) (st1, d1)"
    by (rule sample_save [OF sample_calls(2)])
  then obtain e st d where p: "checkpoint_Save checkpoint_codec faultyCall 0 sample_next (newStore, newDisk) = (Inl e, st, d)"
    by (simp add: verified_def readVerifiedSessionFile_def numeral_eq_Suc inspectStoreGeneration_def inspectPathGeneration_def
        attempt_def faultyCall_def plainCall_def failIf_def bindE_def)
  obtain a st' d' where u: "UpdateTelegramUI checkpoint_codec plainCall (\<lambda>_ s. Inr s) (st, d) = (a, st', d')"
    by (rule prod_cases3)
  have f: "updateUI (\<lambda>_ s. Inr s) emptyContents = Inr ((), Some sample_deleted)"
    using Validate_New by (simp add: updateUI_def bindE_def orFail_def uiOrNew_def sample_deleted_def emptyContents_def)
  obtain data activity data2 activity2 where enc:
    "encodes checkpoint_codec (checkpointContents 0 sample_next emptyContents) data activity"
    "encodes checkpoint_codec sample_deleted data2 activity2"
    using checkpoint_codec_facts(4,5) unfolding sample_saved_def by blast
  have "(0 :: u64) \<noteq> maxUint64" "revision (checkpointOn checkpoint_codec newDisk) = 0"
    by (simp_all add: maxUint64_def revision_def checkpoint_codec_facts(6))
  from unverified_save_lost [OF checkpoint_codec_facts(1) sample_calls(2) newDisk_facts(2) newStore_coherent newDisk_facts(3)
      checkpoint_codec_facts(2) enc(1) sample_next_valid this p plain_working(2) f checkpoint_codec_facts(3) enc(2) u] p u
  show ?thesis by (auto simp: checkpoint_codec_facts(6))
qed

end
