(* ===== verification/Spec2Isabelle.thy ===== *)
theory Spec2Isabelle
  imports Session Journal_Properties Card_Properties Coordinator_Claims Store_Checkpoint
begin

text \<open>
  A verification library for Bria, a personal Telegram front end for Codex and Claude sessions.

  \<^bold>\<open>Parts and how they interact.\<close> The coordinator (\<^verbatim>\<open>internal/coordinator\<close>) polls updates, hands each one to
  a handler, sends the status it decides on, and acknowledges the update. What it has done is a checkpoint. The
  handlers create and change sessions (\<^verbatim>\<open>internal/domain\<close>), keep the cards that show them
  (\<^verbatim>\<open>internal/telegramstate\<close> and the card history packages), and pass inputs and answers through the message
  journal (\<^verbatim>\<open>internal/messagejournal\<close>). Sessions, cards and the checkpoint are one state document that the
  session store (\<^verbatim>\<open>internal/storage\<close>) reads and replaces; the journal has a file of its own.

  \<^bold>\<open>Conventions.\<close> \<open>Prelude\<close> has the result type \<open>'e + 'a\<close> with \<open>bindE\<close> and \<open>failIf\<close> for early returns, UTF-8 as Go
  reads it, nil-sensitive slices, 64-bit arithmetic, and the two locales \<open>invariant_machine\<close> and
  \<open>ordered_machine\<close> over \<open>run\<close>, the sequences of steps. \<open>Go_Maps\<close> reads Go maps as finite maps that are visited
  in the order of their keys. Times are nanoseconds. A system call is an oracle that may fail at each place
  where the code calls it.

  \<^bold>\<open>Sessions\<close> (\<open>Session\<close>; \<^verbatim>\<open>internal/domain/session.go\<close>). \<open>Session\<close> is the value, \<open>SessionSnapshot\<close> its stored
  form, \<open>RestoreSession\<close> the validation, and every operation of the life cycle is a definition. The lemmas show
  that operations keep sessions restorable apart from two cases that are exact, that identity, time and
  generations are monotone over any sequence, which arrows the life cycle has, and when a session expires.

  \<^bold>\<open>Journal\<close> (\<open>Journal\<close>, \<open>Journal_Ops\<close>, \<open>Journal_Valid\<close>, \<open>Journal_History\<close>, \<open>Journal_Machine\<close>, \<open>Journal_Properties\<close>;
  \<^verbatim>\<open>internal/messagejournal\<close>). Documents, validation, all input, output and recovery operations, and the locked
  read, change and atomic write around them. The operations refine a machine on documents whatever system calls
  fail; records keep place and identity and settled ones never change; inputs are leased in order; recovery
  boundaries fence what lies before them; without faults operations complete.

  \<^bold>\<open>Cards\<close> (\<open>Telegram_State\<close>, \<open>Crypto\<close>, \<open>Card_History\<close>, \<open>Card_Rows\<close>, \<open>Card_Properties\<close>). The interface state with
  its validation and carriers, and the bounded parallel columns of a card's history. \<open>rows\<close> abstracts the
  columns to a list of rows. Events and recovered answers are stored once, bounded inserts spare protected rows,
  and carrier revisions never go back. SHA-256 and HMAC are defined, since the keys of
  events are hashes.

  \<^bold>\<open>Coordinator\<close> (\<open>Checkpoint\<close>, \<open>Coordinator\<close>, \<open>Coordinator_Runs\<close>, \<open>Coordinator_Properties\<close>,
  \<open>Coordinator_Progress\<close>, \<open>Coordinator_Claims\<close>). The loop and the owner's operations are trees \<open>prog\<close> of interface
  calls. \<open>saves\<close> is the contract of the checkpoint store; the other interfaces answer arbitrarily, and a run may
  be cut at every call and started again. A status is sent at most once, updates are decided before they are
  acknowledged, the offset never goes back, and a responsive environment makes a batch complete. The poll loop
  takes fuel, one unit for a poll; the safety properties hold for every amount of it.

  \<^bold>\<open>State document\<close> (\<open>State_Json\<close>, \<open>State_Document\<close>, \<open>State_Reading\<close>; \<^verbatim>\<open>internal/statejson\<close>,
  \<^verbatim>\<open>internal/cardactivity\<close> and the records of \<^verbatim>\<open>internal/storage/session_store.go\<close>). The walk over the keys
  of a document, the stored records with their JSON fields, and the activity file beside the document. The
  printer and the parser of \<^verbatim>\<open>encoding/json\<close> are the parameter \<open>stateCodec\<close> with the law \<open>faithful\<close>, restricted
  to representable documents. The walk takes fuel of one more than twice the number of tokens, and \<open>read_enough\<close>
  shows that more makes no difference. What is written is read back, up to keyboards without rows (\<open>normal\<close>).

  \<^bold>\<open>State files\<close> (\<open>State_Files\<close>, \<open>State_Evolution\<close>). Inspecting, reading in four attempts as the code has
  them, and replacing the two files, with a failure for each system call and changes by other processes between
  the calls. \<open>evolves\<close> is what a writer keeps to: it replaces files by new ones. A file has a stamp for the
  identity and the modification time that the code compares.

  \<^bold>\<open>Session store\<close> (\<open>Session_Store\<close>, \<open>Store_Transactions\<close>, \<open>Store_Machine\<close>, \<open>Store_Effects\<close>, \<open>Store_Samples\<close>,
  \<open>Store_Claims\<close>, \<open>Store_Checkpoint\<close>). Every operation of \<^verbatim>\<open>SessionStore\<close> and \<^verbatim>\<open>CoordinatorCheckpointStore\<close> is a
  definition on the cache and the disk. \<open>effect\<close> is the change that an operation of type \<open>store_op\<close> stands
  for: insertion, renaming, compare-and-swap, replacement, model preferences, any update of the interface state,
  and the deletion of never used sessions. The import of archives and the deletion without that condition are
  modelled but are not among them. \<open>coherent\<close>
  ties a cache to the disk: if the store has seen the present files, its cache is what they hold. These operations
  implement their effects all or nothing, keep every open store coherent, keep identities and complete without
  faults; a verified read sees one state of both files; deletions leave no reference; labels are unique. Saves
  of the checkpoint store are steps of \<open>saves\<close>, which connects it to the coordinator, as far as the disk is
  concerned: after a save that could not be verified the cache is not coherent, and \<open>unverified_save_lost\<close> shows
  that the store may then write the old checkpoint again.

  \<^bold>\<open>Assumptions.\<close> A writer outside of the modelled processes keeps to \<open>evolves\<close>. The properties of operations
  assume that no other process writes during the call itself, as the instance lock of the daemon provides; reads
  and opening a store do not. Contents written are \<open>storable\<close>: their text is UTF-8 and their keys are in lower
  case, and \<open>uppercase_node_unreadable\<close> shows that the second is not ensured by the code.

  \<^bold>\<open>Not modelled.\<close> Goroutines and timers of the Telegram controller and the turn workers: the orders in which
  they call the modelled operations are arbitrary sequences here. Presentation, which changes no durable state.
  Provider processes, terminals, the Bot API and node links, which are effects outside of the program. The
  ledgers of notifications, interactions and callbacks, the settings, the backups and the updates have files
  and formats of their own and are independent of the components above. Paths, symbolic links and the contents
  of file permissions beyond the owner's mode are left to the operating system.
\<close>

end
